(* ===== verification/Prelude.thy ===== *)
theory Prelude
  imports Main "HOL-Library.State_Monad"
begin

text \<open>
  What every component of the development shares: the error values of the Go sources, the
  state monad in which effectful Go code is written, the combinators that stand for the Go
  idioms \<^verbatim>\<open>if err != nil { return err }\<close>, \<^verbatim>\<open>fmt.Errorf("...: %w", err)\<close>, \<^verbatim>\<open>defer\<close>
  and \<^verbatim>\<open>for ... range\<close>, how each of them runs, and the judgement \<open>keeps\<close>: an operation keeps an
  invariant of the world on every path, error paths included.
\<close>

named_theorems keeps_intros \<open>introduction rules for the invariant judgement\<close>

subsection \<open>Error values\<close>

text \<open>
  A Go \<open>error\<close> is a package variable made by \<open>errors.New\<close> (compared by identity; no two
  variables of this program carry the same text, so the text identifies it), an error that a
  library returned (known by its text), or one wrapped by \<open>fmt.Errorf("msg: %w", err)\<close>.
\<close>

datatype go_error =
    Sentinel string
  | External string
  | Wrapped string go_error

fun err_text :: "go_error \<Rightarrow> string" where
  "err_text (Sentinel s) = s"
| "err_text (External s) = s"
| "err_text (Wrapped m e) = m @ '': '' @ err_text e"

type_synonym 'a result = "go_error + 'a"

fun is_ok :: "'a result \<Rightarrow> bool" where
  "is_ok (Inr _) = True"
| "is_ok (Inl _) = False"

subsection \<open>Effectful code\<close>

type_synonym ('w, 'a) eff = "('w, 'a result) state"

abbreviation ret :: "'a \<Rightarrow> ('w, 'a) state" where
  "ret \<equiv> State_Monad.return"

abbreviation ok :: "'a \<Rightarrow> ('w, 'a) eff" where
  "ok x \<equiv> ret (Inr x)"

abbreviation fail :: "go_error \<Rightarrow> ('w, 'a) eff" where
  "fail e \<equiv> ret (Inl e)"

definition update_world :: "('w \<Rightarrow> 'w) \<Rightarrow> ('w, unit) state" where
  "update_world f = State (\<lambda>w. ((), f w))"

text \<open>\<open>x, err := m; if err != nil { return err }; k(x)\<close>\<close>

definition bindE :: "('w, 'a) eff \<Rightarrow> ('a \<Rightarrow> ('w, 'b) eff) \<Rightarrow> ('w, 'b) eff" where
  "bindE m k = State_Monad.bind m (\<lambda>r. case r of Inl e \<Rightarrow> fail e | Inr x \<Rightarrow> k x)"

text \<open>\<open>if err != nil { return fmt.Errorf("msg: %w", err) }\<close>\<close>

definition wrapE :: "string \<Rightarrow> ('w, 'a) eff \<Rightarrow> ('w, 'a) eff" where
  "wrapE msg m =
     State_Monad.bind m (\<lambda>r. ret (case r of Inl e \<Rightarrow> Inl (Wrapped msg e) | Inr x \<Rightarrow> Inr x))"

text \<open>\<open>defer fin()\<close>: the deferred call runs after the body on every path.\<close>

definition deferred :: "('w, unit) state \<Rightarrow> ('w, 'a) state \<Rightarrow> ('w, 'a) state" where
  "deferred fin m = State_Monad.bind m (\<lambda>r. State_Monad.bind fin (\<lambda>_. ret r))"

text \<open>\<open>for _, x := range xs { if err := f(x); err != nil { return err } }\<close>\<close>

fun forE :: "('a \<Rightarrow> ('w, unit) eff) \<Rightarrow> 'a list \<Rightarrow> ('w, unit) eff" where
  "forE f [] = ok ()"
| "forE f (x # xs) = bindE (f x) (\<lambda>_. forE f xs)"

text \<open>\<open>for _, x := range xs { f(x) }\<close>, with no way out of the loop.\<close>

fun for_each :: "('a \<Rightarrow> ('w, unit) state) \<Rightarrow> 'a list \<Rightarrow> ('w, unit) state" where
  "for_each f [] = ret ()"
| "for_each f (x # xs) = State_Monad.bind (f x) (\<lambda>_. for_each f xs)"

text \<open>A loop that collects one value per element, as \<^verbatim>\<open>append\<close> in a \<open>for\<close> does.\<close>

fun for_map :: "('a \<Rightarrow> ('w, 'b) state) \<Rightarrow> 'a list \<Rightarrow> ('w, 'b list) state" where
  "for_map f [] = ret []"
| "for_map f (x # xs) =
     State_Monad.bind (f x) (\<lambda>y. State_Monad.bind (for_map f xs) (\<lambda>ys. ret (y # ys)))"

lemma run_update_world [simp]: "run_state (update_world f) w = ((), f w)"
  by (simp add: update_world_def)

lemma run_bindE [simp]:
  "run_state (bindE m k) w =
     (case run_state m w of (Inl e, w') \<Rightarrow> (Inl e, w') | (Inr x, w') \<Rightarrow> run_state (k x) w')"
  by (simp add: bindE_def split: prod.splits sum.splits)

lemma run_wrapE [simp]:
  "run_state (wrapE msg m) w =
     (case run_state m w of (Inl e, w') \<Rightarrow> (Inl (Wrapped msg e), w') | (Inr x, w') \<Rightarrow> (Inr x, w'))"
  by (simp add: wrapE_def split: prod.splits sum.splits)

lemma run_deferred [simp]:
  "run_state (deferred fin m) w =
     (case run_state m w of (r, w') \<Rightarrow> (r, snd (run_state fin w')))"
  by (simp add: deferred_def split: prod.splits)

subsection \<open>Tables as lists\<close>

lemma list_ex_key: "list_ex (\<lambda>q. f q = k) xs \<longleftrightarrow> k \<in> f ` set xs"
  by (force simp: list_ex_iff)

subsection \<open>Invariants of the world, on every path\<close>

definition keeps :: "('w \<Rightarrow> bool) \<Rightarrow> ('w, 'a) state \<Rightarrow> bool" where
  "keeps I m \<longleftrightarrow> (\<forall>w. I w \<longrightarrow> I (snd (run_state m w)))"

lemma keepsD: "keeps I m \<Longrightarrow> I w \<Longrightarrow> I (snd (run_state m w))"
  by (simp add: keeps_def)

lemma keeps_ret [keeps_intros]: "keeps I (ret x)"
  by (simp add: keeps_def)

lemma keeps_bind [keeps_intros]:
  "keeps I m \<Longrightarrow> (\<And>x. keeps I (f x)) \<Longrightarrow> keeps I (State_Monad.bind m f)"
  by (force simp: keeps_def split: prod.splits)

lemma keeps_bindE [keeps_intros]:
  "keeps I m \<Longrightarrow> (\<And>x. keeps I (f x)) \<Longrightarrow> keeps I (bindE m f)"
  by (force simp: keeps_def split: prod.splits sum.splits)

lemma keeps_wrapE [keeps_intros]: "keeps I m \<Longrightarrow> keeps I (wrapE msg m)"
  by (force simp: keeps_def split: prod.splits sum.splits)

lemma keeps_deferred [keeps_intros]: "keeps I m \<Longrightarrow> keeps I fin \<Longrightarrow> keeps I (deferred fin m)"
  by (force simp: keeps_def split: prod.splits)

lemma keeps_if [keeps_intros]: "keeps I m \<Longrightarrow> keeps I n \<Longrightarrow> keeps I (if b then m else n)"
  by simp

lemma keeps_case_sum [keeps_intros]:
  "(\<And>e. keeps I (f e)) \<Longrightarrow> (\<And>x. keeps I (g x)) \<Longrightarrow> keeps I (case r of Inl e \<Rightarrow> f e | Inr x \<Rightarrow> g x)"
  by (cases r) auto

lemma keeps_case_option [keeps_intros]:
  "keeps I f \<Longrightarrow> (\<And>x. keeps I (g x)) \<Longrightarrow> keeps I (case r of None \<Rightarrow> f | Some x \<Rightarrow> g x)"
  by (cases r) auto

lemma keeps_forE [keeps_intros]: "(\<And>x. keeps I (f x)) \<Longrightarrow> keeps I (forE f xs)"
  by (induction xs) (auto intro: keeps_intros)

lemma keeps_for_each [keeps_intros]: "(\<And>x. keeps I (f x)) \<Longrightarrow> keeps I (for_each f xs)"
  by (induction xs) (auto intro: keeps_intros)

lemma keeps_for_map [keeps_intros]: "(\<And>x. keeps I (f x)) \<Longrightarrow> keeps I (for_map f xs)"
  by (induction xs) (auto intro: keeps_intros)

end
