(* ===== verification/Go_Float.thy ===== *)
theory Go_Float
  imports Complex_Main Prelude
begin

text \<open>
  Go's \<open>float64\<close> as the sources use it (amounts of money, page counts): IEEE 754 binary64
  with round-to-nearest, ties to even, gradual underflow and overflow to an infinity. A finite
  value is the rational it denotes; the sign of a zero is not represented (no operation of
  this program can tell the two zeros apart: it never divides by a negative zero).
  The lemmas give what the components use: rounding is exact on the integers up to
  \<open>2 ^ 53\<close>, never changes the sign, and its relative error is at most \<open>2 ^ - 53\<close> in
  the normal range.
\<close>

datatype float64 = Fin rat | PosInf | NegInf | NaN

subsection \<open>Definitions\<close>

fun bits :: "nat \<Rightarrow> nat" where
  "bits n = (if n = 0 then 0 else Suc (bits (n div 2)))"

declare bits.simps [simp del]

text \<open>\<open>\<lfloor>log\<^sub>2 x\<rfloor>\<close> of a positive rational, computed from the lengths of its numerator and
  denominator.\<close>

definition ilog2 :: "rat \<Rightarrow> int" where
  "ilog2 x = (case quotient_of x of (p, q) \<Rightarrow>
     let k = int (bits (nat p)) - int (bits (nat q))
     in if 2 powi k \<le> x then k else k - 1)"

definition round_half_even :: "rat \<Rightarrow> int" where
  "round_half_even x =
     (let f = \<lfloor>x\<rfloor>; d = x - of_int f
      in if d < 1 / 2 then f else if 1 / 2 < d then f + 1 else if even f then f else f + 1)"

text \<open>Exponent of the last place of the binary64 numbers next to \<open>x\<close>.\<close>

definition ulp_exp :: "rat \<Rightarrow> int" where
  "ulp_exp x = max (ilog2 \<bar>x\<bar> - 52) (- 1074)"

definition round53 :: "rat \<Rightarrow> rat" where
  "round53 x =
     (if x = 0 then 0
      else of_int (round_half_even (x / 2 powi ulp_exp x)) * 2 powi ulp_exp x)"

definition fl :: "rat \<Rightarrow> float64" where
  "fl x = (let r = round53 x
           in if r \<ge> 2 ^ 1024 then PosInf else if r \<le> - (2 ^ 1024) then NegInf else Fin r)"

text \<open>\<open>float64(i)\<close> for an integer.\<close>

definition float_of_int :: "int \<Rightarrow> float64" where
  "float_of_int i = fl (of_int i)"

fun fneg :: "float64 \<Rightarrow> float64" where
  "fneg (Fin x) = Fin (- x)"
| "fneg PosInf = NegInf"
| "fneg NegInf = PosInf"
| "fneg NaN = NaN"

fun fadd :: "float64 \<Rightarrow> float64 \<Rightarrow> float64" where
  "fadd (Fin x) (Fin y) = fl (x + y)"
| "fadd NaN _ = NaN"
| "fadd _ NaN = NaN"
| "fadd PosInf NegInf = NaN"
| "fadd NegInf PosInf = NaN"
| "fadd PosInf _ = PosInf"
| "fadd NegInf _ = NegInf"
| "fadd _ y = y"

definition fsub :: "float64 \<Rightarrow> float64 \<Rightarrow> float64" where
  "fsub x y = fadd x (fneg y)"

definition inf_of_sign :: "rat \<Rightarrow> float64" where
  "inf_of_sign s = (if s = 0 then NaN else if 0 < s then PosInf else NegInf)"

fun fsign :: "float64 \<Rightarrow> rat" where
  "fsign (Fin x) = sgn x"
| "fsign PosInf = 1"
| "fsign NegInf = - 1"
| "fsign NaN = 0"

fun fmul :: "float64 \<Rightarrow> float64 \<Rightarrow> float64" where
  "fmul (Fin x) (Fin y) = fl (x * y)"
| "fmul NaN _ = NaN"
| "fmul _ NaN = NaN"
| "fmul x y = inf_of_sign (fsign x * fsign y)"

fun fdiv :: "float64 \<Rightarrow> float64 \<Rightarrow> float64" where
  "fdiv (Fin x) (Fin y) = (if y = 0 then inf_of_sign (sgn x) else fl (x / y))"
| "fdiv NaN _ = NaN"
| "fdiv _ NaN = NaN"
| "fdiv (Fin _) _ = Fin 0"
| "fdiv x (Fin y) = (if y = 0 then x else inf_of_sign (fsign x * sgn y))"
| "fdiv _ _ = NaN"

text \<open>\<open>math.Ceil\<close>: exact, since a finite binary64 that is not an integer is below \<open>2 ^ 52\<close>.\<close>

fun fceil :: "float64 \<Rightarrow> float64" where
  "fceil (Fin x) = Fin (of_int \<lceil>x\<rceil>)"
| "fceil x = x"

text \<open>\<open>int(f)\<close>: truncation; \<open>None\<close> where the language leaves the result to the
  implementation (NaN, an infinity, a value outside the 64-bit range).\<close>

fun int_of_float :: "float64 \<Rightarrow> int option" where
  "int_of_float (Fin x) =
     (let i = (if 0 \<le> x then \<lfloor>x\<rfloor> else \<lceil>x\<rceil>)
      in if - (2 ^ 63) \<le> i \<and> i < 2 ^ 63 then Some i else None)"
| "int_of_float _ = None"

fun is_finite :: "float64 \<Rightarrow> bool" where
  "is_finite (Fin _) = True"
| "is_finite _ = False"

subsection \<open>Rounding\<close>

lemma bits_bounds: "0 < n \<Longrightarrow> 2 ^ (bits n - 1) \<le> n \<and> n < 2 ^ bits n \<and> 0 < bits n"
proof (induction n rule: bits.induct)
  case (1 n)
  show ?case
  proof (cases "n div 2 = 0")
    case True
    with "1.prems" have "n = 1" by (cases n) (auto simp: div_eq_0_iff)
    then show ?thesis by (simp add: bits.simps)
  next
    case False
    with "1.IH" "1.prems" have
      "2 ^ (bits (n div 2) - 1) \<le> n div 2" "n div 2 < 2 ^ bits (n div 2)" "0 < bits (n div 2)"
      by auto
    moreover have "bits n = Suc (bits (n div 2))"
      using "1.prems" by (simp add: bits.simps [of n])
    ultimately show ?thesis
      by (cases "bits (n div 2)") auto
  qed
qed

lemma powi_le_iff: "2 powi a \<le> (2 :: rat) powi b \<longleftrightarrow> a \<le> b"
  by (metis linorder_not_le one_less_numeral_iff order_le_less power_int_strict_increasing semiring_norm(76))

lemma powi_nonzero [simp]: "(2 :: rat) powi k \<noteq> 0"
  by simp

lemma powi_pos [simp]: "0 < (2 :: rat) powi k"
  by simp

lemma bits_bounds_rat:
  assumes "0 < p"
  shows "(2 :: rat) ^ (bits (nat p) - 1) \<le> of_int p" "of_int p < (2 :: rat) ^ bits (nat p)"
    "0 < bits (nat p)"
proof -
  have n: "2 ^ (bits (nat p) - 1) \<le> nat p" "nat p < 2 ^ bits (nat p)" "0 < bits (nat p)"
    using bits_bounds [of "nat p"] assms by auto
  have p: "(of_int p :: rat) = of_nat (nat p)" using assms by simp
  show "(2 :: rat) ^ (bits (nat p) - 1) \<le> of_int p"
    unfolding p using n(1) by (metis of_nat_le_iff of_nat_numeral of_nat_power)
  show "of_int p < (2 :: rat) ^ bits (nat p)"
    unfolding p using n(2) by (metis of_nat_less_iff of_nat_numeral of_nat_power)
  show "0 < bits (nat p)" by (rule n(3))
qed

lemma ilog2_bounds:
  assumes "0 < x"
  shows "2 powi ilog2 x \<le> x" "x < 2 powi (ilog2 x + 1)"
proof -
  obtain p q where pq: "quotient_of x = (p, q)" by force
  have x: "x = of_int p / of_int q" and q: "0 < q"
    using quotient_of_div [OF pq] quotient_of_denom_pos [OF pq] by auto
  with assms have p: "0 < p" by (simp add: zero_less_divide_iff)
  define a where "a = bits (nat p)"
  define b where "b = bits (nat q)"
  note pa = bits_bounds_rat [OF p, folded a_def] and qb = bits_bounds_rat [OF q, folded b_def]
  define k where "k = int a - int b"
  have up: "x < 2 powi (k + 1)"
  proof -
    have "x < 2 ^ a / 2 ^ (b - 1)"
      unfolding x using pa qb p q by (intro frac_less) auto
    also have "\<dots> = 2 powi (k + 1)"
      using qb(3) by (simp add: k_def power_int_diff power_int_add of_nat_diff flip: power_int_of_nat)
    finally show ?thesis .
  qed
  have lo: "2 powi (k - 1) < x"
  proof -
    have "2 powi (k - 1) = (2 :: rat) ^ (a - 1) / 2 ^ b"
      using pa(3) by (simp add: k_def power_int_diff power_int_add of_nat_diff flip: power_int_of_nat)
    also have "\<dots> < x"
      unfolding x using pa qb q p by (intro frac_less2) auto
    finally show ?thesis .
  qed
  have "ilog2 x = (if 2 powi k \<le> x then k else k - 1)"
    by (simp add: ilog2_def pq k_def a_def b_def Let_def)
  then show "2 powi ilog2 x \<le> x" "x < 2 powi (ilog2 x + 1)"
    using up lo by (auto simp: not_le)
qed

lemma round_half_even_of_int [simp]: "round_half_even (of_int n) = n"
  by (simp add: round_half_even_def)

lemma round_half_even_error: "\<bar>of_int (round_half_even x) - x\<bar> \<le> 1 / 2"
proof -
  have "0 \<le> x - of_int \<lfloor>x\<rfloor>" "x - of_int \<lfloor>x\<rfloor> < 1" by linarith+
  then show ?thesis by (auto simp: round_half_even_def Let_def)
qed

lemma round_half_even_nonneg: "0 \<le> x \<Longrightarrow> 0 \<le> round_half_even x"
  by (auto simp: round_half_even_def Let_def)

lemma round53_zero [simp]: "round53 0 = 0"
  by (simp add: round53_def)

lemma round53_nonneg: "0 \<le> x \<Longrightarrow> 0 \<le> round53 x"
  by (auto simp: round53_def intro!: mult_nonneg_nonneg round_half_even_nonneg)

text \<open>A multiple of its own unit in the last place is not changed.\<close>

lemma round53_exact:
  assumes "x = of_int m * 2 powi ulp_exp x"
  shows "round53 x = x"
proof (cases "x = 0")
  case False
  have "x / 2 powi ulp_exp x = of_int m"
    by (subst assms) simp
  with False assms show ?thesis by (simp add: round53_def)
qed simp

lemma ulp_exp_le_int:
  assumes "n \<noteq> 0" and "\<bar>n\<bar> < 2 ^ 53"
  shows "ulp_exp (of_int n) \<le> 0"
proof -
  have pos: "(0 :: rat) < \<bar>of_int n\<bar>" using assms by simp
  have "\<bar>of_int n :: rat\<bar> < 2 powi 53"
    using assms(2) by (simp flip: of_int_abs)
  with ilog2_bounds(1) [OF pos] have "(2 :: rat) powi ilog2 \<bar>of_int n\<bar> < 2 powi 53"
    by linarith
  then have "ilog2 \<bar>of_int n :: rat\<bar> < 53"
    using powi_le_iff by (meson linorder_not_le)
  then show ?thesis by (simp add: ulp_exp_def)
qed

lemma round53_of_int:
  assumes "\<bar>n\<bar> < 2 ^ 53"
  shows "round53 (of_int n) = of_int n"
proof (cases "n = 0")
  case False
  define e where "e = nat (- ulp_exp (of_int n))"
  have e: "ulp_exp (of_int n) = - int e"
    using ulp_exp_le_int [OF False assms] by (simp add: e_def)
  show ?thesis
  proof (rule round53_exact [of _ "n * 2 ^ e"])
    show "of_int n = (of_int (n * 2 ^ e) :: rat) * 2 powi ulp_exp (of_int n)"
      unfolding e by (simp add: power_int_minus field_simps flip: power_int_of_nat)
  qed
qed simp

lemma round53_error:
  assumes "2 powi (- 1022) \<le> \<bar>x\<bar>"
  shows "\<bar>round53 x - x\<bar> \<le> \<bar>x\<bar> * 2 powi (- 53)"
proof -
  have "x \<noteq> 0" using assms by (auto simp: power_int_minus)
  then have pos: "0 < \<bar>x\<bar>" by simp
  define e where "e = ulp_exp x"
  have "(2 :: rat) powi (- 1022) < 2 powi (ilog2 \<bar>x\<bar> + 1)"
    using assms ilog2_bounds(2) [OF pos] by linarith
  then have "- 1022 \<le> ilog2 \<bar>x\<bar>"
    using powi_le_iff [of "ilog2 \<bar>x\<bar> + 1" "- 1022"] by linarith
  then have e: "e = ilog2 \<bar>x\<bar> - 52" by (simp add: e_def ulp_exp_def)
  define y where "y = x / 2 powi e"
  have "\<bar>round53 x - x\<bar> = \<bar>(of_int (round_half_even y) - y) * 2 powi e\<bar>"
    using \<open>x \<noteq> 0\<close> by (simp add: round53_def y_def e_def left_diff_distrib)
  also have "\<dots> = \<bar>of_int (round_half_even y) - y\<bar> * 2 powi e"
    by (simp add: abs_mult)
  also have "\<dots> \<le> 1 / 2 * 2 powi e"
    by (intro mult_right_mono round_half_even_error) simp
  also have "\<dots> = 2 powi (e - 1)"
    using power_int_add_1 [of "2 :: rat" "e - 1"] by simp
  also have "\<dots> = 2 powi (ilog2 \<bar>x\<bar> + - 53)" by (simp add: e)
  also have "\<dots> = 2 powi ilog2 \<bar>x\<bar> * 2 powi (- 53)"
    by (rule power_int_add) simp
  also have "\<dots> \<le> \<bar>x\<bar> * 2 powi (- 53)"
    using ilog2_bounds(1) [OF pos] by (intro mult_right_mono) auto
  finally show ?thesis .
qed

lemma fl_of_int [simp]:
  assumes "\<bar>n\<bar> < 2 ^ 53"
  shows "fl (of_int n) = Fin (of_int n)"
proof -
  have "\<bar>of_int n :: rat\<bar> < 2 ^ 53"
    using assms by (metis of_int_abs of_int_less_iff of_int_numeral of_int_power)
  also have "(2 :: rat) ^ 53 \<le> 2 ^ 1024" by (rule power_increasing) auto
  finally have "\<bar>of_int n :: rat\<bar> < 2 ^ 1024" .
  then show ?thesis by (simp add: fl_def round53_of_int [OF assms] abs_less_iff Let_def)
qed

lemma fl_zero [simp]: "fl 0 = Fin 0"
  by (simp add: fl_def Let_def not_le)

lemma float_of_int_exact [simp]: "\<bar>n\<bar> < 2 ^ 53 \<Longrightarrow> float_of_int n = Fin (of_int n)"
  by (simp add: float_of_int_def)

text \<open>Arithmetic on integral amounts is exact as long as the result stays below \<open>2 ^ 53\<close>.\<close>

lemma fadd_of_int: "\<bar>a + b\<bar> < 2 ^ 53 \<Longrightarrow> fadd (Fin (of_int a)) (Fin (of_int b)) = Fin (of_int (a + b))"
  using fl_of_int [of "a + b"] by simp

lemma fsub_of_int: "\<bar>a - b\<bar> < 2 ^ 53 \<Longrightarrow> fsub (Fin (of_int a)) (Fin (of_int b)) = Fin (of_int (a - b))"
  using fl_of_int [of "a - b"] by (simp add: fsub_def)

lemma fmul_of_int: "\<bar>a * b\<bar> < 2 ^ 53 \<Longrightarrow> fmul (Fin (of_int a)) (Fin (of_int b)) = Fin (of_int (a * b))"
  using fl_of_int [of "a * b"] by simp

text \<open>Values that are not negative (the infinity included): closed under sum and product.\<close>

fun fnonneg :: "float64 \<Rightarrow> bool" where
  "fnonneg (Fin x) = (0 \<le> x)"
| "fnonneg PosInf = True"
| "fnonneg NegInf = False"
| "fnonneg NaN = False"

lemma fl_nonneg: "0 \<le> x \<Longrightarrow> fnonneg (fl x)"
proof -
  assume "0 \<le> x"
  then have "0 \<le> round53 x" by (rule round53_nonneg)
  moreover have "(0 :: rat) < 2 ^ 1024" by (rule zero_less_power) simp
  ultimately show ?thesis by (simp add: fl_def Let_def)
qed

lemma fadd_nonneg: "fnonneg x \<Longrightarrow> fnonneg y \<Longrightarrow> fnonneg (fadd x y)"
  by (cases x; cases y) (auto intro: fl_nonneg)

text \<open>
  The quotient of two integers below \<open>2 ^ 53\<close> is rounded without crossing an integer, so
  its ceiling is the integer ceiling.
\<close>

lemma ceiling_round53_quotient:
  assumes a: "0 \<le> a" "a < 2 ^ 53" and b: "0 < b" "b < 2 ^ 53"
  shows "\<lceil>round53 (of_int a / of_int b)\<rceil> = \<lceil>of_int a / (of_int b :: rat)\<rceil>"
proof (cases "a = 0")
  case False
  define x where "x = (of_int a / of_int b :: rat)"
  define n where "n = \<lceil>x\<rceil>"
  have rb: "(0 :: rat) < of_int b" using b by simp
  have x0: "0 < x" using a False rb by (simp add: x_def)
  have "2 powi (- 1022) \<le> (2 :: rat) powi (- 53)"
    by (simp only: powi_le_iff)
  also have "\<dots> \<le> 1 / of_int b"
  proof -
    have "of_int b \<le> (2 :: rat) ^ 53"
      using b(2) by (metis less_imp_le of_int_le_iff of_int_numeral of_int_power)
    then show ?thesis using rb by (simp add: power_int_minus field_simps)
  qed
  also have "\<dots> \<le> x" using a False rb by (simp add: x_def divide_right_mono)
  finally have err: "\<bar>round53 x - x\<bar> \<le> x * 2 powi (- 53)"
    using round53_error [of x] x0 by simp
  have "of_int a < (2 :: rat) ^ 53"
    using a(2) by (metis of_int_less_iff of_int_numeral of_int_power)
  then have "x * 2 powi (- 53) < 1 / of_int b"
    using rb by (simp add: x_def power_int_minus field_simps)
  with err have close: "\<bar>round53 x - x\<bar> < 1 / of_int b" by linarith
  have "of_int (n - 1) < x" and "x \<le> of_int n"
    unfolding n_def by linarith+
  then have "of_int (n - 1) * (of_int b :: rat) < of_int a"
    using rb by (simp add: x_def pos_less_divide_eq)
  then have "(n - 1) * b + 1 \<le> a"
    by (metis of_int_less_iff of_int_mult zless_imp_add1_zle)
  then have "of_int ((n - 1) * b + 1) \<le> (of_int a :: rat)" by (simp only: of_int_le_iff)
  then have "of_int ((n - 1) * b + 1) / of_int b \<le> x"
    using rb by (simp add: x_def divide_right_mono)
  then have "of_int (n - 1) + 1 / of_int b \<le> x"
    using rb by (simp add: add_divide_distrib)
  with close have low: "of_int (n - 1) < round53 x" by linarith
  have high: "round53 x \<le> of_int n"
  proof (cases "x = of_int n")
    case True
    have "n * 1 \<le> n * b" using x0 True b(1) by (intro mult_left_mono) auto
    moreover have "n * b = a" using True rb by (simp add: x_def field_simps flip: of_int_mult)
    ultimately have "\<bar>n\<bar> < 2 ^ 53" using a x0 True by simp
    then show ?thesis using True round53_of_int by simp
  next
    case False
    with \<open>x \<le> of_int n\<close> have "x < of_int n" by simp
    then have "of_int a < (of_int (n * b) :: rat)"
      using rb by (simp add: x_def pos_divide_less_eq)
    then have "of_int (a + 1) \<le> (of_int (n * b) :: rat)"
      by (simp only: of_int_less_iff of_int_le_iff zless_imp_add1_zle)
    then have "of_int (a + 1) / of_int b \<le> (of_int n :: rat)"
      using rb by (simp add: pos_divide_le_eq)
    then have "x + 1 / of_int b \<le> of_int n"
      using rb by (simp add: x_def add_divide_distrib)
    with close show ?thesis by linarith
  qed
  from low high have "\<lceil>round53 x\<rceil> = n" by (intro ceiling_unique) auto
  then show ?thesis by (simp add: n_def x_def)
qed simp

lemma round53_quotient_finite:
  assumes a: "0 \<le> a" "a < 2 ^ 53" and b: "0 < b" "b < 2 ^ 53"
  shows "fl (of_int a / of_int b) = Fin (round53 (of_int a / of_int b))"
proof -
  define x where "x = (of_int a / of_int b :: rat)"
  have "of_int a \<le> (of_int a * of_int b :: rat)"
    using a b by (simp add: mult_le_cancel_left1)
  then have "x \<le> of_int a" using b by (simp add: x_def pos_divide_le_eq)
  then have "\<lceil>round53 x\<rceil> \<le> a"
    unfolding x_def ceiling_round53_quotient [OF a b] by (simp add: ceiling_le_iff)
  then have "round53 x \<le> of_int a" by (simp add: ceiling_le_iff)
  also have "of_int a < (2 :: rat) ^ 53"
    using a(2) by (metis of_int_less_iff of_int_numeral of_int_power)
  also have "(2 :: rat) ^ 53 \<le> 2 ^ 1024" by (rule power_increasing) auto
  finally have "round53 x < 2 ^ 1024" .
  moreover have "0 \<le> round53 x" using a b by (intro round53_nonneg) (simp add: x_def)
  moreover have "- (2 ^ 1024) < (0 :: rat)" by simp
  ultimately show ?thesis by (simp add: fl_def x_def Let_def)
qed

end
