(* ===== verification/Go_Json.thy ===== *)
theory Go_Json
  imports Go_Float
begin

text \<open>
  Go's \<open>encoding/json\<close> at the level of JSON values. A text is represented by the value it
  parses to; \<open>None\<close> in \<open>json_text\<close> is a text that is no JSON (the empty string that a
  failed \<open>json.Marshal\<close> leaves, for example). Struct decoding follows \<open>Unmarshal\<close>: the
  members are taken in order, a member goes to the field with exactly its name and otherwise
  to the first field whose name agrees up to letter case, members of no field are ignored,
  \<open>null\<close> leaves a scalar field alone, fields without a member keep the value they have, and
  a value of the wrong kind makes the call return an error.
\<close>

text \<open>
  A number token is \<open>JInt\<close> when it has neither fraction nor exponent; any other number
  token is represented by the \<open>float64\<close> that \<open>strconv.ParseFloat\<close> reads it as. \<open>JTime\<close>
  is a string token holding the RFC 3339 text of an instant, \<open>JStr\<close> any other string token.
\<close>

datatype json =
    JNull
  | JBool bool
  | JInt int
  | JDec float64
  | JStr string
  | JTime int
  | JArr "json list"
  | JObj "(string \<times> json) list"

type_synonym json_text = "json option"

type_synonym 'a decoder = "'a \<Rightarrow> json \<Rightarrow> 'a option"

subsection \<open>The text of an instant\<close>

text \<open>The civil date of a time in nanoseconds since 1970, and its texts in UTC.\<close>

definition digits :: "nat \<Rightarrow> int \<Rightarrow> string" where
  "digits n i = map (\<lambda>k. char_of (48 + nat (i div 10 ^ k mod 10))) (rev [0 ..< n])"

definition civil :: "int \<Rightarrow> int \<times> int \<times> int" where
  "civil days =
     (let z = days + 719468; era = z div 146097; doe = z mod 146097;
          yoe = (doe - doe div 1460 + doe div 36524 - doe div 146096) div 365;
          doy = doe - (365 * yoe + yoe div 4 - yoe div 100);
          mp = (5 * doy + 2) div 153;
          m = (if mp < 10 then mp + 3 else mp - 9)
      in (yoe + era * 400 + (if m \<le> 2 then 1 else 0), m, doy - (153 * mp + 2) div 5 + 1))"

definition seconds_text :: "int \<Rightarrow> string" where
  "seconds_text t =
     (let s = t div 1000000000; (y, m, d) = civil (s div 86400); r = s mod 86400
      in digits 4 y @ ''-'' @ digits 2 m @ ''-'' @ digits 2 d @ ''T'' @
         digits 2 (r div 3600) @ '':'' @ digits 2 (r div 60 mod 60) @ '':'' @ digits 2 (r mod 60))"

text \<open>The layouts \<open>time.RFC3339\<close> and \<open>time.RFC3339Nano\<close>; the second is the JSON form of a \<open>time.Time\<close>.\<close>

definition rfc3339_text :: "int \<Rightarrow> string" where
  "rfc3339_text t = seconds_text t @ ''Z''"

definition rfc3339_nano_text :: "int \<Rightarrow> string" where
  "rfc3339_nano_text t =
     (let frac = rev (dropWhile (\<lambda>c. c = CHR ''0'') (rev (digits 9 (t mod 1000000000))))
      in seconds_text t @ (if frac = [] then [] else ''.'' @ frac) @ ''Z'')"

subsection \<open>Decoding\<close>

definition int64_ok :: "int \<Rightarrow> bool" where
  "int64_ok i \<longleftrightarrow> - (2 ^ 63) \<le> i \<and> i < 2 ^ 63"

fun dec_string :: "string decoder" where
  "dec_string cur JNull = Some cur"
| "dec_string cur (JStr s) = Some s"
| "dec_string cur (JTime t) = Some (rfc3339_nano_text t)"
| "dec_string cur _ = None"

fun dec_int :: "int decoder" where
  "dec_int cur JNull = Some cur"
| "dec_int cur (JInt i) = (if int64_ok i then Some i else None)"
| "dec_int cur _ = None"

fun finite_or_error :: "float64 \<Rightarrow> float64 option" where
  "finite_or_error (Fin x) = Some (Fin x)"
| "finite_or_error _ = None"

fun dec_float :: "float64 decoder" where
  "dec_float cur JNull = Some cur"
| "dec_float cur (JInt i) = finite_or_error (float_of_int i)"
| "dec_float cur (JDec f) = finite_or_error f"
| "dec_float cur _ = None"

fun dec_time :: "int decoder" where
  "dec_time cur JNull = Some cur"
| "dec_time cur (JTime t) = Some t"
| "dec_time cur _ = None"

fun dec_any :: "json decoder" where
  "dec_any cur v = Some v"

fun dec_elems :: "'a decoder \<Rightarrow> 'a \<Rightarrow> json list \<Rightarrow> 'a list option" where
  "dec_elems d z [] = Some []"
| "dec_elems d z (v # vs) =
     (case d z v of None \<Rightarrow> None
      | Some x \<Rightarrow> map_option ((#) x) (dec_elems d z vs))"

fun dec_slice :: "'a decoder \<Rightarrow> 'a \<Rightarrow> 'a list decoder" where
  "dec_slice d z cur JNull = Some []"
| "dec_slice d z cur (JArr vs) = dec_elems d z vs"
| "dec_slice d z cur _ = None"

text \<open>The key folding of \<open>encoding/json\<close>, on ASCII letters.\<close>

definition fold_char :: "char \<Rightarrow> nat" where
  "fold_char c = (let n = of_char c in if 65 \<le> n \<and> n \<le> 90 then n + 32 else n)"

definition fold_key :: "string \<Rightarrow> nat list" where
  "fold_key s = map fold_char s"

definition field_for :: "string \<Rightarrow> (string \<times> 'd) list \<Rightarrow> 'd option" where
  "field_for k fs =
     (case map_of fs k of
        Some d \<Rightarrow> Some d
      | None \<Rightarrow> map_option snd (find (\<lambda>(n, _). fold_key n = fold_key k) fs))"

fun dec_members :: "(string \<times> 'a decoder) list \<Rightarrow> 'a \<Rightarrow> (string \<times> json) list \<Rightarrow> 'a option" where
  "dec_members fs cur [] = Some cur"
| "dec_members fs cur ((k, v) # kvs) =
     (case field_for k fs of
        None \<Rightarrow> dec_members fs cur kvs
      | Some d \<Rightarrow> (case d cur v of None \<Rightarrow> None | Some cur' \<Rightarrow> dec_members fs cur' kvs))"

fun dec_struct :: "(string \<times> 'a decoder) list \<Rightarrow> 'a decoder" where
  "dec_struct fs cur JNull = Some cur"
| "dec_struct fs cur (JObj kvs) = dec_members fs cur kvs"
| "dec_struct fs cur _ = None"

text \<open>
  What \<open>Unmarshal\<close> leaves in its destination when the caller ignores the error: a member
  that does not fit its field is skipped.
\<close>

fun fill_members :: "(string \<times> 'a decoder) list \<Rightarrow> 'a \<Rightarrow> (string \<times> json) list \<Rightarrow> 'a" where
  "fill_members fs cur [] = cur"
| "fill_members fs cur ((k, v) # kvs) =
     (case field_for k fs of
        None \<Rightarrow> fill_members fs cur kvs
      | Some d \<Rightarrow> fill_members fs (case d cur v of None \<Rightarrow> cur | Some cur' \<Rightarrow> cur') kvs)"

fun fill_struct :: "(string \<times> 'a decoder) list \<Rightarrow> 'a \<Rightarrow> json \<Rightarrow> 'a" where
  "fill_struct fs cur (JObj kvs) = fill_members fs cur kvs"
| "fill_struct fs cur _ = cur"

text \<open>A field of a struct: its selector and record update, and the decoder of its type.\<close>

definition fld :: "('a \<Rightarrow> 'f) \<Rightarrow> (('f \<Rightarrow> 'f) \<Rightarrow> 'a \<Rightarrow> 'a) \<Rightarrow> 'f decoder \<Rightarrow> 'a decoder" where
  "fld sel upd d cur v = map_option (\<lambda>x. upd (\<lambda>_. x) cur) (d (sel cur) v)"

text \<open>\<open>json.Unmarshal([]byte(text), &dest)\<close> with \<open>dest\<close> at its zero value.\<close>

definition unmarshal :: "'a decoder \<Rightarrow> 'a \<Rightarrow> json_text \<Rightarrow> 'a option" where
  "unmarshal d zero t = (case t of None \<Rightarrow> None | Some j \<Rightarrow> d zero j)"

subsection \<open>Encoding\<close>

text \<open>
  \<open>json.Marshal\<close> of a \<open>float64\<close>: an infinity or a NaN is an error; an integral value below
  \<open>10 ^ 21\<close> is printed without fraction and exponent. Below \<open>2 ^ 53\<close> these are the digits of the
  integer; from there on \<open>strconv.FormatFloat\<close> prints the fewest digits that read back as the
  same \<open>float64\<close>, padded with zeros: the greatest power of ten of which a multiple next to the
  value reads back as it, the nearer of two such multiples, the even one of two equally near.
\<close>

fun shortest_int :: "int \<Rightarrow> nat \<Rightarrow> int \<Rightarrow> int" where
  "shortest_int s 0 n = n"
| "shortest_int s (Suc z) n =
     (let b = 10 ^ Suc z; lo = n div b * b; hi = lo + b;
          down = (float_of_int (s * lo) = Fin (of_int (s * n)));
          up = (float_of_int (s * hi) = Fin (of_int (s * n)))
      in if down \<and> up then (if 2 * (n - lo) < b \<or> 2 * (n - lo) = b \<and> even (n div b) then lo else hi)
         else if down then lo else if up then hi else shortest_int s z n)"

definition whole_digits :: "int \<Rightarrow> int" where
  "whole_digits i = (if \<bar>i\<bar> < 2 ^ 53 then i else sgn i * shortest_int (sgn i) 21 \<bar>i\<bar>)"

fun enc_float :: "float64 \<Rightarrow> json option" where
  "enc_float (Fin x) =
     Some (if x = of_int \<lfloor>x\<rfloor> \<and> \<bar>x\<bar> < 10 ^ 21 then JInt (whole_digits \<lfloor>x\<rfloor>) else JDec (Fin x))"
| "enc_float _ = None"

text \<open>Members of an object; a member that cannot be encoded fails the whole object.\<close>

fun enc_members :: "(string \<times> json option) list \<Rightarrow> (string \<times> json) list option" where
  "enc_members [] = Some []"
| "enc_members ((k, None) # kvs) = None"
| "enc_members ((k, Some v) # kvs) = map_option ((#) (k, v)) (enc_members kvs)"

definition enc_object :: "(string \<times> json option) list \<Rightarrow> json option" where
  "enc_object kvs = map_option JObj (enc_members kvs)"

fun enc_list :: "('a \<Rightarrow> json option) \<Rightarrow> 'a list \<Rightarrow> json list option" where
  "enc_list f [] = Some []"
| "enc_list f (x # xs) =
     (case f x of None \<Rightarrow> None | Some v \<Rightarrow> map_option ((#) v) (enc_list f xs))"

text \<open>A member of a decoded \<open>map[string]interface{}\<close>: the last one of that name.\<close>

fun obj_get :: "string \<Rightarrow> json \<Rightarrow> json option" where
  "obj_get k (JObj kvs) = map_of (rev kvs) k"
| "obj_get k _ = None"

subsection \<open>Round trips of the building blocks\<close>

text \<open>A finite value of the type \<open>float64\<close>: rounding leaves it alone.\<close>

fun finite64 :: "float64 \<Rightarrow> bool" where
  "finite64 (Fin x) = (fl x = Fin x)"
| "finite64 _ = False"

text \<open>The digits that are printed read back as the value they were printed for.\<close>

lemma shortest_int_reads_back:
  "float_of_int (s * n) = Fin (of_int (s * n)) \<Longrightarrow> float_of_int (s * shortest_int s z n) = Fin (of_int (s * n))"
  by (induction s z n rule: shortest_int.induct) (auto simp: Let_def)

lemma whole_digits_reads_back:
  assumes "float_of_int i = Fin (of_int i)"
  shows "float_of_int (whole_digits i) = Fin (of_int i)"
  using assms shortest_int_reads_back [of "sgn i" "\<bar>i\<bar>" 21] by (simp add: whole_digits_def sgn_mult_abs)

text \<open>Every finite \<open>float64\<close> is read back as itself.\<close>

lemma finite64_roundtrip:
  assumes "finite64 f"
  shows "\<exists>j. enc_float f = Some j \<and> (\<forall>cur. dec_float cur j = Some f)"
proof (cases f)
  case (Fin x)
  show ?thesis
  proof (cases "x = of_int \<lfloor>x\<rfloor> \<and> \<bar>x\<bar> < 10 ^ 21")
    case True
    then have "float_of_int \<lfloor>x\<rfloor> = Fin (of_int \<lfloor>x\<rfloor>)" using assms Fin by (metis finite64.simps(1) float_of_int_def)
    from whole_digits_reads_back [OF this] True Fin show ?thesis by simp
  next
    case False
    with Fin show ?thesis by auto
  qed
qed (use assms in simp_all)

lemma dec_elems_enc_list:
  assumes "\<And>x. x \<in> set xs \<Longrightarrow> \<exists>v. f x = Some v \<and> d z v = Some x"
  shows "\<exists>vs. enc_list f xs = Some vs \<and> dec_elems d z vs = Some xs"
  using assms
proof (induction xs)
  case (Cons x xs)
  then obtain v vs where "f x = Some v" "d z v = Some x" "enc_list f xs = Some vs"
    "dec_elems d z vs = Some xs"
    by (metis list.set_intros(1) list.set_intros(2))
  then show ?case by simp
qed simp

lemma fill_members_dec: "dec_members fs cur kvs = Some x \<Longrightarrow> fill_members fs cur kvs = x"
  by (induction fs cur kvs rule: dec_members.induct) (auto split: option.splits)

lemma field_for_None: "fold_key k \<notin> fold_key ` fst ` set fs \<Longrightarrow> field_for k fs = None"
proof -
  assume fresh: "fold_key k \<notin> fold_key ` fst ` set fs"
  then have "map_of fs k = None" by (auto simp: map_of_eq_None_iff)
  moreover have "find (\<lambda>(n, _). fold_key n = fold_key k) fs = None"
    unfolding find_None_iff using fresh by (force simp: image_iff)
  ultimately show ?thesis by (simp add: field_for_def)
qed

text \<open>Members that belong to no field change nothing, wherever they stand.\<close>

lemma dec_members_ignored:
  "(\<And>k. k \<in> fst ` set kvs \<Longrightarrow> field_for k fs = None) \<Longrightarrow> dec_members fs cur kvs = Some cur"
  by (induction kvs arbitrary: cur) (auto simp: image_iff)

end
