(* ===== verification/Platform.thy ===== *)
theory Platform
  imports Go_Json
begin

text \<open>
  The platform below the services: Go integers, the environment a service runs in and the
  world it changes. Nothing here is invented behaviour of a library: what the sources cannot
  determine is a component of the environment (the values \<open>uuid.New\<close> and \<open>time.Now\<close>
  return, which round trips to PostgreSQL, Redis and Kafka fail and how, what other clients of
  the database commit in between, how PostgreSQL converts a literal to a column type, in which
  order a query returns rows that its \<open>ORDER BY\<close> does not tell apart), and
  every theorem is about all environments, or about those that satisfy a named hypothesis.

  A transaction is the list of statements it has executed. A statement of a transaction runs
  on the committed state with the transaction's own statements applied; \<open>Commit\<close> applies the
  whole list to the state committed at that moment or nothing at all. After a failed
  statement the transaction is aborted: further statements and \<open>Commit\<close> fail.
\<close>

subsection \<open>Go integers\<close>

text \<open>\<open>int\<close> and \<open>int64\<close> arithmetic wraps around at 64 bits.\<close>

definition wrap64 :: "int \<Rightarrow> int" where
  "wrap64 i = (i + 2 ^ 63) mod 2 ^ 64 - 2 ^ 63"

lemma wrap64_id [simp]: "int64_ok i \<Longrightarrow> wrap64 i = i"
  by (simp add: wrap64_def int64_ok_def)

lemma wrap64_range: "int64_ok (wrap64 i)"
proof -
  have "0 \<le> (i + 2 ^ 63) mod 2 ^ 64" "(i + 2 ^ 63) mod 2 ^ 64 < 2 ^ 64" by simp_all
  then show ?thesis by (simp add: wrap64_def int64_ok_def)
qed

subsection \<open>Client library types\<close>

text \<open>\<open>kafka.Message\<close>, with the fields the sources use.\<close>

record Message =
  m_topic :: string
  m_key :: string
  m_value :: json_text
  m_headers :: "(string \<times> string) list"
  m_offset :: int

subsection \<open>The environment\<close>

text \<open>
  A round trip fails either before the server acted on the request or after it did, when only
  the reply is lost; the client cannot tell which.
\<close>

datatype fault = Lost string | Applied string

text \<open>
  PostgreSQL's conversion of a literal to the type of a column and back: \<open>None\<close> when the
  server rejects the literal, otherwise the value a later \<open>SELECT\<close> returns.
\<close>

record pg_types =
  pg_uuid :: "string \<Rightarrow> string option"
  pg_varchar :: "nat \<Rightarrow> string \<Rightarrow> string option"
  pg_char :: "nat \<Rightarrow> string \<Rightarrow> string option"
  pg_decimal :: "float64 \<Rightarrow> float64 option"
  pg_timestamptz :: "int \<Rightarrow> int"
  pg_jsonb :: "json \<Rightarrow> json option"

record 'db env =
  e_uuid :: "nat \<Rightarrow> string"
  e_now :: "nat \<Rightarrow> int"
  e_fault :: "nat \<Rightarrow> fault option"
  e_others :: "nat \<Rightarrow> 'db \<Rightarrow> 'db"
  e_done :: "nat \<Rightarrow> bool"
  e_writer_ok :: "string \<Rightarrow> string \<Rightarrow> bool"
  e_trace :: "nat \<Rightarrow> (string \<times> string) list"
  e_rank :: "nat \<Rightarrow> string \<Rightarrow> int"
  e_pg :: pg_types

subsection \<open>The world\<close>

text \<open>A statement: the error the server reports, or the new state and the result.\<close>

type_synonym ('db, 'r) stmt = "'db \<Rightarrow> ('db \<times> 'r) result"

record 'db tx =
  tx_log :: "('db \<Rightarrow> 'db option) list"
  tx_aborted :: bool

record 'db world =
  w_tick :: nat
  w_db :: 'db
  w_txs :: "nat \<Rightarrow> 'db tx option"
  w_redis :: "string \<Rightarrow> (json \<times> int) option"
  w_sent :: "Message list"
  w_metrics :: "string list \<Rightarrow> int"

type_synonym ('db, 'a) io = "('db world, 'a) state"
type_synonym ('db, 'a) ioe = "('db world, 'a) eff"

text \<open>Every interaction with the environment has its own number.\<close>

definition next_tick :: "('db, nat) io" where
  "next_tick = State (\<lambda>w. (w_tick w, w\<lparr>w_tick := Suc (w_tick w)\<rparr>))"

definition new_uuid :: "'db env \<Rightarrow> ('db, string) io" where
  "new_uuid env = do { n \<leftarrow> next_tick; ret (e_uuid env n) }"

definition time_now :: "'db env \<Rightarrow> ('db, int) io" where
  "time_now env = do { n \<leftarrow> next_tick; ret (e_now env n) }"

text \<open>Whether the service's context is done at this point (\<open>ctx.Err() != nil\<close>).\<close>

definition ctx_done :: "'db env \<Rightarrow> ('db, bool) io" where
  "ctx_done env = do { n \<leftarrow> next_tick; ret (e_done env n) }"

text \<open>
  The order, by their ids, in which the server's next answer lists rows that the query itself
  does not order; another query may list them in another order.
\<close>

definition row_order :: "'db env \<Rightarrow> ('db, string \<Rightarrow> int) io" where
  "row_order env = State (\<lambda>w. (e_rank env (w_tick w), w))"

text \<open>A counter or gauge, addressed by its name and label values.\<close>

definition metric_add :: "string list \<Rightarrow> int \<Rightarrow> ('db, unit) io" where
  "metric_add m d = update_world (\<lambda>w. w\<lparr>w_metrics := (w_metrics w)(m := w_metrics w m + d)\<rparr>)"

text \<open>What other clients have committed since the last round trip.\<close>

definition interfere :: "'db env \<Rightarrow> nat \<Rightarrow> ('db, unit) io" where
  "interfere env n = update_world (\<lambda>w. w\<lparr>w_db := e_others env n (w_db w)\<rparr>)"

subsection \<open>Statements outside a transaction\<close>

fun apply_stmt :: "('db, 'r) stmt \<Rightarrow> 'db \<Rightarrow> 'db option" where
  "apply_stmt st d = (case st d of Inl _ \<Rightarrow> None | Inr (d', _) \<Rightarrow> Some d')"

definition or_same :: "'db \<Rightarrow> 'db option \<Rightarrow> 'db" where
  "or_same d r = (case r of None \<Rightarrow> d | Some d' \<Rightarrow> d')"

definition exec_db :: "'db env \<Rightarrow> ('db, 'r) stmt \<Rightarrow> ('db, 'r) ioe" where
  "exec_db env st = do {
     n \<leftarrow> next_tick;
     _ \<leftarrow> interfere env n;
     State (\<lambda>w. case e_fault env n of
         Some (Lost m) \<Rightarrow> (Inl (External m), w)
       | Some (Applied m) \<Rightarrow>
           (Inl (External m), w\<lparr>w_db := or_same (w_db w) (apply_stmt st (w_db w))\<rparr>)
       | None \<Rightarrow> (case st (w_db w) of
             Inl e \<Rightarrow> (Inl e, w)
           | Inr (d, r) \<Rightarrow> (Inr r, w\<lparr>w_db := d\<rparr>)))
   }"

subsection \<open>Transactions\<close>

fun apply_log :: "('db \<Rightarrow> 'db option) list \<Rightarrow> 'db \<Rightarrow> 'db option" where
  "apply_log [] d = Some d"
| "apply_log (f # fs) d = (case f d of None \<Rightarrow> None | Some d' \<Rightarrow> apply_log fs d')"

definition set_tx :: "nat \<Rightarrow> 'db tx option \<Rightarrow> 'db world \<Rightarrow> 'db world" where
  "set_tx h t w = w\<lparr>w_txs := (w_txs w)(h := t)\<rparr>"

definition ErrTxDone :: go_error where
  "ErrTxDone = Sentinel ''sql: transaction has already been committed or rolled back''"

definition ErrTxAborted :: go_error where
  "ErrTxAborted = External ''pq: Could not complete operation in a failed transaction''"

text \<open>\<open>db.BeginTxx(ctx, nil)\<close>: the handle is the number of the round trip.\<close>

definition BeginTxx :: "'db env \<Rightarrow> ('db, nat) ioe" where
  "BeginTxx env = do {
     n \<leftarrow> next_tick;
     _ \<leftarrow> interfere env n;
     State (\<lambda>w. case e_fault env n of
         Some (Lost m) \<Rightarrow> (Inl (External m), w)
       | Some (Applied m) \<Rightarrow> (Inl (External m), w)
       | None \<Rightarrow> (Inr n, set_tx n (Some \<lparr>tx_log = [], tx_aborted = False\<rparr>) w))
   }"

definition exec_tx :: "'db env \<Rightarrow> nat \<Rightarrow> ('db, 'r) stmt \<Rightarrow> ('db, 'r) ioe" where
  "exec_tx env h st = do {
     n \<leftarrow> next_tick;
     _ \<leftarrow> interfere env n;
     State (\<lambda>w. case w_txs w h of
         None \<Rightarrow> (Inl ErrTxDone, w)
       | Some t \<Rightarrow>
          (if tx_aborted t then (Inl ErrTxAborted, w)
           else (case e_fault env n of
              Some (Lost m) \<Rightarrow> (Inl (External m), set_tx h (Some (t\<lparr>tx_aborted := True\<rparr>)) w)
            | Some (Applied m) \<Rightarrow> (Inl (External m), set_tx h (Some (t\<lparr>tx_aborted := True\<rparr>)) w)
            | None \<Rightarrow> (case apply_log (tx_log t) (w_db w) of
                 None \<Rightarrow> (Inl ErrTxAborted, set_tx h (Some (t\<lparr>tx_aborted := True\<rparr>)) w)
               | Some d \<Rightarrow> (case st d of
                    Inl e \<Rightarrow> (Inl e, set_tx h (Some (t\<lparr>tx_aborted := True\<rparr>)) w)
                  | Inr (_, r) \<Rightarrow>
                      (Inr r, set_tx h (Some (t\<lparr>tx_log := tx_log t @ [apply_stmt st]\<rparr>)) w))))))
   }"

definition Commit :: "'db env \<Rightarrow> nat \<Rightarrow> ('db, unit) ioe" where
  "Commit env h = do {
     n \<leftarrow> next_tick;
     _ \<leftarrow> interfere env n;
     State (\<lambda>w. case w_txs w h of
         None \<Rightarrow> (Inl ErrTxDone, w)
       | Some t \<Rightarrow>
          (let w' = set_tx h None w;
               done = or_same (w_db w) (apply_log (tx_log t) (w_db w))
           in if tx_aborted t \<or> apply_log (tx_log t) (w_db w) = None then (Inl ErrTxAborted, w')
              else (case e_fault env n of
                 Some (Lost m) \<Rightarrow> (Inl (External m), w')
               | Some (Applied m) \<Rightarrow> (Inl (External m), w'\<lparr>w_db := done\<rparr>)
               | None \<Rightarrow> (Inr (), w'\<lparr>w_db := done\<rparr>))))
   }"

text \<open>\<open>tx.Rollback()\<close>; its result is discarded by every caller. After a commit it has no effect.\<close>

definition Rollback :: "nat \<Rightarrow> ('db, unit) io" where
  "Rollback h = update_world (set_tx h None)"

text \<open>
  \<open>database.DBExecutor\<close>: the repositories run a statement on the transaction they are given,
  and on the database when the transaction is nil.
\<close>

definition execute :: "'db env \<Rightarrow> nat option \<Rightarrow> ('db, 'r) stmt \<Rightarrow> ('db, 'r) ioe" where
  "execute env tx st = (case tx of None \<Rightarrow> exec_db env st | Some h \<Rightarrow> exec_tx env h st)"

text \<open>\<open>GetContext\<close>: the first row of the result, \<open>sql.ErrNoRows\<close> when there is none.\<close>

definition ErrNoRows :: go_error where
  "ErrNoRows = Sentinel ''sql: no rows in result set''"

fun first_row :: "'r list result \<Rightarrow> 'r result" where
  "first_row (Inl e) = Inl e"
| "first_row (Inr []) = Inl ErrNoRows"
| "first_row (Inr (r # _)) = Inr r"

definition GetContext :: "'db env \<Rightarrow> ('db \<Rightarrow> 'r list result) \<Rightarrow> ('db, 'r) ioe" where
  "GetContext env q =
     exec_db env (\<lambda>d. case first_row (q d) of Inl e \<Rightarrow> Inl e | Inr r \<Rightarrow> Inr (d, r))"

definition SelectContext :: "'db env \<Rightarrow> ('db \<Rightarrow> 'r list result) \<Rightarrow> ('db, 'r list) ioe" where
  "SelectContext env q =
     exec_db env (\<lambda>d. case q d of Inl e \<Rightarrow> Inl e | Inr rs \<Rightarrow> Inr (d, rs))"

subsection \<open>Errors of the server\<close>

definition pq_invalid :: go_error where
  "pq_invalid = External ''pq: invalid input for the column type''"
definition pq_duplicate :: go_error where
  "pq_duplicate = External ''pq: duplicate key value violates unique constraint''"
definition pq_foreign_key :: go_error where
  "pq_foreign_key = External ''pq: insert or update violates foreign key constraint''"
definition pq_negative :: go_error where
  "pq_negative = External ''pq: LIMIT or OFFSET must not be negative''"

text \<open>The range of a PostgreSQL \<open>INT\<close>.\<close>

definition int4_ok :: "int \<Rightarrow> bool" where
  "int4_ok i \<longleftrightarrow> - (2 ^ 31) \<le> i \<and> i < 2 ^ 31"

definition int4 :: "int \<Rightarrow> int option" where
  "int4 i = (if int4_ok i then Some i else None)"

text \<open>\<open>if err == sql.ErrNoRows { return nf }\<close>\<close>

fun not_found_as :: "go_error \<Rightarrow> 'a result \<Rightarrow> 'a result" where
  "not_found_as nf (Inl e) = Inl (if e = ErrNoRows then nf else e)"
| "not_found_as nf (Inr x) = Inr x"

lemmas io_defs = next_tick_def new_uuid_def time_now_def ctx_done_def metric_add_def interfere_def
  exec_db_def BeginTxx_def exec_tx_def Commit_def Rollback_def execute_def GetContext_def
  SelectContext_def

end
