(* ===== verification/Order_Domain.thy ===== *)
theory Order_Domain
  imports Platform
begin

text \<open>
  The order service's domain (\<^verbatim>\<open>internal/order/domain\<close>): the error variables, the order, its
  items and its address with their JSON forms, the outbox event, the total of an order and
  the test whether it can still be cancelled.
\<close>

subsection \<open>Errors (errors.go)\<close>

definition ErrOrderNotFound :: go_error where
  "ErrOrderNotFound = Sentinel ''order not found''"
definition ErrOrderNotCancellable :: go_error where
  "ErrOrderNotCancellable = Sentinel ''order is not cancellable''"
definition ErrInvalidRequest :: go_error where
  "ErrInvalidRequest = Sentinel ''invalid request''"
definition ErrEmptyCart :: go_error where
  "ErrEmptyCart = Sentinel ''order must contain at least one item''"
definition ErrInvalidQuantity :: go_error where
  "ErrInvalidQuantity = Sentinel ''quantity must be greater than 0''"
definition ErrDuplicateIdempotencyKey :: go_error where
  "ErrDuplicateIdempotencyKey = Sentinel ''duplicate idempotency key''"

subsection \<open>Statuses and structs (order.go)\<close>

type_synonym OrderStatus = string

definition StatusPendingPayment :: OrderStatus where "StatusPendingPayment = ''pending_payment''"
definition StatusPaid :: OrderStatus where "StatusPaid = ''paid''"
definition StatusProcessing :: OrderStatus where "StatusProcessing = ''processing''"
definition StatusShipped :: OrderStatus where "StatusShipped = ''shipped''"
definition StatusDelivered :: OrderStatus where "StatusDelivered = ''delivered''"
definition StatusCancelled :: OrderStatus where "StatusCancelled = ''cancelled''"

lemmas status_defs = StatusPendingPayment_def StatusPaid_def StatusProcessing_def
  StatusShipped_def StatusDelivered_def StatusCancelled_def

record Address =
  a_street :: string
  a_city :: string
  a_state :: string
  a_zip :: string
  a_country :: string

record OrderItem =
  oi_id :: string
  oi_order_id :: string
  oi_product_id :: string
  oi_sku :: string
  oi_product_name :: string
  oi_quantity :: int
  oi_unit_price :: float64
  oi_total_price :: float64

record Order =
  o_id :: string
  o_customer_id :: string
  o_status :: OrderStatus
  o_currency :: string
  o_subtotal :: float64
  o_discount_amount :: float64
  o_shipping_fee :: float64
  o_tax_amount :: float64
  o_total_amount :: float64
  o_shipping_address :: Address
  o_items :: "OrderItem list"
  o_idempotency_key :: string
  o_created_at :: int
  o_updated_at :: int

text \<open>
  The outbox event (repository.go). Its two times are carried as text in Go; the model keeps
  the instant the text denotes, in seconds, which is what the RFC 3339 layout preserves.
\<close>

record OutboxEvent =
  ev_id :: string
  ev_aggregate_type :: string
  ev_aggregate_id :: string
  ev_event_type :: string
  ev_payload :: json_text
  ev_status :: string
  ev_created_at :: int

text \<open>\<open>time.Now().Format(time.RFC3339)\<close> of a time in nanoseconds.\<close>

definition rfc3339 :: "int \<Rightarrow> int" where
  "rfc3339 t = t div 1000000000"

subsection \<open>Operations (order.go)\<close>

definition CalculateTotal :: "Order \<Rightarrow> Order" where
  "CalculateTotal ord =
     (let sub = foldl (\<lambda>s item. fadd s (oi_total_price item)) (Fin 0) (o_items ord)
      in ord\<lparr>o_subtotal := sub,
             o_total_amount :=
               fadd (fadd (fsub sub (o_discount_amount ord)) (o_shipping_fee ord)) (o_tax_amount ord)\<rparr>)"

definition CanCancel :: "Order \<Rightarrow> bool" where
  "CanCancel ord \<longleftrightarrow> o_status ord = StatusPendingPayment \<or> o_status ord = StatusPaid"

subsection \<open>JSON forms (the struct tags)\<close>

definition zero_Address :: Address where
  "zero_Address = \<lparr>a_street = '''', a_city = '''', a_state = '''', a_zip = '''', a_country = ''''\<rparr>"

definition zero_OrderItem :: OrderItem where
  "zero_OrderItem = \<lparr>oi_id = '''', oi_order_id = '''', oi_product_id = '''', oi_sku = '''',
     oi_product_name = '''', oi_quantity = 0, oi_unit_price = Fin 0, oi_total_price = Fin 0\<rparr>"

definition zero_Order :: Order where
  "zero_Order = \<lparr>o_id = '''', o_customer_id = '''', o_status = '''', o_currency = '''',
     o_subtotal = Fin 0, o_discount_amount = Fin 0, o_shipping_fee = Fin 0, o_tax_amount = Fin 0,
     o_total_amount = Fin 0, o_shipping_address = zero_Address, o_items = [],
     o_idempotency_key = '''', o_created_at = 0, o_updated_at = 0\<rparr>"

definition enc_Address :: "Address \<Rightarrow> json" where
  "enc_Address a = JObj [(''street'', JStr (a_street a)), (''city'', JStr (a_city a)),
     (''state'', JStr (a_state a)), (''zip'', JStr (a_zip a)), (''country'', JStr (a_country a))]"

definition Address_fields :: "(string \<times> Address decoder) list" where
  "Address_fields =
     [(''street'', fld a_street a_street_update dec_string),
      (''city'', fld a_city a_city_update dec_string),
      (''state'', fld a_state a_state_update dec_string),
      (''zip'', fld a_zip a_zip_update dec_string),
      (''country'', fld a_country a_country_update dec_string)]"

definition dec_Address :: "Address decoder" where
  "dec_Address = dec_struct Address_fields"

definition enc_OrderItem :: "OrderItem \<Rightarrow> json option" where
  "enc_OrderItem i = enc_object
     [(''id'', Some (JStr (oi_id i))), (''order_id'', Some (JStr (oi_order_id i))),
      (''product_id'', Some (JStr (oi_product_id i))), (''sku'', Some (JStr (oi_sku i))),
      (''product_name'', Some (JStr (oi_product_name i))),
      (''quantity'', Some (JInt (oi_quantity i))),
      (''unit_price'', enc_float (oi_unit_price i)), (''total_price'', enc_float (oi_total_price i))]"

definition OrderItem_fields :: "(string \<times> OrderItem decoder) list" where
  "OrderItem_fields =
     [(''id'', fld oi_id oi_id_update dec_string),
      (''order_id'', fld oi_order_id oi_order_id_update dec_string),
      (''product_id'', fld oi_product_id oi_product_id_update dec_string),
      (''sku'', fld oi_sku oi_sku_update dec_string),
      (''product_name'', fld oi_product_name oi_product_name_update dec_string),
      (''quantity'', fld oi_quantity oi_quantity_update dec_int),
      (''unit_price'', fld oi_unit_price oi_unit_price_update dec_float),
      (''total_price'', fld oi_total_price oi_total_price_update dec_float)]"

definition dec_OrderItem :: "OrderItem decoder" where
  "dec_OrderItem = dec_struct OrderItem_fields"

definition enc_items :: "OrderItem list \<Rightarrow> json option" where
  "enc_items is = map_option JArr (enc_list enc_OrderItem is)"

definition dec_items :: "OrderItem list decoder" where
  "dec_items = dec_slice dec_OrderItem zero_OrderItem"

text \<open>\<open>items\<close> and \<open>idempotency_key\<close> are left out when empty (\<open>omitempty\<close>).\<close>

definition enc_Order :: "Order \<Rightarrow> json option" where
  "enc_Order ord = enc_object (
     [(''id'', Some (JStr (o_id ord))), (''customer_id'', Some (JStr (o_customer_id ord))),
      (''status'', Some (JStr (o_status ord))), (''currency'', Some (JStr (o_currency ord))),
      (''subtotal'', enc_float (o_subtotal ord)),
      (''discount_amount'', enc_float (o_discount_amount ord)),
      (''shipping_fee'', enc_float (o_shipping_fee ord)),
      (''tax_amount'', enc_float (o_tax_amount ord)),
      (''total_amount'', enc_float (o_total_amount ord)),
      (''shipping_address'', Some (enc_Address (o_shipping_address ord)))]
     @ (if o_items ord = [] then [] else [(''items'', enc_items (o_items ord))])
     @ (if o_idempotency_key ord = '''' then []
        else [(''idempotency_key'', Some (JStr (o_idempotency_key ord)))])
     @ [(''created_at'', Some (JTime (o_created_at ord))),
        (''updated_at'', Some (JTime (o_updated_at ord)))])"

definition Order_fields :: "(string \<times> Order decoder) list" where
  "Order_fields =
     [(''id'', fld o_id o_id_update dec_string),
      (''customer_id'', fld o_customer_id o_customer_id_update dec_string),
      (''status'', fld o_status o_status_update dec_string),
      (''currency'', fld o_currency o_currency_update dec_string),
      (''subtotal'', fld o_subtotal o_subtotal_update dec_float),
      (''discount_amount'', fld o_discount_amount o_discount_amount_update dec_float),
      (''shipping_fee'', fld o_shipping_fee o_shipping_fee_update dec_float),
      (''tax_amount'', fld o_tax_amount o_tax_amount_update dec_float),
      (''total_amount'', fld o_total_amount o_total_amount_update dec_float),
      (''shipping_address'', fld o_shipping_address o_shipping_address_update dec_Address),
      (''items'', fld o_items o_items_update dec_items),
      (''idempotency_key'', fld o_idempotency_key o_idempotency_key_update dec_string),
      (''created_at'', fld o_created_at o_created_at_update dec_time),
      (''updated_at'', fld o_updated_at o_updated_at_update dec_time)]"

definition dec_Order :: "Order decoder" where
  "dec_Order = dec_struct Order_fields"

subsection \<open>The total of an order\<close>

lemma foldl_fadd_of_int:
  assumes "\<And>i. i \<in> set is \<Longrightarrow> f i = Fin (of_int (p i)) \<and> 0 \<le> p i"
    and "0 \<le> s" and "s + sum_list (map p is) < 2 ^ 53"
  shows "foldl (\<lambda>s i. fadd s (f i)) (Fin (of_int s)) is = Fin (of_int (s + sum_list (map p is)))"
  using assms
proof (induction "is" arbitrary: s)
  case (Cons i "is")
  have pos: "0 \<le> sum_list (map p is)"
    using Cons.prems(1) by (intro sum_list_nonneg) auto
  have "f i = Fin (of_int (p i))" "0 \<le> p i" using Cons.prems(1) by auto
  moreover have "\<bar>s + p i\<bar> < 2 ^ 53" using Cons.prems pos \<open>0 \<le> p i\<close> by simp
  ultimately have step: "fadd (Fin (of_int s)) (f i) = Fin (of_int (s + p i))"
    using fadd_of_int [of s "p i"] by simp
  have "foldl (\<lambda>s i. fadd s (f i)) (Fin (of_int (s + p i))) is =
        Fin (of_int ((s + p i) + sum_list (map p is)))"
    using Cons.prems \<open>0 \<le> p i\<close> by (intro Cons.IH) auto
  with step show ?case by (simp add: add.assoc)
qed simp

lemma foldl_fadd_nonneg:
  "(\<And>i. i \<in> set is \<Longrightarrow> fnonneg (f i)) \<Longrightarrow> fnonneg s \<Longrightarrow> fnonneg (foldl (\<lambda>s i. fadd s (f i)) s is)"
  by (induction "is" arbitrary: s) (auto intro: fadd_nonneg)

lemma CalculateTotal_keeps [simp]:
  "o_id (CalculateTotal ord) = o_id ord" "o_items (CalculateTotal ord) = o_items ord"
  "o_status (CalculateTotal ord) = o_status ord" "o_customer_id (CalculateTotal ord) = o_customer_id ord"
  "o_idempotency_key (CalculateTotal ord) = o_idempotency_key ord"
  "o_currency (CalculateTotal ord) = o_currency ord"
  "o_shipping_address (CalculateTotal ord) = o_shipping_address ord"
  "o_created_at (CalculateTotal ord) = o_created_at ord"
  "o_updated_at (CalculateTotal ord) = o_updated_at ord"
  "o_discount_amount (CalculateTotal ord) = o_discount_amount ord"
  "o_shipping_fee (CalculateTotal ord) = o_shipping_fee ord"
  "o_tax_amount (CalculateTotal ord) = o_tax_amount ord"
  by (simp_all add: CalculateTotal_def Let_def)

lemma CalculateTotal_integral_lemma:
  assumes "\<forall>i \<in> set (o_items ord). oi_total_price i = Fin (of_int (p i)) \<and> 0 \<le> p i"
    and "o_discount_amount ord = Fin (of_int d)" "0 \<le> d"
    and "o_shipping_fee ord = Fin (of_int f)" "0 \<le> f"
    and "o_tax_amount ord = Fin (of_int t)" "0 \<le> t"
    and "sum_list (map p (o_items ord)) + f + t < 2 ^ 53" "d < 2 ^ 53"
  shows "o_subtotal (CalculateTotal ord) = Fin (of_int (sum_list (map p (o_items ord))))"
    and "o_total_amount (CalculateTotal ord) = Fin (of_int (sum_list (map p (o_items ord)) - d + f + t))"
proof -
  define s where "s = sum_list (map p (o_items ord))"
  have s: "0 \<le> s" unfolding s_def using assms(1) by (intro sum_list_nonneg) auto
  have sub: "foldl (\<lambda>s i. fadd s (oi_total_price i)) (Fin 0) (o_items ord) = Fin (of_int s)"
    using foldl_fadd_of_int [of "o_items ord" oi_total_price p 0] assms s by (simp add: s_def)
  then show "o_subtotal (CalculateTotal ord) = Fin (of_int (sum_list (map p (o_items ord))))"
    by (simp add: CalculateTotal_def Let_def s_def)
  have "\<bar>s - d\<bar> < 2 ^ 53" "\<bar>s - d + f\<bar> < 2 ^ 53" "\<bar>s - d + f + t\<bar> < 2 ^ 53"
    using assms s by (auto simp: s_def)
  then have "fadd (fadd (fsub (Fin (of_int s)) (Fin (of_int d))) (Fin (of_int f))) (Fin (of_int t))
      = Fin (of_int (s - d + f + t))"
    by (simp only: fsub_of_int fadd_of_int)
  then show "o_total_amount (CalculateTotal ord) = Fin (of_int (sum_list (map p (o_items ord)) - d + f + t))"
    using assms sub by (simp add: CalculateTotal_def Let_def s_def)
qed

subsection \<open>JSON round trips\<close>

lemmas struct_simps = fld_def field_for_def

lemma dec_enc_Address: "dec_Address cur (enc_Address a) = Some a"
  by (simp add: dec_Address_def Address_fields_def enc_Address_def struct_simps)

text \<open>Amounts are finite values of their type \<open>float64\<close>, quantities fit their type \<open>int\<close>.\<close>

definition marshallable_item :: "OrderItem \<Rightarrow> bool" where
  "marshallable_item i \<longleftrightarrow>
     finite64 (oi_unit_price i) \<and> finite64 (oi_total_price i) \<and> int64_ok (oi_quantity i)"

definition marshallable_order :: "Order \<Rightarrow> bool" where
  "marshallable_order ord \<longleftrightarrow>
     finite64 (o_subtotal ord) \<and> finite64 (o_discount_amount ord) \<and>
     finite64 (o_shipping_fee ord) \<and> finite64 (o_tax_amount ord) \<and>
     finite64 (o_total_amount ord) \<and> list_all marshallable_item (o_items ord)"

lemma dec_enc_OrderItem:
  assumes "marshallable_item i"
  shows "\<exists>v. enc_OrderItem i = Some v \<and> (\<forall>cur. dec_OrderItem cur v = Some i)"
proof -
  from assms obtain u t where enc: "enc_float (oi_unit_price i) = Some u" "enc_float (oi_total_price i) = Some t"
      and "\<And>c. dec_float c u = Some (oi_unit_price i)" "\<And>c. dec_float c t = Some (oi_total_price i)"
    unfolding marshallable_item_def by (metis finite64_roundtrip)
  with assms show ?thesis
    by (simp add: enc_OrderItem_def enc_object_def dec_OrderItem_def OrderItem_fields_def
        struct_simps marshallable_item_def)
qed

lemma dec_enc_items:
  assumes "list_all marshallable_item is"
  shows "\<exists>v. enc_items is = Some v \<and> (\<forall>cur. dec_items cur v = Some is)"
proof -
  have "\<exists>vs. enc_list enc_OrderItem is = Some vs \<and> dec_elems dec_OrderItem zero_OrderItem vs = Some is"
    using assms dec_enc_OrderItem by (intro dec_elems_enc_list) (fastforce simp: list_all_iff)
  then show ?thesis by (auto simp: enc_items_def dec_items_def)
qed

lemma dec_enc_Order_lemma:
  assumes "marshallable_order ord"
  shows "\<exists>v. enc_Order ord = Some v \<and> dec_Order zero_Order v = Some ord"
proof -
  have amounts: "finite64 (o_subtotal ord)" "finite64 (o_discount_amount ord)" "finite64 (o_shipping_fee ord)"
      "finite64 (o_tax_amount ord)" "finite64 (o_total_amount ord)"
    using assms by (simp_all add: marshallable_order_def)
  obtain s d f t a where enc: "enc_float (o_subtotal ord) = Some s" "enc_float (o_discount_amount ord) = Some d"
      "enc_float (o_shipping_fee ord) = Some f" "enc_float (o_tax_amount ord) = Some t" "enc_float (o_total_amount ord) = Some a"
      and dec: "\<And>c. dec_float c s = Some (o_subtotal ord)" "\<And>c. dec_float c d = Some (o_discount_amount ord)"
        "\<And>c. dec_float c f = Some (o_shipping_fee ord)" "\<And>c. dec_float c t = Some (o_tax_amount ord)"
        "\<And>c. dec_float c a = Some (o_total_amount ord)"
    using amounts [THEN finite64_roundtrip] by blast
  from assms obtain v where items: "enc_items (o_items ord) = Some v"
      "\<And>c. dec_items c v = Some (o_items ord)"
    unfolding marshallable_order_def by (metis dec_enc_items)
  show ?thesis
    using enc dec items dec_enc_Address
    by (cases "o_items ord = []"; cases "o_idempotency_key ord = ''''")
      (simp_all add: enc_Order_def enc_object_def dec_Order_def Order_fields_def
        struct_simps zero_Order_def)
qed

end
