(* ===== verification/Platform_Logic.thy ===== *)
theory Platform_Logic
  imports Platform
begin

text \<open>
  Proof rules for code that talks to the platform.

  \<^item> \<open>calm\<close> environments (no fault, no other client) make every round trip a computation:
    the rules \<open>run_*_calm\<close> run an operation to its result.
  \<^item> \<open>triple\<close>: a Hoare triple over every environment, used to track the statements an open
    transaction has accumulated up to its commit.
  \<^item> \<open>db_guarantee\<close>: a locale over a preorder \<open>R\<close> on database states. An operation is \<open>safe\<close>
    when every change it makes, statement by statement and commit by commit, is in \<open>R\<close>, on
    every path and in every environment whose other clients also move along \<open>R\<close>.
\<close>

subsection \<open>Calm environments\<close>

definition calm :: "'db env \<Rightarrow> bool" where
  "calm env \<longleftrightarrow> (\<forall>n. e_fault env n = None) \<and> (\<forall>n d. e_others env n d = d)"

lemma calmD [simp]: "calm env \<Longrightarrow> e_fault env n = None" "calm env \<Longrightarrow> e_others env n d = d"
  by (auto simp: calm_def)

named_theorems calm_simps \<open>running an operation in a calm environment\<close>

lemma run_next_tick [calm_simps]:
  "run_state next_tick w = (w_tick w, w\<lparr>w_tick := Suc (w_tick w)\<rparr>)"
  by (simp add: next_tick_def)

lemma run_new_uuid [calm_simps]:
  "run_state (new_uuid env) w = (e_uuid env (w_tick w), w\<lparr>w_tick := Suc (w_tick w)\<rparr>)"
  by (simp add: new_uuid_def run_next_tick)

lemma run_time_now [calm_simps]:
  "run_state (time_now env) w = (e_now env (w_tick w), w\<lparr>w_tick := Suc (w_tick w)\<rparr>)"
  by (simp add: time_now_def run_next_tick)

lemma run_ctx_done [calm_simps]:
  "run_state (ctx_done env) w = (e_done env (w_tick w), w\<lparr>w_tick := Suc (w_tick w)\<rparr>)"
  by (simp add: ctx_done_def run_next_tick)

lemma run_row_order [calm_simps]: "run_state (row_order env) w = (e_rank env (w_tick w), w)"
  by (simp add: row_order_def)

lemma run_metric_add [calm_simps]:
  "run_state (metric_add m d) w = ((), w\<lparr>w_metrics := (w_metrics w)(m := w_metrics w m + d)\<rparr>)"
  by (simp add: metric_add_def)

lemma run_exec_db_calm [calm_simps]:
  "calm env \<Longrightarrow> run_state (exec_db env st) w =
     (case st (w_db w) of
        Inl e \<Rightarrow> (Inl e, w\<lparr>w_tick := Suc (w_tick w)\<rparr>)
      | Inr (d, r) \<Rightarrow> (Inr r, w\<lparr>w_tick := Suc (w_tick w), w_db := d\<rparr>))"
  by (simp add: exec_db_def run_next_tick interfere_def split: sum.splits prod.splits)

lemma run_GetContext_calm [calm_simps]:
  "calm env \<Longrightarrow> run_state (GetContext env q) w =
     (first_row (q (w_db w)), w\<lparr>w_tick := Suc (w_tick w)\<rparr>)"
  by (simp add: GetContext_def run_exec_db_calm split: sum.splits)

lemma run_SelectContext_calm [calm_simps]:
  "calm env \<Longrightarrow> run_state (SelectContext env q) w = (q (w_db w), w\<lparr>w_tick := Suc (w_tick w)\<rparr>)"
  by (simp add: SelectContext_def run_exec_db_calm split: sum.splits)

lemma run_BeginTxx_calm [calm_simps]:
  "calm env \<Longrightarrow> run_state (BeginTxx env) w =
     (Inr (w_tick w),
      set_tx (w_tick w) (Some \<lparr>tx_log = [], tx_aborted = False\<rparr>) (w\<lparr>w_tick := Suc (w_tick w)\<rparr>))"
  by (simp add: BeginTxx_def run_next_tick interfere_def)

lemma run_Rollback [calm_simps]: "run_state (Rollback h) w = ((), set_tx h None w)"
  by (simp add: Rollback_def)

text \<open>A transaction that is open, has not failed and has executed the statements \<open>L\<close>.\<close>

definition tx_at :: "nat \<Rightarrow> ('db \<Rightarrow> 'db option) list \<Rightarrow> 'db world \<Rightarrow> bool" where
  "tx_at h L w \<longleftrightarrow> w_txs w h = Some \<lparr>tx_log = L, tx_aborted = False\<rparr>"

lemma set_tx_sel [simp]:
  "w_tick (set_tx h t w) = w_tick w" "w_db (set_tx h t w) = w_db w"
  "w_redis (set_tx h t w) = w_redis w" "w_sent (set_tx h t w) = w_sent w"
  "w_metrics (set_tx h t w) = w_metrics w" "w_txs (set_tx h t w) = (w_txs w)(h := t)"
  by (simp_all add: set_tx_def)

lemma set_tx_twice [simp]: "set_tx h t (set_tx h u w) = set_tx h t w"
  by (simp add: set_tx_def)

lemma set_tx_update [simp]:
  "(set_tx h t w)\<lparr>w_tick := n\<rparr> = set_tx h t (w\<lparr>w_tick := n\<rparr>)"
  "(set_tx h t w)\<lparr>w_db := d\<rparr> = set_tx h t (w\<lparr>w_db := d\<rparr>)"
  by (simp_all add: set_tx_def)

lemma set_tx_same [simp]: "w_txs w h = t \<Longrightarrow> set_tx h t w = w"
  by (auto simp: set_tx_def)

lemma run_exec_tx_calm:
  assumes "calm env" and "w_txs w h = Some \<lparr>tx_log = L, tx_aborted = False\<rparr>"
    and "apply_log L (w_db w) = Some d"
  shows "run_state (exec_tx env h st) w =
     (case st d of
        Inl e \<Rightarrow> (Inl e, set_tx h (Some \<lparr>tx_log = L, tx_aborted = True\<rparr>) (w\<lparr>w_tick := Suc (w_tick w)\<rparr>))
      | Inr (_, r) \<Rightarrow>
          (Inr r, set_tx h (Some \<lparr>tx_log = L @ [apply_stmt st], tx_aborted = False\<rparr>)
                    (w\<lparr>w_tick := Suc (w_tick w)\<rparr>)))"
  using assms
  by (simp add: exec_tx_def run_next_tick interfere_def split: sum.splits prod.splits)

lemma run_Commit_calm:
  assumes "calm env" and "w_txs w h = Some \<lparr>tx_log = L, tx_aborted = False\<rparr>"
    and "apply_log L (w_db w) = Some d"
  shows "run_state (Commit env h) w =
     (Inr (), set_tx h None (w\<lparr>w_tick := Suc (w_tick w), w_db := d\<rparr>))"
  using assms
  by (simp add: Commit_def run_next_tick interfere_def or_same_def Let_def)

lemma run_Commit_aborted:
  assumes "calm env" and "w_txs w h = Some t" and "tx_aborted t"
  shows "run_state (Commit env h) w =
     (Inl ErrTxAborted, set_tx h None (w\<lparr>w_tick := Suc (w_tick w)\<rparr>))"
  using assms
  by (simp add: Commit_def run_next_tick interfere_def Let_def)

lemma apply_log_append:
  "apply_log (L @ M) d = (case apply_log L d of None \<Rightarrow> None | Some d' \<Rightarrow> apply_log M d')"
  by (induction L arbitrary: d) (auto split: option.splits)

subsection \<open>Hoare triples over every environment\<close>

definition triple ::
  "('w \<Rightarrow> bool) \<Rightarrow> ('w, 'a) state \<Rightarrow> ('a \<Rightarrow> 'w \<Rightarrow> bool) \<Rightarrow> bool" where
  "triple P m Q \<longleftrightarrow> (\<forall>w. P w \<longrightarrow> (case run_state m w of (r, w') \<Rightarrow> Q r w'))"

lemma tripleI: "(\<And>w. P w \<Longrightarrow> case run_state m w of (r, w') \<Rightarrow> Q r w') \<Longrightarrow> triple P m Q"
  by (simp add: triple_def)

lemma tripleD: "triple P m Q \<Longrightarrow> P w \<Longrightarrow> run_state m w = (r, w') \<Longrightarrow> Q r w'"
  by (auto simp: triple_def)

lemma triple_ret: "(\<And>w. P w \<Longrightarrow> Q x w) \<Longrightarrow> triple P (ret x) Q"
  by (simp add: triple_def)

lemma triple_bind:
  "triple P m R \<Longrightarrow> (\<And>x. triple (R x) (f x) Q) \<Longrightarrow> triple P (State_Monad.bind m f) Q"
  by (fastforce simp: triple_def split: prod.splits)

lemma triple_bindE:
  assumes "triple P m (\<lambda>r w. case r of Inl e \<Rightarrow> Q (Inl e) w | Inr x \<Rightarrow> R x w)"
    and "\<And>x. triple (R x) (f x) Q"
  shows "triple P (bindE m f) Q"
  using assms by (fastforce simp: triple_def split: prod.splits sum.splits)

lemma triple_wrapE:
  "triple P m (\<lambda>r w. Q (case r of Inl e \<Rightarrow> Inl (Wrapped msg e) | Inr x \<Rightarrow> Inr x) w)
   \<Longrightarrow> triple P (wrapE msg m) Q"
  by (fastforce simp: triple_def split: prod.splits sum.splits)

lemma triple_deferred:
  "triple P m R \<Longrightarrow> (\<And>r w. R r w \<Longrightarrow> Q r (snd (run_state fin w))) \<Longrightarrow> triple P (deferred fin m) Q"
  by (fastforce simp: triple_def split: prod.splits)

lemma triple_conseq:
  "triple P m Q \<Longrightarrow> (\<And>w. P' w \<Longrightarrow> P w) \<Longrightarrow> (\<And>r w. Q r w \<Longrightarrow> Q' r w) \<Longrightarrow> triple P' m Q'"
  by (fastforce simp: triple_def split: prod.splits)

lemma triple_conj:
  "triple P m Q \<Longrightarrow> triple P m R \<Longrightarrow> triple P m (\<lambda>r w. Q r w \<and> R r w)"
  by (auto simp: triple_def)

lemma triple_frame: "(F \<Longrightarrow> triple P m Q) \<Longrightarrow> triple (\<lambda>w. P w \<and> F) m (\<lambda>r w. Q r w \<and> F)"
  by (auto simp: triple_def)

subsection \<open>Guarantees\<close>

text \<open>Other clients move along \<open>R\<close>.\<close>

definition rely :: "('db \<Rightarrow> 'db \<Rightarrow> bool) \<Rightarrow> 'db env \<Rightarrow> bool" where
  "rely R env \<longleftrightarrow> (\<forall>n d. R d (e_others env n d))"

definition stmt_in :: "('db \<Rightarrow> 'db \<Rightarrow> bool) \<Rightarrow> ('db, 'r) stmt \<Rightarrow> bool" where
  "stmt_in R st \<longleftrightarrow> (\<forall>d d' r. st d = Inr (d', r) \<longrightarrow> R d d')"

definition logs_in :: "('db \<Rightarrow> 'db \<Rightarrow> bool) \<Rightarrow> 'db world \<Rightarrow> bool" where
  "logs_in R w \<longleftrightarrow>
     (\<forall>h t. w_txs w h = Some t \<longrightarrow> (\<forall>f \<in> set (tx_log t). \<forall>d d'. f d = Some d' \<longrightarrow> R d d'))"

definition safe :: "('db \<Rightarrow> 'db \<Rightarrow> bool) \<Rightarrow> ('db, 'a) io \<Rightarrow> bool" where
  "safe R m \<longleftrightarrow>
     (\<forall>w. logs_in R w \<longrightarrow>
        logs_in R (snd (run_state m w)) \<and> R (w_db w) (w_db (snd (run_state m w))))"

named_theorems safe_intros \<open>introduction rules for the guarantee judgement\<close>

lemma stmt_inI: "(\<And>d d' r. st d = Inr (d', r) \<Longrightarrow> R d d') \<Longrightarrow> stmt_in R st"
  by (simp add: stmt_in_def)

lemma safeD:
  "safe R m \<Longrightarrow> logs_in R w \<Longrightarrow> run_state m w = (r, w') \<Longrightarrow> logs_in R w' \<and> R (w_db w) (w_db w')"
  by (auto simp: safe_def)

lemma logs_in_none [simp]: "w_txs w = (\<lambda>_. None) \<Longrightarrow> logs_in R w"
  by (simp add: logs_in_def)

lemma safe_if [safe_intros]: "safe R m \<Longrightarrow> safe R n \<Longrightarrow> safe R (if b then m else n)"
  by simp

lemma safe_case_sum [safe_intros]:
  "(\<And>e. safe R (f e)) \<Longrightarrow> (\<And>x. safe R (g x)) \<Longrightarrow> safe R (case r of Inl e \<Rightarrow> f e | Inr x \<Rightarrow> g x)"
  by (cases r) auto

lemma safe_case_option [safe_intros]:
  "safe R f \<Longrightarrow> (\<And>x. safe R (g x)) \<Longrightarrow> safe R (case r of None \<Rightarrow> f | Some x \<Rightarrow> g x)"
  by (cases r) auto

lemma safe_case_prod [safe_intros]:
  "(\<And>a b. safe R (f a b)) \<Longrightarrow> safe R (case p of (a, b) \<Rightarrow> f a b)"
  by (cases p) auto

lemma apply_log_in:
  assumes "reflp R" and "transp R"
    and "\<And>f d d'. f \<in> set L \<Longrightarrow> f d = Some d' \<Longrightarrow> R d d'" and "apply_log L d = Some d'"
  shows "R d d'"
  using assms(3,4)
proof (induction L arbitrary: d)
  case Nil
  with assms(1) show ?case by (simp add: reflp_def)
next
  case (Cons f L)
  then obtain d1 where "f d = Some d1" "apply_log L d1 = Some d'"
    by (auto split: option.splits)
  with Cons have "R d d1" "R d1 d'" by auto
  with assms(2) show ?case by (rule transpD)
qed

locale db_guarantee =
  fixes R :: "'db \<Rightarrow> 'db \<Rightarrow> bool"
  assumes R_refl: "R d d"
    and R_trans: "R d d1 \<Longrightarrow> R d1 d2 \<Longrightarrow> R d d2"
begin

lemma safe_ret [safe_intros]: "safe R (ret x)"
  by (simp add: safe_def R_refl)

lemma safe_bind [safe_intros]:
  assumes "safe R m" and "\<And>x. safe R (f x)"
  shows "safe R (State_Monad.bind m f)"
  unfolding safe_def
proof (intro allI impI)
  fix w assume w: "logs_in R w"
  obtain x w1 where m: "run_state m w = (x, w1)" by force
  from safeD [OF assms(1) w m] have 1: "logs_in R w1" "R (w_db w) (w_db w1)" by auto
  obtain y w2 where f: "run_state (f x) w1 = (y, w2)" by force
  from safeD [OF assms(2) 1(1) f] 1(2) R_trans m f
  show "logs_in R (snd (run_state (State_Monad.bind m f) w)) \<and>
        R (w_db w) (w_db (snd (run_state (State_Monad.bind m f) w)))"
    by auto
qed

lemma safe_bindE [safe_intros]: "safe R m \<Longrightarrow> (\<And>x. safe R (f x)) \<Longrightarrow> safe R (bindE m f)"
  unfolding bindE_def by (intro safe_intros) (auto intro: safe_intros)

lemma safe_wrapE [safe_intros]: "safe R m \<Longrightarrow> safe R (wrapE msg m)"
  unfolding wrapE_def by (intro safe_intros) (auto intro: safe_intros)

lemma safe_deferred [safe_intros]: "safe R m \<Longrightarrow> safe R fin \<Longrightarrow> safe R (deferred fin m)"
  unfolding deferred_def by (intro safe_intros) auto

lemma safe_forE [safe_intros]: "(\<And>x. safe R (f x)) \<Longrightarrow> safe R (forE f xs)"
  by (induction xs) (auto intro: safe_intros)

lemma safe_for_each [safe_intros]: "(\<And>x. safe R (f x)) \<Longrightarrow> safe R (for_each f xs)"
  by (induction xs) (auto intro: safe_intros)

lemma safe_for_map [safe_intros]: "(\<And>x. safe R (f x)) \<Longrightarrow> safe R (for_map f xs)"
  by (induction xs) (auto intro!: safe_intros)

text \<open>A step that leaves the database and the transactions alone.\<close>

lemma safe_local:
  assumes "\<And>w. w_db (snd (run_state m w)) = w_db w" "\<And>w. w_txs (snd (run_state m w)) = w_txs w"
  shows "safe R m"
  using assms by (simp add: safe_def logs_in_def R_refl)

lemma safe_next_tick [safe_intros]: "safe R next_tick"
  by (rule safe_local) (simp_all add: next_tick_def)

lemma safe_new_uuid [safe_intros]: "safe R (new_uuid env)"
  by (rule safe_local) (simp_all add: run_new_uuid)

lemma safe_time_now [safe_intros]: "safe R (time_now env)"
  by (rule safe_local) (simp_all add: run_time_now)

lemma safe_ctx_done [safe_intros]: "safe R (ctx_done env)"
  by (rule safe_local) (simp_all add: run_ctx_done)

lemma safe_row_order [safe_intros]: "safe R (row_order env)"
  by (rule safe_local) (simp_all add: run_row_order)

lemma safe_metric_add [safe_intros]: "safe R (metric_add m d)"
  by (rule safe_local) (simp_all add: run_metric_add)

lemma safe_interfere: "rely R env \<Longrightarrow> safe R (interfere env n)"
  by (simp add: safe_def interfere_def rely_def logs_in_def)

lemma safe_exec_db [safe_intros]:
  assumes "rely R env" and "stmt_in R st"
  shows "safe R (exec_db env st)"
  unfolding exec_db_def
proof (intro safe_bind safe_next_tick safe_interfere assms(1))
  fix n
  have st: "R d d'" if "st d = Inr (d', r)" for d d' r
    using assms(2) that by (auto simp: stmt_in_def)
  have same: "R d (or_same d (apply_stmt st d))" for d
    by (auto simp: or_same_def R_refl intro: st split: sum.splits)
  show "safe R (State (\<lambda>w. case e_fault env n of
         Some (Lost m) \<Rightarrow> (Inl (External m), w)
       | Some (Applied m) \<Rightarrow>
           (Inl (External m), w\<lparr>w_db := or_same (w_db w) (apply_stmt st (w_db w))\<rparr>)
       | None \<Rightarrow> (case st (w_db w) of
             Inl e \<Rightarrow> (Inl e, w)
           | Inr (d, r) \<Rightarrow> (Inr r, w\<lparr>w_db := d\<rparr>))))"
    by (auto simp: safe_def logs_in_def R_refl intro: same st
        simp del: apply_stmt.simps split: option.splits fault.splits sum.splits)
qed

lemma safe_query:
  assumes "rely R env" and "\<And>d d' r. st d = Inr (d', r) \<Longrightarrow> d' = d"
  shows "safe R (exec_db env st)"
proof (rule safe_exec_db [OF assms(1)], rule stmt_inI)
  fix d d' r assume "st d = Inr (d', r)"
  with assms(2) have "d' = d" by blast
  then show "R d d'" by (simp add: R_refl)
qed

lemma safe_GetContext [safe_intros]: "rely R env \<Longrightarrow> safe R (GetContext env q)"
  unfolding GetContext_def by (rule safe_query) (auto split: sum.splits)

lemma safe_SelectContext [safe_intros]: "rely R env \<Longrightarrow> safe R (SelectContext env q)"
  unfolding SelectContext_def by (rule safe_query) (auto split: sum.splits)

lemma logs_in_set_tx:
  "logs_in R w \<Longrightarrow> (\<And>u. t = Some u \<Longrightarrow> \<forall>f \<in> set (tx_log u). \<forall>d d'. f d = Some d' \<longrightarrow> R d d')
   \<Longrightarrow> logs_in R (set_tx h t w)"
  by (auto simp: logs_in_def)

lemma safe_BeginTxx [safe_intros]:
  assumes "rely R env"
  shows "safe R (BeginTxx env)"
  unfolding BeginTxx_def
proof (intro safe_bind safe_next_tick safe_interfere assms)
  fix n
  show "safe R (State (\<lambda>w. case e_fault env n of
         Some (Lost m) \<Rightarrow> (Inl (External m), w)
       | Some (Applied m) \<Rightarrow> (Inl (External m), w)
       | None \<Rightarrow> (Inr n, set_tx n (Some \<lparr>tx_log = [], tx_aborted = False\<rparr>) w)))"
    by (auto simp: safe_def R_refl intro!: logs_in_set_tx split: option.splits fault.splits)
qed

lemma safe_Rollback [safe_intros]: "safe R (Rollback h)"
  by (auto simp: safe_def Rollback_def R_refl intro: logs_in_set_tx)

lemma safe_exec_tx [safe_intros]:
  assumes "rely R env" and "stmt_in R st"
  shows "safe R (exec_tx env h st)"
proof -
  have new: "R d d'" if "apply_stmt st d = Some d'" for d d'
    using that assms(2) by (auto simp: stmt_in_def split: sum.splits prod.splits)
  have old: "logs_in R w \<Longrightarrow> w_txs w h = Some t \<Longrightarrow> f \<in> set (tx_log t) \<Longrightarrow> f d = Some d' \<Longrightarrow> R d d'"
    for w t f d d' by (auto simp: logs_in_def)
  show ?thesis
    unfolding exec_tx_def
    by (intro safe_bind safe_next_tick safe_interfere assms(1))
      (auto simp: safe_def R_refl simp del: apply_stmt.simps
        intro!: logs_in_set_tx dest: new old
        split: option.splits fault.splits sum.splits)
qed

lemma safe_Commit [safe_intros]:
  assumes "rely R env"
  shows "safe R (Commit env h)"
proof -
  have log: "R (w_db w) d'"
    if "logs_in R w" "w_txs w h = Some t" "apply_log (tx_log t) (w_db w) = Some d'" for w t d'
  proof (rule apply_log_in [OF _ _ _ that(3)])
    show "reflp R" "transp R" by (auto simp: reflp_def transp_def intro: R_refl R_trans)
  qed (use that(1,2) in \<open>auto simp: logs_in_def\<close>)
  show ?thesis
    unfolding Commit_def
    by (intro safe_bind safe_next_tick safe_interfere assms)
      (auto simp: safe_def Let_def R_refl or_same_def logs_in_def
        intro: log split: option.splits fault.splits)
qed

lemma safe_execute [safe_intros]:
  "rely R env \<Longrightarrow> stmt_in R st \<Longrightarrow> safe R (execute env tx st)"
  unfolding execute_def by (intro safe_intros)

end

subsection \<open>Triples for transactions\<close>

text \<open>Invariants of the committed state, as a preorder for \<open>rely\<close> and \<open>safe\<close>.\<close>

definition preserves :: "('db \<Rightarrow> bool) \<Rightarrow> 'db \<Rightarrow> 'db \<Rightarrow> bool" where
  "preserves I d d' \<longleftrightarrow> (I d \<longrightarrow> I d')"

lemma db_guarantee_preserves: "db_guarantee (preserves I)"
  by unfold_locales (auto simp: preserves_def)

lemma rely_preservesD: "rely (preserves I) env \<Longrightarrow> I d \<Longrightarrow> I (e_others env n d)"
  by (simp add: rely_def preserves_def)

text \<open>
  What an open transaction will do at its commit: it has not failed, and from every state
  \<open>d\<close> that satisfies \<open>I\<close> its statements lead to a state \<open>d'\<close> with \<open>Q d d'\<close>.
\<close>

definition tx_rel :: "('db \<Rightarrow> bool) \<Rightarrow> nat \<Rightarrow> ('db \<Rightarrow> 'db \<Rightarrow> bool) \<Rightarrow> 'db world \<Rightarrow> bool" where
  "tx_rel I h Q w \<longleftrightarrow>
     (\<exists>L. tx_at h L w \<and> (\<forall>d d'. I d \<longrightarrow> apply_log L d = Some d' \<longrightarrow> Q d d'))"

definition in_tx :: "('db \<Rightarrow> bool) \<Rightarrow> nat \<Rightarrow> ('db \<Rightarrow> 'db \<Rightarrow> bool) \<Rightarrow> 'db world \<Rightarrow> bool" where
  "in_tx I h Q w \<longleftrightarrow> I (w_db w) \<and> tx_rel I h Q w"

lemma in_txD: "in_tx I h Q w \<Longrightarrow> I (w_db w)"
  by (simp add: in_tx_def)

lemma in_tx_mono: "in_tx I h Q w \<Longrightarrow> (\<And>d d'. I d \<Longrightarrow> Q d d' \<Longrightarrow> Q' d d') \<Longrightarrow> in_tx I h Q' w"
  by (fastforce simp: in_tx_def tx_rel_def)

lemma triple_local:
  assumes "\<And>w. w_db (snd (run_state m w)) = w_db w" "\<And>w. w_txs (snd (run_state m w)) = w_txs w"
  shows "triple (in_tx I h Q) m (\<lambda>_. in_tx I h Q)"
proof (rule tripleI)
  fix w assume "in_tx I h Q w"
  with assms [of w] show "case run_state m w of (_, w) \<Rightarrow> in_tx I h Q w"
    by (cases "run_state m w") (simp add: in_tx_def tx_rel_def tx_at_def)
qed

lemma triple_time_now: "triple (in_tx I h Q) (time_now env) (\<lambda>_. in_tx I h Q)"
  by (rule triple_local) (simp_all add: run_time_now)

lemma triple_BeginTxx:
  assumes "rely (preserves I) env"
  shows "triple (\<lambda>w. I (w_db w)) (BeginTxx env)
           (\<lambda>r w. case r of Inl _ \<Rightarrow> I (w_db w) | Inr h \<Rightarrow> in_tx I h (=) w)"
  using rely_preservesD [OF assms]
  by (auto simp: triple_def BeginTxx_def run_next_tick interfere_def tx_at_def in_tx_def tx_rel_def
      split: option.splits fault.splits)

lemma triple_exec_tx:
  assumes "rely (preserves I) env"
    and step: "\<And>d d' d'' x. I d \<Longrightarrow> Q d d' \<Longrightarrow> st d' = Inr (d'', x) \<Longrightarrow> Q' d d''"
  shows "triple (in_tx I h Q) (exec_tx env h st)
           (\<lambda>r w. case r of Inl _ \<Rightarrow> I (w_db w) | Inr _ \<Rightarrow> in_tx I h Q' w)"
proof (rule tripleI)
  fix w assume "in_tx I h Q w"
  then obtain L where I: "I (w_db w)" and L: "w_txs w h = Some \<lparr>tx_log = L, tx_aborted = False\<rparr>"
    and Q: "\<And>d d'. I d \<Longrightarrow> apply_log L d = Some d' \<Longrightarrow> Q d d'"
    by (auto simp: in_tx_def tx_rel_def tx_at_def)
  have Q': "Q' d d''" if "I d" "apply_log (L @ [apply_stmt st]) d = Some d''" for d d''
    using that Q [of d] step by (auto simp: apply_log_append split: option.splits sum.splits)
  show "case run_state (exec_tx env h st) w of
      (r, w) \<Rightarrow> (case r of Inl _ \<Rightarrow> I (w_db w) | Inr _ \<Rightarrow> in_tx I h Q' w)"
    using L rely_preservesD [OF assms(1) I] Q'
    by (auto simp: exec_tx_def run_next_tick interfere_def in_tx_def tx_rel_def tx_at_def
        simp del: apply_stmt.simps split: option.splits fault.splits sum.splits)
qed

text \<open>The result of a statement is a result it has on some state the transaction can see.\<close>

lemma triple_exec_tx_result:
  assumes "rely (preserves I) env"
    and step: "\<And>d d' d'' x. I d \<Longrightarrow> Q d d' \<Longrightarrow> st d' = Inr (d'', x) \<Longrightarrow> Q' d d''"
    and res: "\<And>d d' d'' x. I d \<Longrightarrow> Q d d' \<Longrightarrow> st d' = Inr (d'', x) \<Longrightarrow> P x"
  shows "triple (in_tx I h Q) (exec_tx env h st)
           (\<lambda>r w. case r of Inl _ \<Rightarrow> I (w_db w) | Inr x \<Rightarrow> in_tx I h Q' w \<and> P x)"
proof -
  have "triple (in_tx I h Q) (exec_tx env h st) (\<lambda>r w. case r of Inl _ \<Rightarrow> True | Inr x \<Rightarrow> P x)"
  proof (rule tripleI)
    fix w assume "in_tx I h Q w"
    then obtain L where I: "I (w_db w)" and L: "w_txs w h = Some \<lparr>tx_log = L, tx_aborted = False\<rparr>"
      and Q: "\<And>d d'. I d \<Longrightarrow> apply_log L d = Some d' \<Longrightarrow> Q d d'"
      by (auto simp: in_tx_def tx_rel_def tx_at_def)
    then show "case run_state (exec_tx env h st) w of
        (r, w) \<Rightarrow> (case r of Inl _ \<Rightarrow> True | Inr x \<Rightarrow> P x)"
      using rely_preservesD [OF assms(1) I] res
      by (auto simp: exec_tx_def run_next_tick interfere_def
          simp del: apply_stmt.simps split: option.splits fault.splits sum.splits) blast
  qed
  moreover have "triple (in_tx I h Q) (exec_tx env h st)
      (\<lambda>r w. case r of Inl _ \<Rightarrow> I (w_db w) | Inr _ \<Rightarrow> in_tx I h Q' w)"
    using assms(1) step by (rule triple_exec_tx)
  ultimately show ?thesis
    by (fastforce simp: triple_def split: sum.splits prod.splits)
qed

lemma triple_Commit:
  assumes "rely (preserves I) env"
  shows "triple (in_tx I h Q) (Commit env h)
           (\<lambda>r w. (\<exists>d. I d \<and> Q d (w_db w)) \<or> (\<exists>e. r = Inl e) \<and> I (w_db w))"
  using rely_preservesD [OF assms]
  by (auto simp: triple_def Commit_def run_next_tick interfere_def in_tx_def tx_rel_def tx_at_def
      or_same_def Let_def split: option.splits fault.splits) blast+

lemma triple_Rollback_after:
  "triple P m (\<lambda>r w. Q r (w_db w)) \<Longrightarrow> triple P (deferred (Rollback h) m) (\<lambda>r w. Q r (w_db w))"
  by (rule triple_deferred) (auto simp: run_Rollback)

lemma triple_forE:
  assumes "\<And>k. k < length xs \<Longrightarrow>
      triple (P k) (f (xs ! k)) (\<lambda>r w. case r of Inl e \<Rightarrow> Q (Inl e) w | Inr _ \<Rightarrow> P (Suc k) w)"
  shows "triple (P 0) (forE f xs) (\<lambda>r w. case r of Inl e \<Rightarrow> Q (Inl e) w | Inr _ \<Rightarrow> P (length xs) w)"
  using assms
proof (induction xs arbitrary: P)
  case (Cons x xs)
  have "triple (P 0) (f x) (\<lambda>r w. case r of Inl e \<Rightarrow> Q (Inl e) w | Inr _ \<Rightarrow> P (Suc 0) w)"
    using Cons.prems [of 0] by simp
  moreover have "triple (P (Suc 0)) (forE f xs)
      (\<lambda>r w. case r of Inl e \<Rightarrow> Q (Inl e) w | Inr _ \<Rightarrow> P (Suc (length xs)) w)"
    using Cons.prems [of "Suc k" for k] by (intro Cons.IH [of "\<lambda>k. P (Suc k)"]) auto
  ultimately show ?case
    by (auto intro!: triple_bindE [where R = "\<lambda>_. P (Suc 0)"] cong: sum.case_cong)
qed (auto simp: triple_def)

text \<open>A safe operation keeps the invariant.\<close>

lemma safe_keeps: "safe (preserves I) m \<Longrightarrow> logs_in (preserves I) w \<Longrightarrow> I (w_db w)
   \<Longrightarrow> I (w_db (snd (run_state m w)))"
  by (auto simp: safe_def preserves_def)


subsection \<open>Transactions that take effect as a whole or not at all\<close>

text \<open>
  The outcome of a transaction block: the committed state is one that \<open>Q\<close> relates to an
  earlier state, or the block returned an error and left the committed state to the others.
\<close>

definition all_or_nothing ::
  "('db \<Rightarrow> bool) \<Rightarrow> ('db \<Rightarrow> 'db \<Rightarrow> bool) \<Rightarrow> 'a result \<Rightarrow> 'db world \<Rightarrow> bool" where
  "all_or_nothing I Q r w \<longleftrightarrow> (\<exists>d. I d \<and> Q d (w_db w)) \<or> (\<exists>e. r = Inl e) \<and> I (w_db w)"

lemma all_or_nothing_error [simp]: "I (w_db w) \<Longrightarrow> all_or_nothing I Q (Inl e) w"
  by (simp add: all_or_nothing_def)

lemma tx_block:
  assumes "rely (preserves I) env"
    and "\<And>h. triple (in_tx I h (=)) (body h) (all_or_nothing I Q)"
  shows "triple (\<lambda>w. I (w_db w))
           (bindE (wrapE msg (BeginTxx env)) (\<lambda>h. deferred (Rollback h) (body h)))
           (all_or_nothing I Q)"
proof (rule triple_bindE [where R = "\<lambda>h. in_tx I h (=)"])
  show "triple (\<lambda>w. I (w_db w)) (wrapE msg (BeginTxx env))
      (\<lambda>r w. case r of Inl e \<Rightarrow> all_or_nothing I Q (Inl e) w | Inr h \<Rightarrow> in_tx I h (=) w)"
    by (rule triple_wrapE, rule triple_conseq [OF triple_BeginTxx [OF assms(1)]])
      (auto split: sum.splits)
  show "triple (in_tx I h (=)) (deferred (Rollback h) (body h)) (all_or_nothing I Q)" for h
    by (rule triple_deferred [OF assms(2)]) (simp add: run_Rollback all_or_nothing_def)
qed

lemma tx_step:
  assumes "triple (in_tx I h Q0) m (\<lambda>r w. case r of Inl _ \<Rightarrow> I (w_db w) | Inr x \<Rightarrow> in_tx I h Q1 w \<and> P x)"
    and "\<And>x. P x \<Longrightarrow> triple (in_tx I h Q1) (k x) (all_or_nothing I Q)"
  shows "triple (in_tx I h Q0) (bindE (wrapE msg m) k) (all_or_nothing I Q)"
proof (rule triple_bindE [where R = "\<lambda>x w. in_tx I h Q1 w \<and> P x"])
  show "triple (in_tx I h Q0) (wrapE msg m)
      (\<lambda>r w. case r of Inl e \<Rightarrow> all_or_nothing I Q (Inl e) w | Inr x \<Rightarrow> in_tx I h Q1 w \<and> P x)"
    by (rule triple_wrapE, rule triple_conseq [OF assms(1)]) (auto split: sum.splits)
  show "triple (\<lambda>w. in_tx I h Q1 w \<and> P x) (k x) (all_or_nothing I Q)" for x
    using assms(2) [of x] by (auto simp: triple_def)
qed

lemma tx_step':
  assumes "triple (in_tx I h Q0) m (\<lambda>r w. case r of Inl _ \<Rightarrow> I (w_db w) | Inr _ \<Rightarrow> in_tx I h Q1 w)"
    and "\<And>x. triple (in_tx I h Q1) (k x) (all_or_nothing I Q)"
  shows "triple (in_tx I h Q0) (bindE (wrapE msg m) k) (all_or_nothing I Q)"
  by (rule tx_step [where P = "\<lambda>_. True"], rule triple_conseq [OF assms(1)])
    (auto intro: assms(2) split: sum.splits)

lemma tx_commit:
  assumes "rely (preserves I) env"
  shows "triple (in_tx I h Q) (bindE (wrapE msg (Commit env h)) (\<lambda>_. ok x)) (all_or_nothing I Q)"
proof (rule triple_bindE [where R = "\<lambda>_ w. \<exists>d. I d \<and> Q d (w_db w)"])
  show "triple (in_tx I h Q) (wrapE msg (Commit env h))
      (\<lambda>r w. case r of Inl e \<Rightarrow> all_or_nothing I Q (Inl e) w | Inr _ \<Rightarrow> \<exists>d. I d \<and> Q d (w_db w))"
    by (rule triple_wrapE, rule triple_conseq [OF triple_Commit [OF assms]])
      (auto simp: all_or_nothing_def split: sum.splits)
qed (auto simp: triple_def all_or_nothing_def)

subsection \<open>Transactions in a calm environment\<close>

text \<open>
  The committed state is \<open>d0\<close>, and the open transaction \<open>h\<close> sees the state \<open>d\<close>.
\<close>

definition sees :: "nat \<Rightarrow> 'db \<Rightarrow> 'db \<Rightarrow> 'db world \<Rightarrow> bool" where
  "sees h d0 d w \<longleftrightarrow> w_db w = d0 \<and> (\<exists>L. tx_at h L w \<and> apply_log L d0 = Some d)"

lemma calm_tx_block:
  assumes "calm env" and "\<And>h. triple (sees h d0 d0) (body h) (\<lambda>r w. Q r (w_db w))"
  shows "triple (\<lambda>w. w_db w = d0)
           (bindE (wrapE msg (BeginTxx env)) (\<lambda>h. deferred (Rollback h) (body h)))
           (\<lambda>r w. Q r (w_db w))"
proof (rule triple_bindE [where R = "\<lambda>h. sees h d0 d0"])
  show "triple (\<lambda>w. w_db w = d0) (wrapE msg (BeginTxx env))
      (\<lambda>r w. case r of Inl e \<Rightarrow> Q (Inl e) (w_db w) | Inr h \<Rightarrow> sees h d0 d0 w)"
    using assms(1) by (simp add: triple_def run_BeginTxx_calm sees_def tx_at_def)
  show "triple (sees h d0 d0) (deferred (Rollback h) (body h)) (\<lambda>r w. Q r (w_db w))" for h
    by (rule triple_Rollback_after [OF assms(2)])
qed

lemma calm_tx_step:
  assumes "triple (sees h d0 d) m (\<lambda>r w. r = Inr x \<and> sees h d0 d' w)"
    and "triple (sees h d0 d') (k x) Q"
  shows "triple (sees h d0 d) (bindE (wrapE msg m) k) Q"
  using assms by (fastforce simp: triple_def split: prod.splits sum.splits)

lemma calm_exec_tx:
  assumes "calm env" and "st d = Inr (d', x)"
  shows "triple (sees h d0 d) (exec_tx env h st) (\<lambda>r w. r = Inr x \<and> sees h d0 d' w)"
  using assms by (auto simp: triple_def sees_def tx_at_def run_exec_tx_calm apply_log_append)

lemma calm_exec_tx_error:
  assumes "calm env" and "st d = Inl e"
  shows "triple (sees h d0 d) (bindE (wrapE msg (exec_tx env h st)) k)
           (\<lambda>r w. r = Inl (Wrapped msg e) \<and> w_db w = d0)"
  using assms by (auto simp: triple_def sees_def tx_at_def run_exec_tx_calm)

lemma calm_commit:
  assumes "calm env"
  shows "triple (sees h d0 d) (bindE (wrapE msg (Commit env h)) (\<lambda>_. ok x))
           (\<lambda>r w. r = Inr x \<and> w_db w = d)"
  using assms by (auto simp: triple_def sees_def tx_at_def run_Commit_calm)

lemma calm_row_order: "triple (sees h d0 d) (row_order env) (\<lambda>_. sees h d0 d)"
  by (simp add: triple_def run_row_order)

lemma calm_time_now: "triple (sees h d0 d) (time_now env) (\<lambda>_. sees h d0 d)"
  by (simp add: triple_def sees_def tx_at_def run_time_now)

text \<open>The transaction sees some state with the property \<open>S\<close>, and its steps succeed.\<close>

definition sees_some :: "nat \<Rightarrow> 'db \<Rightarrow> ('db \<Rightarrow> bool) \<Rightarrow> 'db world \<Rightarrow> bool" where
  "sees_some h d0 S w \<longleftrightarrow> (\<exists>d. sees h d0 d w \<and> S d)"

definition succeeds :: "('db world \<Rightarrow> bool) \<Rightarrow> 'a result \<Rightarrow> 'db world \<Rightarrow> bool" where
  "succeeds P r w \<longleftrightarrow> is_ok r \<and> P w"

lemma succeeds_simps [simp]: "succeeds P (Inr x) w \<longleftrightarrow> P w" "\<not> succeeds P (Inl e) w"
  by (simp_all add: succeeds_def)

lemma calm_exec_some:
  assumes "calm env" and "\<And>d. S d \<Longrightarrow> \<exists>d' x. st d = Inr (d', x) \<and> S' d'"
  shows "triple (sees_some h d0 S) (exec_tx env h st) (succeeds (sees_some h d0 S'))"
proof (rule tripleI)
  fix w assume "sees_some h d0 S w"
  then obtain d where d: "sees h d0 d w" "S d" by (auto simp: sees_some_def)
  with assms(2) obtain d' x where st: "st d = Inr (d', x)" "S' d'" by blast
  obtain r w' where run: "run_state (exec_tx env h st) w = (r, w')" by force
  from tripleD [OF calm_exec_tx [where st = st and d = d, OF assms(1) st(1)] d(1) run] st(2) run
  show "case run_state (exec_tx env h st) w of (r, w') \<Rightarrow> succeeds (sees_some h d0 S') r w'"
    by (auto simp: sees_some_def)
qed

lemma calm_exec_some_error:
  assumes "calm env" and "\<And>d. S d \<Longrightarrow> st d = Inl e"
  shows "triple (sees_some h d0 S) (bindE (wrapE msg (exec_tx env h st)) k)
           (\<lambda>r w. r = Inl (Wrapped msg e) \<and> w_db w = d0)"
  using assms by (auto simp: triple_def sees_some_def sees_def tx_at_def run_exec_tx_calm)

lemma calm_step_some:
  assumes "triple P m (succeeds P')" and "\<And>x. triple P' (k x) Q"
  shows "triple P (bindE (wrapE msg m) k) Q"
  using assms by (fastforce simp: triple_def split: prod.splits sum.splits)

lemma calm_forE_some:
  assumes "\<And>k. k < length xs \<Longrightarrow> triple (P k) (f (xs ! k)) (succeeds (P (Suc k)))"
  shows "triple (P 0) (forE f xs) (succeeds (P (length xs)))"
proof -
  have *: "succeeds P = (\<lambda>r w. case r of Inl _ \<Rightarrow> False | Inr _ \<Rightarrow> P w)" for P :: "'d world \<Rightarrow> bool"
    by (auto simp: fun_eq_iff split: sum.splits)
  show ?thesis
    unfolding * by (rule triple_forE [where Q = "\<lambda>_ _. False"]) (use assms in \<open>simp add: *\<close>)
qed

lemma calm_commit_some:
  assumes "calm env"
  shows "triple (sees_some h d0 S) (bindE (wrapE msg (Commit env h)) (\<lambda>_. ok x))
           (\<lambda>r w. r = Inr x \<and> S (w_db w))"
  using assms by (auto simp: triple_def sees_some_def sees_def tx_at_def run_Commit_calm)

subsection \<open>Triples for local steps and queries\<close>

lemma triple_for_map:
  assumes "\<And>x. x \<in> set xs \<Longrightarrow> triple P (f x) (\<lambda>y w. P w \<and> S x y)"
  shows "triple P (for_map f xs) (\<lambda>ys w. P w \<and> list_all2 S xs ys)"
  using assms
proof (induction xs)
  case (Cons x xs)
  show ?case
  proof (simp, rule triple_bind [OF Cons.prems], simp,
      rule triple_bind [where R = "\<lambda>ys w. P w \<and> list_all2 S xs ys \<and> S x y" for y])
    show "triple (\<lambda>w. P w \<and> S x y) (for_map f xs) (\<lambda>ys w. P w \<and> list_all2 S xs ys \<and> S x y)" for y
      using Cons by (fastforce simp: triple_def)
  qed (simp add: triple_def)
qed (simp add: triple_def)

lemma triple_db_local:
  fixes m :: "('db, 'a) io"
  assumes "\<And>w :: 'db world. w_db (snd (run_state m w)) = w_db w"
  shows "triple (\<lambda>w. P (w_db w)) m (\<lambda>_ w. P (w_db w))"
proof (rule tripleI)
  fix w :: "'db world" assume "P (w_db w)"
  with assms [of w] show "case run_state m w of (_, w) \<Rightarrow> P (w_db w)"
    by (cases "run_state m w") simp
qed

lemma triple_new_uuid: "triple (\<lambda>w. P (w_db w)) (new_uuid env) (\<lambda>_ w. P (w_db w))"
  by (rule triple_db_local) (simp add: run_new_uuid)

lemma triple_now: "triple (\<lambda>w. P (w_db w)) (time_now env) (\<lambda>_ w. P (w_db w))"
  by (rule triple_db_local) (simp add: run_time_now)

lemma triple_GetContext:
  assumes "rely (preserves I) env"
  shows "triple (\<lambda>w. I (w_db w)) (GetContext env q) (\<lambda>_ w. I (w_db w))"
  using rely_preservesD [OF assms]
  by (auto simp: triple_def GetContext_def exec_db_def run_next_tick interfere_def or_same_def
      split: option.splits fault.splits sum.splits)

lemma first_row_filter:
  "first_row (Inr (filter P xs)) = (case find P xs of None \<Rightarrow> Inl ErrNoRows | Some r \<Rightarrow> Inr r)"
  by (induction xs) simp_all

subsection \<open>Column types\<close>

text \<open>
  A string of printable ASCII characters that fits a \<open>VARCHAR\<close> column is stored as it is. The
  literals of the source are such strings; of other strings (a NUL byte or an invalid encoding
  is rejected) nothing is assumed here, and a theorem that stores one says what it needs of it.
\<close>

definition plain_text :: "string \<Rightarrow> bool" where
  "plain_text s \<longleftrightarrow> list_all (\<lambda>c. 32 \<le> (of_char c :: nat) \<and> (of_char c :: nat) < 127) s"

definition varchar_keeps :: "pg_types \<Rightarrow> bool" where
  "varchar_keeps pg \<longleftrightarrow> (\<forall>n s. length s \<le> n \<and> plain_text s \<longrightarrow> pg_varchar pg n s = Some s)"

lemma varchar_plain:
  "varchar_keeps pg \<Longrightarrow> length s \<le> n \<Longrightarrow> plain_text s \<Longrightarrow> pg_varchar pg n s = Some s"
  by (simp add: varchar_keeps_def)

subsection \<open>An environment in which nothing goes wrong\<close>

text \<open>
  Used by the examples: round trips succeed, no other client runs, the column types keep every
  value that fits, the broker follows the documented rule of kafka-go (the topic is given
  either by the writer or by the message).
\<close>

definition ideal_pg :: pg_types where
  "ideal_pg = \<lparr>pg_uuid = Some, pg_varchar = (\<lambda>n s. if length s \<le> n then Some s else None),
     pg_char = (\<lambda>n s. if length s \<le> n then Some s else None), pg_decimal = Some,
     pg_timestamptz = (\<lambda>t. t), pg_jsonb = Some\<rparr>"

definition ideal_env :: "'db env" where
  "ideal_env = \<lparr>e_uuid = (\<lambda>n. replicate n (CHR ''x'')), e_now = int, e_fault = (\<lambda>_. None),
     e_others = (\<lambda>_ d. d), e_done = (\<lambda>_. False), e_writer_ok = (\<lambda>w m. (w = '''') \<noteq> (m = '''')),
     e_trace = (\<lambda>_. []), e_rank = (\<lambda>_ _. 0), e_pg = ideal_pg\<rparr>"

definition idle :: "'db \<Rightarrow> 'db world" where
  "idle d = \<lparr>w_tick = 0, w_db = d, w_txs = (\<lambda>_. None), w_redis = (\<lambda>_. None), w_sent = [],
     w_metrics = (\<lambda>_. 0)\<rparr>"

lemma ideal_env_sel [simp]:
  "e_uuid ideal_env n = replicate n (CHR ''x'')" "e_now ideal_env n = int n"
  "e_fault ideal_env n = None" "e_others ideal_env n d = d" "e_done ideal_env n = False"
  "e_writer_ok ideal_env wt mt \<longleftrightarrow> (wt = '''') \<noteq> (mt = '''')" "e_trace ideal_env n = []" "e_rank ideal_env n s = 0"
  "e_pg ideal_env = ideal_pg"
  by (simp_all add: ideal_env_def)

lemma ideal_pg_sel [simp]:
  "pg_uuid ideal_pg s = Some s" "pg_decimal ideal_pg f = Some f"
  "pg_varchar ideal_pg n s = (if length s \<le> n then Some s else None)"
  "pg_char ideal_pg n s = (if length s \<le> n then Some s else None)"
  "pg_timestamptz ideal_pg t = t" "pg_jsonb ideal_pg j = Some j"
  by (simp_all add: ideal_pg_def)

lemma idle_sel [simp]:
  "w_tick (idle d) = 0" "w_db (idle d) = d" "w_txs (idle d) h = None" "w_redis (idle d) k = None"
  "w_sent (idle d) = []" "w_metrics (idle d) m = 0"
  by (simp_all add: idle_def)

lemma idle_txs [simp]: "w_txs (idle d) = (\<lambda>_. None)"
  by (simp add: idle_def)

lemma calm_ideal [simp]: "calm ideal_env"
  by (simp add: calm_def)

lemma varchar_keeps_ideal [simp]: "varchar_keeps ideal_pg"
  by (simp add: varchar_keeps_def)

lemma logs_in_idle [simp]: "logs_in R (idle d)"
  by (simp add: logs_in_def)

lemma rely_calm: "db_guarantee R \<Longrightarrow> calm env \<Longrightarrow> rely R env"
  by (simp add: rely_def db_guarantee_def)

subsection \<open>Round trips to the database send no message\<close>

lemma keeps_row_order [keeps_intros]: "keeps P (row_order env)"
  by (simp add: keeps_def run_row_order)

lemma keeps_sent_db [keeps_intros]:
  "keeps (\<lambda>w. P (w_sent w)) next_tick" "keeps (\<lambda>w. P (w_sent w)) (new_uuid env)"
  "keeps (\<lambda>w. P (w_sent w)) (time_now env)" "keeps (\<lambda>w. P (w_sent w)) (metric_add m i)"
  "keeps (\<lambda>w. P (w_sent w)) (exec_db env st)" "keeps (\<lambda>w. P (w_sent w)) (BeginTxx env)"
  "keeps (\<lambda>w. P (w_sent w)) (exec_tx env h st)" "keeps (\<lambda>w. P (w_sent w)) (Commit env h)"
  "keeps (\<lambda>w. P (w_sent w)) (Rollback h)" "keeps (\<lambda>w. P (w_sent w)) (execute env tx st)"
  by (auto simp: keeps_def io_defs Let_def split: option.splits fault.splits sum.splits)

lemma triple_keeps: "keeps P m \<Longrightarrow> triple P m (\<lambda>_. P)"
  by (fastforce simp: triple_def keeps_def)

text \<open>Nor do they touch Redis.\<close>

lemma keeps_redis_db [keeps_intros]:
  "keeps (\<lambda>w. P (w_redis w)) next_tick" "keeps (\<lambda>w. P (w_redis w)) (new_uuid env)"
  "keeps (\<lambda>w. P (w_redis w)) (time_now env)" "keeps (\<lambda>w. P (w_redis w)) (metric_add m i)"
  "keeps (\<lambda>w. P (w_redis w)) (exec_db env st)" "keeps (\<lambda>w. P (w_redis w)) (BeginTxx env)"
  "keeps (\<lambda>w. P (w_redis w)) (exec_tx env h st)" "keeps (\<lambda>w. P (w_redis w)) (Commit env h)"
  "keeps (\<lambda>w. P (w_redis w)) (Rollback h)" "keeps (\<lambda>w. P (w_redis w)) (execute env tx st)"
  by (auto simp: keeps_def io_defs Let_def split: option.splits fault.splits sum.splits)

subsection \<open>Guarantees as triples\<close>

text \<open>The invariant holds of the committed state and every open transaction will keep it.\<close>

definition held :: "('db \<Rightarrow> bool) \<Rightarrow> 'db world \<Rightarrow> bool" where
  "held I w \<longleftrightarrow> I (w_db w) \<and> logs_in (preserves I) w"

lemma heldD: "held I w \<Longrightarrow> I (w_db w)"
  by (simp add: held_def)

lemma triple_safe: "safe (preserves I) m \<Longrightarrow> triple (held I) m (\<lambda>_. held I)"
  by (fastforce simp: triple_def held_def safe_def preserves_def split: prod.splits)

lemma triple_held_bind:
  "triple (held I) m (\<lambda>_. held I) \<Longrightarrow> (\<And>x. triple (held I) (k x) (\<lambda>_. held I)) \<Longrightarrow>
     triple (held I) (State_Monad.bind m k) (\<lambda>_. held I)"
  by (rule triple_bind)

lemma triple_held_bindE:
  "triple (held I) m (\<lambda>_. held I) \<Longrightarrow> (\<And>x. triple (held I) (k x) (\<lambda>_. held I)) \<Longrightarrow>
     triple (held I) (bindE m k) (\<lambda>_. held I)"
  unfolding bindE_def by (intro triple_held_bind) (auto split: sum.splits intro: triple_ret)

lemma triple_held_forE:
  "(\<And>x. triple (held I) (f x) (\<lambda>_. held I)) \<Longrightarrow> triple (held I) (forE f xs) (\<lambda>_. held I)"
  by (induction xs) (auto intro: triple_ret triple_held_bindE)

text \<open>What a query returns satisfies what every state with the invariant satisfies.\<close>

lemma triple_query:
  assumes "rely (preserves I) env" and "\<And>d x. I d \<Longrightarrow> first_row (q d) = Inr x \<Longrightarrow> P x"
  shows "triple (held I) (GetContext env q) (\<lambda>r w. held I w \<and> (\<forall>x. r = Inr x \<longrightarrow> P x))"
proof (rule tripleI)
  fix w assume w: "held I w"
  have I: "I (e_others env n (w_db w))" for n
    using w rely_preservesD [OF assms(1)] by (auto simp: held_def)
  show "case run_state (GetContext env q) w of (r, w) \<Rightarrow> held I w \<and> (\<forall>x. r = Inr x \<longrightarrow> P x)"
    using w I assms(2)
    by (auto simp: GetContext_def exec_db_def run_next_tick interfere_def held_def logs_in_def or_same_def
        split: option.splits fault.splits sum.splits)
qed

lemma triple_loop: "(\<And>x. x \<in> set xs \<Longrightarrow> triple P (f x) (\<lambda>_. P)) \<Longrightarrow> triple P (for_each f xs) (\<lambda>_. P)"
  by (induction xs) (auto intro: triple_bind triple_ret)

lemma exec_db_ok:
  "run_state (exec_db env st) w = (Inr x, w') \<Longrightarrow> \<exists>n. st (e_others env n (w_db w)) = Inr (w_db w', x)"
  by (auto simp: exec_db_def run_next_tick interfere_def split: option.splits fault.splits sum.splits)

subsection \<open>Statements beside an open transaction\<close>

text \<open>A transaction that has executed nothing yet; statements on the database do not concern it.\<close>

definition fresh_tx :: "nat \<Rightarrow> 'db \<Rightarrow> 'db world \<Rightarrow> bool" where
  "fresh_tx h d w \<longleftrightarrow> w_db w = d \<and> tx_at h [] w"

lemma fresh_tx_sees: "fresh_tx h d w \<Longrightarrow> sees h d d w"
  by (auto simp: fresh_tx_def sees_def)

lemma calm_tx_open:
  assumes "calm env" and "\<And>h. triple (fresh_tx h d0) (body h) (\<lambda>r w. Q r (w_db w))"
  shows "triple (\<lambda>w. w_db w = d0)
           (bindE (wrapE msg (BeginTxx env)) (\<lambda>h. deferred (Rollback h) (body h)))
           (\<lambda>r w. Q r (w_db w))"
proof (rule triple_bindE [where R = "\<lambda>h. fresh_tx h d0"])
  show "triple (\<lambda>w. w_db w = d0) (wrapE msg (BeginTxx env))
      (\<lambda>r w. case r of Inl e \<Rightarrow> Q (Inl e) (w_db w) | Inr h \<Rightarrow> fresh_tx h d0 w)"
    using assms(1) by (simp add: triple_def run_BeginTxx_calm fresh_tx_def tx_at_def)
  show "triple (fresh_tx h d0) (deferred (Rollback h) (body h)) (\<lambda>r w. Q r (w_db w))" for h
    by (rule triple_Rollback_after [OF assms(2)])
qed

lemma calm_exec_beside:
  assumes "calm env" and "st d = Inr (d', x)"
  shows "triple (fresh_tx h d) (exec_db env st) (\<lambda>r w. r = Inr x \<and> fresh_tx h d' w)"
  using assms by (auto simp: triple_def fresh_tx_def tx_at_def run_exec_db_calm)

lemma fresh_tx_tick [simp]: "fresh_tx h d (w\<lparr>w_tick := t\<rparr>) = fresh_tx h d w"
  by (simp add: fresh_tx_def tx_at_def)

lemma sees_tick [simp]: "sees h d0 d (w\<lparr>w_tick := t\<rparr>) = sees h d0 d w"
  by (simp add: sees_def tx_at_def)

end
