(* ===== verification/Order_Repo.thy ===== *)
theory Order_Repo
  imports Order_Domain Platform_Logic
begin

text \<open>
  The order database and its repositories (\<^verbatim>\<open>internal/order/adapter/postgres\<close>). A table is
  the list of its rows in insertion order; a SQL statement of the source is a function on the
  tables that checks what the schema in \<^verbatim>\<open>migrations/order/01-init.sql\<close> checks: the
  conversion of every literal to its column type, primary keys, the unique idempotency key,
  the foreign key from items to orders. The interfaces of \<^verbatim>\<open>domain/repository.go\<close> are
  records of operations, since the use cases run on whatever implementation they are given.
\<close>

subsection \<open>Rows and tables\<close>

record orderRow =
  or_id :: string
  or_customer_id :: string
  or_status :: string
  or_currency :: string
  or_subtotal :: float64
  or_discount_amount :: float64
  or_shipping_fee :: float64
  or_tax_amount :: float64
  or_total_amount :: float64
  or_shipping_address :: json
  or_idempotency_key :: "string option"
  or_created_at :: int
  or_updated_at :: int

record orderItemRow =
  ir_id :: string
  ir_order_id :: string
  ir_product_id :: string
  ir_sku :: string
  ir_product_name :: string
  ir_quantity :: int
  ir_unit_price :: float64
  ir_discount_amount :: float64
  ir_total_amount :: float64
  ir_created_at :: int

record outboxEventRow =
  er_id :: string
  er_aggregate_type :: string
  er_aggregate_id :: string
  er_event_type :: string
  er_payload :: json
  er_status :: string
  er_created_at :: int
  er_published_at :: "int option"

record order_db =
  t_orders :: "orderRow list"
  t_order_items :: "orderItemRow list"
  t_outbox_events :: "outboxEventRow list"

subsection \<open>The interfaces (domain/repository.go)\<close>

record OrderRepository =
  OrderRepository_Create :: "Order \<Rightarrow> (order_db, unit) ioe"
  OrderRepository_CreateInTx :: "nat option \<Rightarrow> Order \<Rightarrow> (order_db, unit) ioe"
  OrderRepository_GetByID :: "string \<Rightarrow> (order_db, Order) ioe"
  OrderRepository_GetByIDempotencyKey :: "string \<Rightarrow> (order_db, Order) ioe"
  OrderRepository_List :: "string \<Rightarrow> int \<Rightarrow> int \<Rightarrow> (order_db, Order list \<times> int) ioe"
  OrderRepository_UpdateStatus :: "string \<Rightarrow> OrderStatus \<Rightarrow> (order_db, unit) ioe"
  OrderRepository_UpdateStatusInTx :: "nat option \<Rightarrow> string \<Rightarrow> OrderStatus \<Rightarrow> (order_db, unit) ioe"

record OrderItemRepository =
  OrderItemRepository_Create :: "OrderItem list \<Rightarrow> (order_db, unit) ioe"
  OrderItemRepository_CreateInTx :: "nat option \<Rightarrow> OrderItem list \<Rightarrow> (order_db, unit) ioe"
  OrderItemRepository_GetByOrderID :: "string \<Rightarrow> (order_db, OrderItem list) ioe"

record OutboxRepository =
  OutboxRepository_Create :: "OutboxEvent \<Rightarrow> (order_db, unit) ioe"
  OutboxRepository_CreateInTx :: "nat option \<Rightarrow> OutboxEvent \<Rightarrow> (order_db, unit) ioe"
  OutboxRepository_GetPending :: "int \<Rightarrow> (order_db, OutboxEvent list) ioe"
  OutboxRepository_ClaimBatch :: "int \<Rightarrow> (order_db, OutboxEvent list) ioe"
  OutboxRepository_MarkPublished :: "string \<Rightarrow> (order_db, unit) ioe"
  OutboxRepository_MarkFailed :: "string \<Rightarrow> (order_db, unit) ioe"

subsection \<open>Orders\<close>

definition order_row :: "pg_types \<Rightarrow> Order \<Rightarrow> orderRow option" where
  "order_row pg ord = do {
     i \<leftarrow> pg_uuid pg (o_id ord);
     c \<leftarrow> pg_uuid pg (o_customer_id ord);
     s \<leftarrow> pg_varchar pg 30 (o_status ord);
     cur \<leftarrow> pg_char pg 3 (o_currency ord);
     sub \<leftarrow> pg_decimal pg (o_subtotal ord);
     disc \<leftarrow> pg_decimal pg (o_discount_amount ord);
     fee \<leftarrow> pg_decimal pg (o_shipping_fee ord);
     tax \<leftarrow> pg_decimal pg (o_tax_amount ord);
     tot \<leftarrow> pg_decimal pg (o_total_amount ord);
     key \<leftarrow> pg_varchar pg 100 (o_idempotency_key ord);
     addr \<leftarrow> pg_jsonb pg (enc_Address (o_shipping_address ord));
     Some \<lparr>or_id = i, or_customer_id = c, or_status = s, or_currency = cur, or_subtotal = sub,
       or_discount_amount = disc, or_shipping_fee = fee, or_tax_amount = tax, or_total_amount = tot,
       or_shipping_address = addr,
       or_idempotency_key = Some key,
       or_created_at = pg_timestamptz pg (o_created_at ord),
       or_updated_at = pg_timestamptz pg (o_updated_at ord)\<rparr>
   }"

definition insert_order :: "pg_types \<Rightarrow> Order \<Rightarrow> (order_db, unit) stmt" where
  "insert_order pg ord d =
     (case order_row pg ord of
        None \<Rightarrow> Inl pq_invalid
      | Some r \<Rightarrow>
          (if list_ex (\<lambda>q. or_id q = or_id r \<or>
                           or_idempotency_key q = or_idempotency_key r) (t_orders d)
           then Inl pq_duplicate
           else Inr (d\<lparr>t_orders := t_orders d @ [r]\<rparr>, ())))"

text \<open>Marshalling the address cannot fail: it has string fields only.\<close>

definition orderRepository_CreateInTx ::
  "order_db env \<Rightarrow> nat option \<Rightarrow> Order \<Rightarrow> (order_db, unit) ioe" where
  "orderRepository_CreateInTx env tx ord = execute env tx (insert_order (e_pg env) ord)"

definition orderRepository_Create :: "order_db env \<Rightarrow> Order \<Rightarrow> (order_db, unit) ioe" where
  "orderRepository_Create env ord = orderRepository_CreateInTx env None ord"

definition rowToOrder :: "orderRow \<Rightarrow> Order" where
  "rowToOrder r = \<lparr>o_id = or_id r, o_customer_id = or_customer_id r, o_status = or_status r,
     o_currency = or_currency r, o_subtotal = or_subtotal r, o_discount_amount = or_discount_amount r,
     o_shipping_fee = or_shipping_fee r, o_tax_amount = or_tax_amount r,
     o_total_amount = or_total_amount r,
     o_shipping_address = fill_struct Address_fields zero_Address (or_shipping_address r),
     o_items = [], o_idempotency_key = '''',
     o_created_at = or_created_at r, o_updated_at = or_updated_at r\<rparr>"

definition select_order_by_id :: "pg_types \<Rightarrow> string \<Rightarrow> order_db \<Rightarrow> orderRow list result" where
  "select_order_by_id pg oid d =
     (case pg_uuid pg oid of
        None \<Rightarrow> Inl pq_invalid
      | Some i \<Rightarrow> Inr (filter (\<lambda>r. or_id r = i) (t_orders d)))"

definition orderRepository_GetByID :: "order_db env \<Rightarrow> string \<Rightarrow> (order_db, Order) ioe" where
  "orderRepository_GetByID env oid = do {
     r \<leftarrow> GetContext env (select_order_by_id (e_pg env) oid);
     ret (map_sum id rowToOrder (not_found_as ErrOrderNotFound r))
   }"

text \<open>A parameter compared with a \<open>VARCHAR\<close> column is plain text: no length check.\<close>

definition select_order_by_key :: "string \<Rightarrow> order_db \<Rightarrow> orderRow list result" where
  "select_order_by_key key d =
     Inr (filter (\<lambda>r. or_idempotency_key r = Some key) (t_orders d))"

definition orderRepository_GetByIDempotencyKey ::
  "order_db env \<Rightarrow> string \<Rightarrow> (order_db, Order) ioe" where
  "orderRepository_GetByIDempotencyKey env key = do {
     r \<leftarrow> GetContext env (select_order_by_key key);
     ret (map_sum id rowToOrder (not_found_as ErrOrderNotFound r))
   }"

definition matching_orders :: "pg_types \<Rightarrow> string \<Rightarrow> order_db \<Rightarrow> orderRow list result" where
  "matching_orders pg customerID d =
     (if customerID = '''' then Inr (t_orders d)
      else (case pg_uuid pg customerID of
              None \<Rightarrow> Inl pq_invalid
            | Some c \<Rightarrow> Inr (filter (\<lambda>r. or_customer_id r = c) (t_orders d))))"

definition page_of :: "int \<Rightarrow> int \<Rightarrow> 'a list \<Rightarrow> 'a list result" where
  "page_of limit offset rs =
     (if limit < 0 \<or> offset < 0 then Inl pq_negative
      else Inr (take (nat limit) (drop (nat offset) rs)))"

definition count_orders :: "pg_types \<Rightarrow> string \<Rightarrow> order_db \<Rightarrow> int list result" where
  "count_orders pg customerID d =
     map_sum id (\<lambda>rs. [int (length rs)]) (matching_orders pg customerID d)"

text \<open>\<open>ORDER BY created_at DESC\<close>: rows of the same time come in the order \<open>rank\<close> of the server.\<close>

definition select_orders ::
  "(string \<Rightarrow> int) \<Rightarrow> pg_types \<Rightarrow> string \<Rightarrow> int \<Rightarrow> int \<Rightarrow> order_db \<Rightarrow> orderRow list result" where
  "select_orders rank pg customerID limit offset d =
     (case matching_orders pg customerID d of
        Inl e \<Rightarrow> Inl e
      | Inr rs \<Rightarrow> page_of limit offset
          (sort_key (\<lambda>r. - or_created_at r) (sort_key (\<lambda>r. rank (or_id r)) rs)))"

definition orderRepository_List ::
  "order_db env \<Rightarrow> string \<Rightarrow> int \<Rightarrow> int \<Rightarrow> (order_db, Order list \<times> int) ioe" where
  "orderRepository_List env customerID limit offset =
     bindE (GetContext env (count_orders (e_pg env) customerID)) (\<lambda>count. do {
       rank \<leftarrow> row_order env;
       bindE (SelectContext env (select_orders rank (e_pg env) customerID limit offset)) (\<lambda>rows.
       ok (map rowToOrder rows, count))
     })"

definition update_order_status ::
  "pg_types \<Rightarrow> string \<Rightarrow> OrderStatus \<Rightarrow> int \<Rightarrow> (order_db, unit) stmt" where
  "update_order_status pg oid status now d =
     (case (pg_varchar pg 30 status, pg_uuid pg oid) of
        (Some s, Some i) \<Rightarrow>
          Inr (d\<lparr>t_orders := map (\<lambda>r. if or_id r = i
                   then r\<lparr>or_status := s, or_updated_at := pg_timestamptz pg now\<rparr> else r)
                 (t_orders d)\<rparr>, ())
      | _ \<Rightarrow> Inl pq_invalid)"

definition orderRepository_UpdateStatusInTx ::
  "order_db env \<Rightarrow> nat option \<Rightarrow> string \<Rightarrow> OrderStatus \<Rightarrow> (order_db, unit) ioe" where
  "orderRepository_UpdateStatusInTx env tx oid status = do {
     now \<leftarrow> time_now env;
     execute env tx (update_order_status (e_pg env) oid status now)
   }"

definition orderRepository_UpdateStatus ::
  "order_db env \<Rightarrow> string \<Rightarrow> OrderStatus \<Rightarrow> (order_db, unit) ioe" where
  "orderRepository_UpdateStatus env oid status =
     orderRepository_UpdateStatusInTx env None oid status"

subsection \<open>Order items\<close>

definition order_item_row :: "pg_types \<Rightarrow> OrderItem \<Rightarrow> int \<Rightarrow> orderItemRow option" where
  "order_item_row pg item now = do {
     i \<leftarrow> pg_uuid pg (oi_id item);
     ord \<leftarrow> pg_uuid pg (oi_order_id item);
     p \<leftarrow> pg_uuid pg (oi_product_id item);
     s \<leftarrow> pg_varchar pg 100 (oi_sku item);
     n \<leftarrow> pg_varchar pg 255 (oi_product_name item);
     q \<leftarrow> int4 (oi_quantity item);
     u \<leftarrow> pg_decimal pg (oi_unit_price item);
     disc \<leftarrow> pg_decimal pg (Fin 0);
     t \<leftarrow> pg_decimal pg (oi_total_price item);
     Some \<lparr>ir_id = i, ir_order_id = ord, ir_product_id = p, ir_sku = s, ir_product_name = n,
       ir_quantity = q, ir_unit_price = u, ir_discount_amount = disc, ir_total_amount = t,
       ir_created_at = pg_timestamptz pg now\<rparr>
   }"

definition insert_order_item :: "pg_types \<Rightarrow> OrderItem \<Rightarrow> int \<Rightarrow> (order_db, unit) stmt" where
  "insert_order_item pg item now d =
     (case order_item_row pg item now of
        None \<Rightarrow> Inl pq_invalid
      | Some r \<Rightarrow>
          (if list_ex (\<lambda>q. ir_id q = ir_id r) (t_order_items d) then Inl pq_duplicate
           else if \<not> list_ex (\<lambda>ord. or_id ord = ir_order_id r) (t_orders d) then Inl pq_foreign_key
           else Inr (d\<lparr>t_order_items := t_order_items d @ [r]\<rparr>, ())))"

definition orderItemRepository_CreateInTx ::
  "order_db env \<Rightarrow> nat option \<Rightarrow> OrderItem list \<Rightarrow> (order_db, unit) ioe" where
  "orderItemRepository_CreateInTx env tx items =
     forE (\<lambda>item. do {
       now \<leftarrow> time_now env;
       execute env tx (insert_order_item (e_pg env) item now)
     }) items"

definition orderItemRepository_Create ::
  "order_db env \<Rightarrow> OrderItem list \<Rightarrow> (order_db, unit) ioe" where
  "orderItemRepository_Create env items = orderItemRepository_CreateInTx env None items"

definition row_to_item :: "orderItemRow \<Rightarrow> OrderItem" where
  "row_to_item r = \<lparr>oi_id = ir_id r, oi_order_id = ir_order_id r, oi_product_id = ir_product_id r,
     oi_sku = ir_sku r, oi_product_name = ir_product_name r, oi_quantity = ir_quantity r,
     oi_unit_price = ir_unit_price r, oi_total_price = ir_total_amount r\<rparr>"

definition select_items :: "pg_types \<Rightarrow> string \<Rightarrow> order_db \<Rightarrow> orderItemRow list result" where
  "select_items pg orderID d =
     (case pg_uuid pg orderID of
        None \<Rightarrow> Inl pq_invalid
      | Some i \<Rightarrow> Inr (filter (\<lambda>r. ir_order_id r = i) (t_order_items d)))"

definition orderItemRepository_GetByOrderID ::
  "order_db env \<Rightarrow> string \<Rightarrow> (order_db, OrderItem list) ioe" where
  "orderItemRepository_GetByOrderID env orderID =
     bindE (SelectContext env (select_items (e_pg env) orderID)) (\<lambda>rows. ok (map row_to_item rows))"

subsection \<open>The outbox\<close>

definition outbox_row :: "pg_types \<Rightarrow> OutboxEvent \<Rightarrow> outboxEventRow option" where
  "outbox_row pg ev = do {
     i \<leftarrow> pg_uuid pg (ev_id ev);
     aty \<leftarrow> pg_varchar pg 50 (ev_aggregate_type ev);
     ai \<leftarrow> pg_uuid pg (ev_aggregate_id ev);
     et \<leftarrow> pg_varchar pg 100 (ev_event_type ev);
     p \<leftarrow> Option.bind (ev_payload ev) (pg_jsonb pg);
     s \<leftarrow> pg_varchar pg 20 (ev_status ev);
     Some \<lparr>er_id = i, er_aggregate_type = aty, er_aggregate_id = ai, er_event_type = et,
       er_payload = p, er_status = s, er_created_at = ev_created_at ev,
       er_published_at = None\<rparr>
   }"

text \<open>The server accepts a payload as JSONB (it rejects, for instance, an escaped NUL character).\<close>

definition payload_accepted :: "pg_types \<Rightarrow> json_text \<Rightarrow> bool" where
  "payload_accepted pg payload \<longleftrightarrow> (case payload of None \<Rightarrow> False | Some v \<Rightarrow> pg_jsonb pg v \<noteq> None)"

text \<open>The literals the order service stores.\<close>

lemma varchar_literals:
  assumes "varchar_keeps pg"
  shows "pg_varchar pg 50 ''order'' = Some ''order''" "pg_varchar pg 20 ''PENDING'' = Some ''PENDING''"
    "pg_varchar pg 100 ''order.created'' = Some ''order.created''"
    "pg_varchar pg 100 ''order.cancelled'' = Some ''order.cancelled''"
    "pg_varchar pg 100 ''order.confirmed'' = Some ''order.confirmed''"
    "pg_varchar pg 30 StatusPendingPayment = Some StatusPendingPayment"
    "pg_varchar pg 30 StatusCancelled = Some StatusCancelled"
    "pg_varchar pg 30 StatusProcessing = Some StatusProcessing"
  by (rule varchar_plain [OF assms]; simp add: plain_text_def status_defs)+

definition insert_outbox :: "pg_types \<Rightarrow> OutboxEvent \<Rightarrow> (order_db, unit) stmt" where
  "insert_outbox pg ev d =
     (case outbox_row pg ev of
        None \<Rightarrow> Inl pq_invalid
      | Some r \<Rightarrow>
          (if list_ex (\<lambda>q. er_id q = er_id r) (t_outbox_events d) then Inl pq_duplicate
           else Inr (d\<lparr>t_outbox_events := t_outbox_events d @ [r]\<rparr>, ())))"

definition outboxRepository_CreateInTx ::
  "order_db env \<Rightarrow> nat option \<Rightarrow> OutboxEvent \<Rightarrow> (order_db, unit) ioe" where
  "outboxRepository_CreateInTx env tx ev = execute env tx (insert_outbox (e_pg env) ev)"

definition outboxRepository_Create :: "order_db env \<Rightarrow> OutboxEvent \<Rightarrow> (order_db, unit) ioe" where
  "outboxRepository_Create env ev = outboxRepository_CreateInTx env None ev"

definition row_to_event :: "outboxEventRow \<Rightarrow> OutboxEvent" where
  "row_to_event r = \<lparr>ev_id = er_id r, ev_aggregate_type = er_aggregate_type r,
     ev_aggregate_id = er_aggregate_id r, ev_event_type = er_event_type r,
     ev_payload = Some (er_payload r), ev_status = er_status r, ev_created_at = er_created_at r\<rparr>"

text \<open>
  \<open>ORDER BY created_at\<close> has a resolution of one second: events of the same second come in the
  order \<open>rank\<close> of the server.
\<close>

definition pending :: "order_db \<Rightarrow> outboxEventRow list" where
  "pending d = filter (\<lambda>r. er_status r = ''PENDING'') (t_outbox_events d)"

definition oldest_first :: "(string \<Rightarrow> int) \<Rightarrow> outboxEventRow list \<Rightarrow> outboxEventRow list" where
  "oldest_first rank rs = sort_key er_created_at (sort_key (\<lambda>r. rank (er_id r)) rs)"

definition pending_batch :: "(string \<Rightarrow> int) \<Rightarrow> int \<Rightarrow> order_db \<Rightarrow> outboxEventRow list result" where
  "pending_batch rank limit d = page_of limit 0 (oldest_first rank (pending d))"

definition outboxRepository_GetPending :: "order_db env \<Rightarrow> int \<Rightarrow> (order_db, OutboxEvent list) ioe" where
  "outboxRepository_GetPending env limit =
     do {
       rank \<leftarrow> row_order env;
       bindE (SelectContext env (pending_batch rank limit)) (\<lambda>rows. ok (map row_to_event rows))
     }"

text \<open>
  The first statement of \<open>ClaimBatch\<close>. Its \<open>FOR UPDATE SKIP LOCKED\<close> concerns other claimers
  only, which \<open>Outbox_Claims\<close> models; here other clients are seen through the environment.
\<close>

definition select_for_claim ::
  "(string \<Rightarrow> int) \<Rightarrow> int \<Rightarrow> (order_db, outboxEventRow list) stmt" where
  "select_for_claim rank limit d =
     (case pending_batch rank limit d of Inl e \<Rightarrow> Inl e | Inr rs \<Rightarrow> Inr (d, rs))"

definition set_outbox_status ::
  "(outboxEventRow \<Rightarrow> bool) \<Rightarrow> string \<Rightarrow> int option \<Rightarrow> order_db \<Rightarrow> order_db" where
  "set_outbox_status sel s pub d =
     d\<lparr>t_outbox_events := map (\<lambda>r. if sel r
          then r\<lparr>er_status := s, er_published_at := (case pub of None \<Rightarrow> er_published_at r | Some t \<Rightarrow> Some t)\<rparr>
          else r) (t_outbox_events d)\<rparr>"

definition claim_rows :: "string list \<Rightarrow> (order_db, unit) stmt" where
  "claim_rows ids d = Inr (set_outbox_status (\<lambda>r. er_id r \<in> set ids) ''CLAIMED'' None d, ())"

definition outboxRepository_ClaimBatch :: "order_db env \<Rightarrow> int \<Rightarrow> (order_db, OutboxEvent list) ioe" where
  "outboxRepository_ClaimBatch env limit =
     bindE (wrapE ''failed to begin transaction'' (BeginTxx env)) (\<lambda>tx.
     deferred (Rollback tx) (do {
       rank \<leftarrow> row_order env;
       bindE (wrapE ''failed to claim pending events'' (exec_tx env tx (select_for_claim rank limit))) (\<lambda>rows.
       if rows = [] then ok []
       else
         bindE (wrapE ''failed to mark events as claimed''
                  (exec_tx env tx (claim_rows (map er_id rows)))) (\<lambda>_.
         bindE (wrapE ''failed to commit claim transaction'' (Commit env tx)) (\<lambda>_.
         ok (map row_to_event rows))))
     }))"

definition mark_outbox :: "pg_types \<Rightarrow> string \<Rightarrow> string \<Rightarrow> int \<Rightarrow> (order_db, unit) stmt" where
  "mark_outbox pg s oid now d =
     (case pg_uuid pg oid of
        None \<Rightarrow> Inl pq_invalid
      | Some i \<Rightarrow> Inr (set_outbox_status (\<lambda>r. er_id r = i) s (Some (rfc3339 now)) d, ()))"

definition outboxRepository_MarkPublished :: "order_db env \<Rightarrow> string \<Rightarrow> (order_db, unit) ioe" where
  "outboxRepository_MarkPublished env oid = do {
     now \<leftarrow> time_now env;
     exec_db env (mark_outbox (e_pg env) ''PUBLISHED'' oid now)
   }"

definition outboxRepository_MarkFailed :: "order_db env \<Rightarrow> string \<Rightarrow> (order_db, unit) ioe" where
  "outboxRepository_MarkFailed env oid = do {
     now \<leftarrow> time_now env;
     exec_db env (mark_outbox (e_pg env) ''FAILED'' oid now)
   }"

subsection \<open>The PostgreSQL implementations\<close>

definition NewOrderRepository :: "order_db env \<Rightarrow> OrderRepository" where
  "NewOrderRepository env =
     \<lparr>OrderRepository_Create = orderRepository_Create env,
      OrderRepository_CreateInTx = orderRepository_CreateInTx env,
      OrderRepository_GetByID = orderRepository_GetByID env,
      OrderRepository_GetByIDempotencyKey = orderRepository_GetByIDempotencyKey env,
      OrderRepository_List = orderRepository_List env,
      OrderRepository_UpdateStatus = orderRepository_UpdateStatus env,
      OrderRepository_UpdateStatusInTx = orderRepository_UpdateStatusInTx env\<rparr>"

definition NewOrderItemRepository :: "order_db env \<Rightarrow> OrderItemRepository" where
  "NewOrderItemRepository env =
     \<lparr>OrderItemRepository_Create = orderItemRepository_Create env,
      OrderItemRepository_CreateInTx = orderItemRepository_CreateInTx env,
      OrderItemRepository_GetByOrderID = orderItemRepository_GetByOrderID env\<rparr>"

definition NewOutboxRepository :: "order_db env \<Rightarrow> OutboxRepository" where
  "NewOutboxRepository env =
     \<lparr>OutboxRepository_Create = outboxRepository_Create env,
      OutboxRepository_CreateInTx = outboxRepository_CreateInTx env,
      OutboxRepository_GetPending = outboxRepository_GetPending env,
      OutboxRepository_ClaimBatch = outboxRepository_ClaimBatch env,
      OutboxRepository_MarkPublished = outboxRepository_MarkPublished env,
      OutboxRepository_MarkFailed = outboxRepository_MarkFailed env\<rparr>"

end
