(* ===== verification/Redis_Cache.thy ===== *)
theory Redis_Cache
  imports Platform_Logic
begin

text \<open>
  The cache helper (\<^verbatim>\<open>pkg/cache/cache.go\<close>): JSON values in Redis under prefixed keys with a
  time to live. Redis is a map from keys to a value and the instant it expires; a round trip
  that fails leaves it unchanged or, when only the reply is lost, changed. Every operation
  swallows errors: a read that fails is a miss, a write that fails is logged.
\<close>

record Cache =
  c_prefix :: string
  c_ttl :: int

definition cache_key :: "Cache \<Rightarrow> string \<Rightarrow> string" where
  "cache_key c k = c_prefix c @ '':'' @ k"

text \<open>\<open>rdb.Get\<close>: no value when the key is absent or expired.\<close>

definition redis_live :: "(string \<Rightarrow> (json \<times> int) option) \<Rightarrow> int \<Rightarrow> string \<Rightarrow> json option" where
  "redis_live m now k =
     (case m k of None \<Rightarrow> None | Some (v, expires) \<Rightarrow> if now < expires then Some v else None)"

definition rdb_Get :: "'db env \<Rightarrow> string \<Rightarrow> ('db, json option) io" where
  "rdb_Get env k = do {
     n \<leftarrow> next_tick;
     State (\<lambda>w. (if e_fault env n = None then redis_live (w_redis w) (e_now env n) k else None, w))
   }"

definition rdb_write ::
  "'db env \<Rightarrow> (int \<Rightarrow> (string \<Rightarrow> (json \<times> int) option) \<Rightarrow> string \<Rightarrow> (json \<times> int) option)
   \<Rightarrow> ('db, unit) io" where
  "rdb_write env f = do {
     n \<leftarrow> next_tick;
     State (\<lambda>w. ((), case e_fault env n of
         Some (Lost _) \<Rightarrow> w
       | _ \<Rightarrow> w\<lparr>w_redis := f (e_now env n) (w_redis w)\<rparr>))
   }"

definition Cache_Get :: "'db env \<Rightarrow> Cache \<Rightarrow> string \<Rightarrow> 'a decoder \<Rightarrow> 'a \<Rightarrow> ('db, 'a option) io" where
  "Cache_Get env c k dec dest = do {
     v \<leftarrow> rdb_Get env (cache_key c k);
     ret (unmarshal dec dest v)
   }"

definition Cache_Set :: "'db env \<Rightarrow> Cache \<Rightarrow> string \<Rightarrow> json option \<Rightarrow> ('db, unit) io" where
  "Cache_Set env c k data =
     (case data of
        None \<Rightarrow> ret ()
      | Some v \<Rightarrow> rdb_write env (\<lambda>now m. m(cache_key c k \<mapsto> (v, now + c_ttl c))))"

definition Cache_Delete :: "'db env \<Rightarrow> Cache \<Rightarrow> string list \<Rightarrow> ('db, unit) io" where
  "Cache_Delete env c ks =
     rdb_write env (\<lambda>_ m k. if k \<in> set (map (cache_key c) ks) then None else m k)"

subsection \<open>Running the helper\<close>

lemma cache_key_inject [simp]: "cache_key c a = cache_key c b \<longleftrightarrow> a = b"
  by (simp add: cache_key_def)

lemma run_Cache_Get:
  "run_state (Cache_Get env c k dec dest) w =
     (if e_fault env (w_tick w) = None
      then unmarshal dec dest (redis_live (w_redis w) (e_now env (w_tick w)) (cache_key c k))
      else None, w\<lparr>w_tick := Suc (w_tick w)\<rparr>)"
  by (simp add: Cache_Get_def rdb_Get_def run_next_tick unmarshal_def)

lemma run_Cache_Set_calm [calm_simps]:
  "calm env \<Longrightarrow> run_state (Cache_Set env c k data) w =
     ((), case data of None \<Rightarrow> w
          | Some v \<Rightarrow> w\<lparr>w_tick := Suc (w_tick w),
              w_redis := (w_redis w)(cache_key c k \<mapsto> (v, e_now env (w_tick w) + c_ttl c))\<rparr>)"
  by (simp add: Cache_Set_def rdb_write_def run_next_tick split: option.splits)

lemma run_Cache_Delete_calm [calm_simps]:
  "calm env \<Longrightarrow> run_state (Cache_Delete env c ks) w =
     ((), w\<lparr>w_tick := Suc (w_tick w),
            w_redis := (\<lambda>k. if k \<in> set (map (cache_key c) ks) then None else w_redis w k)\<rparr>)"
  by (simp add: Cache_Delete_def rdb_write_def run_next_tick cong: if_cong)

lemma Cache_Set_frame [simp]:
  "w_db (snd (run_state (Cache_Set env c k data) w)) = w_db w"
  "w_txs (snd (run_state (Cache_Set env c k data) w)) = w_txs w"
  "w_sent (snd (run_state (Cache_Set env c k data) w)) = w_sent w"
  by (simp_all add: Cache_Set_def rdb_write_def run_next_tick split: option.splits fault.splits)

lemma Cache_Delete_frame [simp]:
  "w_db (snd (run_state (Cache_Delete env c ks) w)) = w_db w"
  "w_txs (snd (run_state (Cache_Delete env c ks) w)) = w_txs w"
  "w_sent (snd (run_state (Cache_Delete env c ks) w)) = w_sent w"
  by (simp_all add: Cache_Delete_def rdb_write_def run_next_tick split: option.splits fault.splits)

context db_guarantee
begin

lemma safe_Cache_Get [safe_intros]: "safe R (Cache_Get env c k dec dest)"
  by (rule safe_local) (simp_all add: run_Cache_Get)

lemma safe_Cache_Set [safe_intros]: "safe R (Cache_Set env c k data)"
  by (rule safe_local) simp_all

lemma safe_Cache_Delete [safe_intros]: "safe R (Cache_Delete env c ks)"
  by (rule safe_local) simp_all

end

end
