(* ===== verification/Order_Cache.thy ===== *)
theory Order_Cache
  imports Order_Repo Redis_Cache
begin

text \<open>
  The caching decorators of the order repositories (\<^verbatim>\<open>internal/order/adapter/cache\<close>): an
  \<open>OrderRepository\<close> and an \<open>OrderItemRepository\<close> built on an inner one and a cache, and the
  outbox decorator, which only delegates.
\<close>

subsection \<open>Orders\<close>

definition orderKey :: "string \<Rightarrow> string" where
  "orderKey oid = oid"

definition OrderCache_GetByID ::
  "order_db env \<Rightarrow> OrderRepository \<Rightarrow> Cache \<Rightarrow> string \<Rightarrow> (order_db, Order) ioe" where
  "OrderCache_GetByID env inner c oid = do {
     hit \<leftarrow> Cache_Get env c (orderKey oid) dec_Order zero_Order;
     case hit of
       Some ord \<Rightarrow> ok ord
     | None \<Rightarrow>
         bindE (OrderRepository_GetByID inner oid) (\<lambda>ord. do {
           _ \<leftarrow> Cache_Set env c (orderKey oid) (enc_Order ord);
           ok ord
         })
   }"

definition OrderCache_UpdateStatus ::
  "order_db env \<Rightarrow> OrderRepository \<Rightarrow> Cache \<Rightarrow> string \<Rightarrow> OrderStatus \<Rightarrow> (order_db, unit) ioe" where
  "OrderCache_UpdateStatus env inner c oid status = do {
     r \<leftarrow> OrderRepository_UpdateStatus inner oid status;
     case r of
       Inl e \<Rightarrow> fail e
     | Inr u \<Rightarrow> do { _ \<leftarrow> Cache_Delete env c [orderKey oid]; ok u }
   }"

text \<open>The remaining methods delegate, \<open>UpdateStatusInTx\<close> among them.\<close>

definition NewOrderCache :: "order_db env \<Rightarrow> OrderRepository \<Rightarrow> Cache \<Rightarrow> OrderRepository" where
  "NewOrderCache env inner c =
     \<lparr>OrderRepository_Create = OrderRepository_Create inner,
      OrderRepository_CreateInTx = OrderRepository_CreateInTx inner,
      OrderRepository_GetByID = OrderCache_GetByID env inner c,
      OrderRepository_GetByIDempotencyKey = OrderRepository_GetByIDempotencyKey inner,
      OrderRepository_List = OrderRepository_List inner,
      OrderRepository_UpdateStatus = OrderCache_UpdateStatus env inner c,
      OrderRepository_UpdateStatusInTx = OrderRepository_UpdateStatusInTx inner\<rparr>"

subsection \<open>Order items\<close>

definition orderItemsKey :: "string \<Rightarrow> string" where
  "orderItemsKey orderID = ''items:'' @ orderID"

text \<open>The loop over the items with the \<open>seen\<close> map: one key per order, in order of appearance.\<close>

fun item_keys :: "string list \<Rightarrow> OrderItem list \<Rightarrow> string list" where
  "item_keys seen [] = []"
| "item_keys seen (item # items) =
     (if oi_order_id item \<in> set seen then item_keys seen items
      else orderItemsKey (oi_order_id item) # item_keys (oi_order_id item # seen) items)"

definition OrderItemCache_Create ::
  "order_db env \<Rightarrow> OrderItemRepository \<Rightarrow> Cache \<Rightarrow> OrderItem list \<Rightarrow> (order_db, unit) ioe" where
  "OrderItemCache_Create env inner c items = do {
     r \<leftarrow> OrderItemRepository_Create inner items;
     case r of
       Inl e \<Rightarrow> fail e
     | Inr u \<Rightarrow>
         (if items = [] then ok u
          else do { _ \<leftarrow> Cache_Delete env c (item_keys [] items); ok u })
   }"

definition OrderItemCache_GetByOrderID ::
  "order_db env \<Rightarrow> OrderItemRepository \<Rightarrow> Cache \<Rightarrow> string \<Rightarrow> (order_db, OrderItem list) ioe" where
  "OrderItemCache_GetByOrderID env inner c orderID = do {
     hit \<leftarrow> Cache_Get env c (orderItemsKey orderID) dec_items [];
     case hit of
       Some items \<Rightarrow> ok items
     | None \<Rightarrow>
         bindE (OrderItemRepository_GetByOrderID inner orderID) (\<lambda>items. do {
           _ \<leftarrow> Cache_Set env c (orderItemsKey orderID) (enc_items items);
           ok items
         })
   }"

definition NewOrderItemCache ::
  "order_db env \<Rightarrow> OrderItemRepository \<Rightarrow> Cache \<Rightarrow> OrderItemRepository" where
  "NewOrderItemCache env inner c =
     \<lparr>OrderItemRepository_Create = OrderItemCache_Create env inner c,
      OrderItemRepository_CreateInTx = OrderItemRepository_CreateInTx inner,
      OrderItemRepository_GetByOrderID = OrderItemCache_GetByOrderID env inner c\<rparr>"

subsection \<open>The outbox\<close>

definition NewOutboxCache :: "OutboxRepository \<Rightarrow> OutboxRepository" where
  "NewOutboxCache inner =
     \<lparr>OutboxRepository_Create = OutboxRepository_Create inner,
      OutboxRepository_CreateInTx = OutboxRepository_CreateInTx inner,
      OutboxRepository_GetPending = OutboxRepository_GetPending inner,
      OutboxRepository_ClaimBatch = OutboxRepository_ClaimBatch inner,
      OutboxRepository_MarkPublished = OutboxRepository_MarkPublished inner,
      OutboxRepository_MarkFailed = OutboxRepository_MarkFailed inner\<rparr>"

end
