(* ===== verification/Order_UseCase.thy ===== *)
theory Order_UseCase
  imports Order_Cache
begin

text \<open>
  The order use cases (\<^verbatim>\<open>internal/order/usecase\<close>): create, get, list, cancel and confirm an
  order, over any implementation of the repository interfaces. Each writing use case opens a
  transaction, writes the business rows and the outbox event in it and commits.
\<close>

subsection \<open>Requests (usecase.go)\<close>

record OrderItemRequest =
  ri_product_id :: string
  ri_sku :: string
  ri_product_name :: string
  ri_quantity :: int
  ri_unit_price :: float64

record CreateOrderRequest =
  r_customer_id :: string
  r_currency :: string
  r_items :: "OrderItemRequest list"
  r_shipping_address :: Address
  r_idempotency_key :: string

text \<open>\<open>createOrderUseCase\<close>: the repositories it was built with.\<close>

record createOrderUseCase =
  uc_orderRepo :: OrderRepository
  uc_orderItemRepo :: OrderItemRepository
  uc_outboxRepo :: OutboxRepository

subsection \<open>CreateOrder\<close>

definition new_item :: "order_db env \<Rightarrow> string \<Rightarrow> OrderItemRequest \<Rightarrow> (order_db, OrderItem) io" where
  "new_item env orderID item = do {
     i \<leftarrow> new_uuid env;
     ret \<lparr>oi_id = i, oi_order_id = orderID, oi_product_id = ri_product_id item,
          oi_sku = ri_sku item, oi_product_name = ri_product_name item,
          oi_quantity = ri_quantity item, oi_unit_price = ri_unit_price item,
          oi_total_price = fmul (float_of_int (ri_quantity item)) (ri_unit_price item)\<rparr>
   }"

text \<open>The order the request describes, its items and its total (lines 54 to 91).\<close>

definition new_order ::
  "order_db env \<Rightarrow> CreateOrderRequest \<Rightarrow> string \<Rightarrow> (order_db, Order) io" where
  "new_order env req key = do {
     i \<leftarrow> new_uuid env;
     created \<leftarrow> time_now env;
     updated \<leftarrow> time_now env;
     items \<leftarrow> for_map (new_item env i) (r_items req);
     ret (CalculateTotal \<lparr>o_id = i, o_customer_id = r_customer_id req,
       o_status = StatusPendingPayment,
       o_currency = (if r_currency req = '''' then ''USD'' else r_currency req),
       o_subtotal = Fin 0, o_discount_amount = Fin 0, o_shipping_fee = Fin 0,
       o_tax_amount = Fin 0, o_total_amount = Fin 0,
       o_shipping_address = r_shipping_address req, o_items = items,
       o_idempotency_key = key, o_created_at = created, o_updated_at = updated\<rparr>)
   }"

text \<open>A pending event about an order; the members of a Go map are marshalled in key order.\<close>

definition new_event ::
  "order_db env \<Rightarrow> string \<Rightarrow> string \<Rightarrow> json_text \<Rightarrow> (order_db, OutboxEvent) io" where
  "new_event env orderID ty payload = do {
     i \<leftarrow> new_uuid env;
     now \<leftarrow> time_now env;
     ret \<lparr>ev_id = i, ev_aggregate_type = ''order'', ev_aggregate_id = orderID,
          ev_event_type = ty, ev_payload = payload, ev_status = ''PENDING'',
          ev_created_at = rfc3339 now\<rparr>
   }"

definition created_payload :: "Order \<Rightarrow> json_text" where
  "created_payload ord = enc_object
     [(''customer_id'', Some (JStr (o_customer_id ord))),
      (''items'', Some (JInt (int (length (o_items ord))))),
      (''order_id'', Some (JStr (o_id ord))),
      (''total'', enc_float (o_total_amount ord))]"

text \<open>
  The result of \<open>CreateOrder\<close> is a pair in Go: on a duplicate key it returns the existing
  order together with the error.
\<close>

type_synonym create_result = "Order option \<times> go_error option"

fun only_result :: "Order result \<Rightarrow> create_result" where
  "only_result (Inl e) = (None, Some e)"
| "only_result (Inr ord) = (Some ord, None)"

text \<open>Lines 107 to 131: the transaction that stores the order, its items and its event.\<close>

definition store_order ::
  "order_db env \<Rightarrow> createOrderUseCase \<Rightarrow> Order \<Rightarrow> OutboxEvent \<Rightarrow> (order_db, Order) ioe" where
  "store_order env uc ord ev =
     bindE (wrapE ''failed to begin transaction'' (BeginTxx env)) (\<lambda>tx.
     deferred (Rollback tx) (
       bindE (wrapE ''failed to create order''
                (OrderRepository_CreateInTx (uc_orderRepo uc) (Some tx) ord)) (\<lambda>_.
       bindE (wrapE ''failed to create order items''
                (OrderItemRepository_CreateInTx (uc_orderItemRepo uc) (Some tx) (o_items ord))) (\<lambda>_.
       bindE (wrapE ''failed to create outbox event''
                (OutboxRepository_CreateInTx (uc_outboxRepo uc) (Some tx) ev)) (\<lambda>_.
       bindE (wrapE ''failed to commit transaction'' (Commit env tx)) (\<lambda>_.
       ok ord))))))"

definition CreateOrder ::
  "order_db env \<Rightarrow> createOrderUseCase \<Rightarrow> CreateOrderRequest \<Rightarrow> (order_db, create_result) io" where
  "CreateOrder env uc req =
     (if r_items req = [] then ret (None, Some ErrEmptyCart)
      else if list_ex (\<lambda>item. ri_quantity item \<le> 0) (r_items req)
      then ret (None, Some ErrInvalidQuantity)
      else do {
        key \<leftarrow> (if r_idempotency_key req = '''' then new_uuid env else ret (r_idempotency_key req));
        existing \<leftarrow> OrderRepository_GetByIDempotencyKey (uc_orderRepo uc) key;
        case existing of
          Inr ord \<Rightarrow> ret (Some ord, Some ErrDuplicateIdempotencyKey)
        | Inl _ \<Rightarrow> do {
            ord \<leftarrow> new_order env req key;
            ev \<leftarrow> new_event env (o_id ord) ''order.created'' (created_payload ord);
            r \<leftarrow> store_order env uc ord ev;
            ret (only_result r)
          }
      })"

subsection \<open>GetOrder and ListOrders\<close>

definition GetOrder :: "order_db env \<Rightarrow> createOrderUseCase \<Rightarrow> string \<Rightarrow> (order_db, Order) ioe" where
  "GetOrder env uc oid =
     bindE (OrderRepository_GetByID (uc_orderRepo uc) oid) (\<lambda>ord.
     bindE (OrderItemRepository_GetByOrderID (uc_orderItemRepo uc) oid) (\<lambda>items.
     ok (ord\<lparr>o_items := items\<rparr>)))"

definition ListOrders ::
  "order_db env \<Rightarrow> createOrderUseCase \<Rightarrow> string \<Rightarrow> int \<Rightarrow> int \<Rightarrow> (order_db, Order list \<times> int) ioe" where
  "ListOrders env uc customerID limit offset =
     OrderRepository_List (uc_orderRepo uc) customerID limit offset"

subsection \<open>CancelOrder and ConfirmOrder\<close>

text \<open>The transaction both end with: set the status and store the event.\<close>

definition store_status ::
  "order_db env \<Rightarrow> createOrderUseCase \<Rightarrow> string \<Rightarrow> string \<Rightarrow> OrderStatus \<Rightarrow> OutboxEvent
   \<Rightarrow> (order_db, unit) ioe" where
  "store_status env uc msg oid status ev =
     bindE (wrapE ''failed to begin transaction'' (BeginTxx env)) (\<lambda>tx.
     deferred (Rollback tx) (
       bindE (wrapE msg
                (OrderRepository_UpdateStatusInTx (uc_orderRepo uc) (Some tx) oid status)) (\<lambda>_.
       bindE (wrapE ''failed to create outbox event''
                (OutboxRepository_CreateInTx (uc_outboxRepo uc) (Some tx) ev)) (\<lambda>_.
       bindE (wrapE ''failed to commit transaction'' (Commit env tx)) (\<lambda>_.
       ok ())))))"

definition cancelled_payload :: "Order \<Rightarrow> string \<Rightarrow> json_text" where
  "cancelled_payload ord reason = enc_object
     [(''new_status'', Some (JStr StatusCancelled)), (''old_status'', Some (JStr (o_status ord))),
      (''order_id'', Some (JStr (o_id ord))), (''reason'', Some (JStr reason))]"

definition CancelOrder ::
  "order_db env \<Rightarrow> createOrderUseCase \<Rightarrow> string \<Rightarrow> string \<Rightarrow> (order_db, unit) ioe" where
  "CancelOrder env uc oid reason =
     bindE (OrderRepository_GetByID (uc_orderRepo uc) oid) (\<lambda>ord.
     if \<not> CanCancel ord then fail ErrOrderNotCancellable
     else do {
       ev \<leftarrow> new_event env (o_id ord) ''order.cancelled'' (cancelled_payload ord reason);
       store_status env uc ''failed to cancel order'' oid StatusCancelled ev
     })"

definition confirmed_payload :: "Order \<Rightarrow> json_text" where
  "confirmed_payload ord = enc_object
     [(''new_status'', Some (JStr StatusProcessing)), (''old_status'', Some (JStr (o_status ord))),
      (''order_id'', Some (JStr (o_id ord)))]"

definition ConfirmOrder ::
  "order_db env \<Rightarrow> createOrderUseCase \<Rightarrow> string \<Rightarrow> (order_db, unit) ioe" where
  "ConfirmOrder env uc oid =
     bindE (OrderRepository_GetByID (uc_orderRepo uc) oid) (\<lambda>ord.
     if o_status ord \<noteq> StatusPendingPayment then ok ()
     else do {
       ev \<leftarrow> new_event env (o_id ord) ''order.confirmed'' (confirmed_payload ord);
       store_status env uc ''failed to confirm order'' oid StatusProcessing ev
     })"

subsection \<open>The deployed use case (cmd/order-service/main.go)\<close>

text \<open>\<open>pkgcache.New(rdb, "order", 5*time.Minute, ...)\<close> for both caches, in nanoseconds.\<close>

definition order_cache :: Cache where
  "order_cache = \<lparr>c_prefix = ''order'', c_ttl = 5 * 60 * 1000000000\<rparr>"

definition plain_orderUC :: "order_db env \<Rightarrow> createOrderUseCase" where
  "plain_orderUC env =
     \<lparr>uc_orderRepo = NewOrderRepository env, uc_orderItemRepo = NewOrderItemRepository env,
      uc_outboxRepo = NewOutboxRepository env\<rparr>"

definition orderUC :: "order_db env \<Rightarrow> createOrderUseCase" where
  "orderUC env =
     \<lparr>uc_orderRepo = NewOrderCache env (NewOrderRepository env) order_cache,
      uc_orderItemRepo = NewOrderItemCache env (NewOrderItemRepository env) order_cache,
      uc_outboxRepo = NewOutboxCache (NewOutboxRepository env)\<rparr>"

end
