(* ===== verification/Order_Service.thy ===== *)
theory Order_Service
  imports Order_UseCase "HOL-Library.Sublist"
begin

text \<open>
  What the order use cases guarantee. The contract between the use cases and the repositories
  is the locale \<open>order_store\<close>; it holds for the PostgreSQL repositories and for the cached ones
  the service is deployed with, so that every lemma proved in it is about both.
\<close>

subsection \<open>The contract of the repositories\<close>

locale order_store =
  fixes env :: "order_db env" and uc :: createOrderUseCase
  assumes create_order:
      "OrderRepository_CreateInTx (uc_orderRepo uc) tx ord = execute env tx (insert_order (e_pg env) ord)"
    and create_items:
      "OrderItemRepository_CreateInTx (uc_orderItemRepo uc) tx items =
         forE (\<lambda>item. State_Monad.bind (time_now env)
                (\<lambda>now. execute env tx (insert_order_item (e_pg env) item now))) items"
    and create_event:
      "OutboxRepository_CreateInTx (uc_outboxRepo uc) tx ev = execute env tx (insert_outbox (e_pg env) ev)"
    and update_status:
      "OrderRepository_UpdateStatusInTx (uc_orderRepo uc) tx oid status =
         State_Monad.bind (time_now env)
           (\<lambda>now. execute env tx (update_order_status (e_pg env) oid status now))"
    and find_key:
      "OrderRepository_GetByIDempotencyKey (uc_orderRepo uc) key =
         State_Monad.bind (GetContext env (select_order_by_key key))
           (\<lambda>r. ret (map_sum id rowToOrder (not_found_as ErrOrderNotFound r)))"
begin

lemmas store_contract = create_order create_items create_event update_status find_key

end

interpretation plain: order_store env "plain_orderUC env" for env
  by unfold_locales
    (simp_all add: plain_orderUC_def NewOrderRepository_def NewOrderItemRepository_def
      NewOutboxRepository_def orderRepository_CreateInTx_def orderItemRepository_CreateInTx_def
      outboxRepository_CreateInTx_def orderRepository_UpdateStatusInTx_def
      orderRepository_GetByIDempotencyKey_def)

interpretation cached: order_store env "orderUC env" for env
  by unfold_locales
    (simp_all add: orderUC_def NewOrderCache_def NewOrderItemCache_def NewOutboxCache_def
      NewOrderRepository_def NewOrderItemRepository_def
      NewOutboxRepository_def orderRepository_CreateInTx_def orderItemRepository_CreateInTx_def
      outboxRepository_CreateInTx_def orderRepository_UpdateStatusInTx_def
      orderRepository_GetByIDempotencyKey_def)

subsection \<open>Storing an order\<close>

text \<open>
  The specification of the transaction of \<open>CreateOrder\<close>: the state \<open>d'\<close> is \<open>d\<close> with exactly
  the row of the order, one row per item and the row of the event added; the order's id and
  idempotency key were not in \<open>d\<close>.
\<close>

definition fresh_order :: "orderRow \<Rightarrow> order_db \<Rightarrow> bool" where
  "fresh_order r d \<longleftrightarrow> (\<forall>q \<in> set (t_orders d). or_id q \<noteq> or_id r \<and> or_idempotency_key q \<noteq> or_idempotency_key r)"

definition item_rows :: "pg_types \<Rightarrow> OrderItem list \<Rightarrow> orderItemRow list \<Rightarrow> bool" where
  "item_rows pg = list_all2 (\<lambda>item row. \<exists>now. order_item_row pg item now = Some row)"

definition items_stored :: "pg_types \<Rightarrow> Order \<Rightarrow> nat \<Rightarrow> order_db \<Rightarrow> order_db \<Rightarrow> bool" where
  "items_stored pg ord k d d' \<longleftrightarrow>
     (\<exists>r rows. order_row pg ord = Some r \<and> fresh_order r d \<and> item_rows pg (take k (o_items ord)) rows \<and>
        d' = d\<lparr>t_orders := t_orders d @ [r], t_order_items := t_order_items d @ rows\<rparr>)"

definition order_stored :: "pg_types \<Rightarrow> Order \<Rightarrow> OutboxEvent \<Rightarrow> order_db \<Rightarrow> order_db \<Rightarrow> bool" where
  "order_stored pg ord ev d d' \<longleftrightarrow>
     (\<exists>r rows e. order_row pg ord = Some r \<and> fresh_order r d \<and> item_rows pg (o_items ord) rows \<and>
        outbox_row pg ev = Some e \<and>
        d' = d\<lparr>t_orders := t_orders d @ [r], t_order_items := t_order_items d @ rows,
               t_outbox_events := t_outbox_events d @ [e]\<rparr>)"

lemma insert_order_stored: "insert_order pg ord d = Inr (d', x) \<Longrightarrow> items_stored pg ord 0 d d'"
  by (auto simp: insert_order_def items_stored_def fresh_order_def item_rows_def list_ex_iff
      split: option.splits if_splits)

lemma insert_item_stored:
  assumes "items_stored pg ord k d d'" and "k < length (o_items ord)"
    and "insert_order_item pg (o_items ord ! k) now d' = Inr (d'', x)"
  shows "items_stored pg ord (Suc k) d d''"
proof -
  from assms(1) obtain r rows where 1: "order_row pg ord = Some r" "fresh_order r d"
      "item_rows pg (take k (o_items ord)) rows"
      "d' = d\<lparr>t_orders := t_orders d @ [r], t_order_items := t_order_items d @ rows\<rparr>"
    by (auto simp: items_stored_def)
  from assms(3) obtain row where 2: "order_item_row pg (o_items ord ! k) now = Some row"
      "d'' = d'\<lparr>t_order_items := t_order_items d' @ [row]\<rparr>"
    by (auto simp: insert_order_item_def split: option.splits if_splits)
  have "item_rows pg (take (Suc k) (o_items ord)) (rows @ [row])"
    using 1(3) 2(1) assms(2) by (auto simp: item_rows_def take_Suc_conv_app_nth intro!: list_all2_appendI)
  with 1 2(2) show ?thesis
    unfolding items_stored_def by (intro exI [of _ r] exI [of _ "rows @ [row]"]) simp
qed

lemma insert_event_stored:
  "items_stored pg ord (length (o_items ord)) d d' \<Longrightarrow> insert_outbox pg ev d' = Inr (d'', x)
   \<Longrightarrow> order_stored pg ord ev d d''"
  by (fastforce simp: items_stored_def order_stored_def insert_outbox_def split: option.splits if_splits)

context order_store
begin

lemma triple_insert_items:
  assumes "rely (preserves I) env"
  shows "triple (in_tx I h (items_stored (e_pg env) ord 0))
           (OrderItemRepository_CreateInTx (uc_orderItemRepo uc) (Some h) (o_items ord))
           (\<lambda>r w. case r of Inl _ \<Rightarrow> I (w_db w)
                   | Inr _ \<Rightarrow> in_tx I h (items_stored (e_pg env) ord (length (o_items ord))) w)"
  unfolding create_items execute_def option.case
  by (rule triple_forE [where Q = "\<lambda>_ w. I (w_db w)"],
      rule triple_bind [OF triple_time_now], rule triple_exec_tx [OF assms])
    (rule insert_item_stored)

lemma triple_store_order:
  assumes "rely (preserves I) env"
  shows "triple (\<lambda>w. I (w_db w)) (store_order env uc ord ev)
           (all_or_nothing I (order_stored (e_pg env) ord ev))"
  unfolding store_order_def create_order create_event execute_def option.case
proof (rule tx_block [OF assms], rule tx_step' [where ?Q1.0 = "items_stored (e_pg env) ord 0"])
  fix h
  show "triple (in_tx I h (=)) (exec_tx env h (insert_order (e_pg env) ord))
      (\<lambda>r w. case r of Inl _ \<Rightarrow> I (w_db w) | Inr _ \<Rightarrow> in_tx I h (items_stored (e_pg env) ord 0) w)"
    by (rule triple_exec_tx [OF assms]) (auto dest: insert_order_stored)
  show "triple (in_tx I h (items_stored (e_pg env) ord 0))
      (bindE (wrapE ''failed to create order items''
          (OrderItemRepository_CreateInTx (uc_orderItemRepo uc) (Some h) (o_items ord))) (\<lambda>_.
       bindE (wrapE ''failed to create outbox event'' (exec_tx env h (insert_outbox (e_pg env) ev))) (\<lambda>_.
       bindE (wrapE ''failed to commit transaction'' (Commit env h)) (\<lambda>_. ok ord))))
      (all_or_nothing I (order_stored (e_pg env) ord ev))"
    by (intro tx_step' [OF triple_insert_items] tx_commit assms
        tx_step' [OF triple_exec_tx [where Q' = "order_stored (e_pg env) ord ev"]])
      (auto dest: insert_event_stored)
qed

end

subsection \<open>Changing the status of an order\<close>

definition set_order_status :: "string \<Rightarrow> string \<Rightarrow> int \<Rightarrow> order_db \<Rightarrow> order_db" where
  "set_order_status i s t d =
     d\<lparr>t_orders := map (\<lambda>r. if or_id r = i then r\<lparr>or_status := s, or_updated_at := t\<rparr> else r)
                    (t_orders d)\<rparr>"

definition status_stored ::
  "pg_types \<Rightarrow> string \<Rightarrow> OrderStatus \<Rightarrow> OutboxEvent \<Rightarrow> order_db \<Rightarrow> order_db \<Rightarrow> bool" where
  "status_stored pg oid status ev d d' \<longleftrightarrow>
     (\<exists>s i t e. pg_varchar pg 30 status = Some s \<and> pg_uuid pg oid = Some i \<and> outbox_row pg ev = Some e \<and>
        d' = (set_order_status i s t d)\<lparr>t_outbox_events := t_outbox_events d @ [e]\<rparr>)"

lemma update_order_status_eq:
  "update_order_status pg oid status now d =
     (case (pg_varchar pg 30 status, pg_uuid pg oid) of
        (Some s, Some i) \<Rightarrow> Inr (set_order_status i s (pg_timestamptz pg now) d, ())
      | _ \<Rightarrow> Inl pq_invalid)"
  by (simp add: update_order_status_def set_order_status_def split: option.splits)

context order_store
begin

lemma triple_store_status:
  assumes "rely (preserves I) env"
  shows "triple (\<lambda>w. I (w_db w)) (store_status env uc msg oid status ev)
           (all_or_nothing I (status_stored (e_pg env) oid status ev))"
proof -
  let ?Q1 = "\<lambda>d d'. \<exists>s i t. pg_varchar (e_pg env) 30 status = Some s \<and> pg_uuid (e_pg env) oid = Some i \<and>
      d' = set_order_status i s t d"
  have upd: "triple (in_tx I h (=)) (exec_tx env h (update_order_status (e_pg env) oid status now))
      (\<lambda>r w. case r of Inl _ \<Rightarrow> I (w_db w) | Inr _ \<Rightarrow> in_tx I h ?Q1 w)" for h now
    by (rule triple_exec_tx [OF assms]) (auto simp: update_order_status_eq split: option.splits)
  have ins: "triple (in_tx I h ?Q1) (exec_tx env h (insert_outbox (e_pg env) ev))
      (\<lambda>r w. case r of Inl _ \<Rightarrow> I (w_db w) | Inr _ \<Rightarrow> in_tx I h (status_stored (e_pg env) oid status ev) w)" for h
    by (rule triple_exec_tx [OF assms])
      (fastforce simp: insert_outbox_def status_stored_def set_order_status_def split: option.splits if_splits)
  show ?thesis
    unfolding store_status_def update_status create_event execute_def option.case
    by (rule tx_block [OF assms], rule tx_step', rule triple_bind [OF triple_time_now], rule upd,
        rule tx_step' [OF ins], rule tx_commit [OF assms])
qed

end

subsection \<open>What CreateOrder stores\<close>

text \<open>The order and the event a request describes; the identifiers are up to the service.\<close>

definition requested_item :: "string \<Rightarrow> OrderItemRequest \<Rightarrow> OrderItem \<Rightarrow> bool" where
  "requested_item oid q item \<longleftrightarrow>
     oi_order_id item = oid \<and> oi_product_id item = ri_product_id q \<and> oi_sku item = ri_sku q \<and>
     oi_product_name item = ri_product_name q \<and> oi_quantity item = ri_quantity q \<and>
     0 < ri_quantity q \<and> oi_unit_price item = ri_unit_price q \<and>
     oi_total_price item = fmul (float_of_int (ri_quantity q)) (ri_unit_price q)"

definition requested_order :: "CreateOrderRequest \<Rightarrow> Order \<Rightarrow> bool" where
  "requested_order req ord \<longleftrightarrow>
     o_customer_id ord = r_customer_id req \<and> o_status ord = StatusPendingPayment \<and>
     o_currency ord = (if r_currency req = '''' then ''USD'' else r_currency req) \<and>
     o_shipping_address ord = r_shipping_address req \<and>
     (r_idempotency_key req \<noteq> '''' \<longrightarrow> o_idempotency_key ord = r_idempotency_key req) \<and>
     o_items ord \<noteq> [] \<and> list_all2 (requested_item (o_id ord)) (r_items req) (o_items ord) \<and>
     o_discount_amount ord = Fin 0 \<and> o_shipping_fee ord = Fin 0 \<and> o_tax_amount ord = Fin 0 \<and>
     CalculateTotal ord = ord"

definition created_event :: "Order \<Rightarrow> OutboxEvent \<Rightarrow> bool" where
  "created_event ord ev \<longleftrightarrow>
     ev_aggregate_type ev = ''order'' \<and> ev_aggregate_id ev = o_id ord \<and>
     ev_event_type ev = ''order.created'' \<and> ev_payload ev = created_payload ord \<and>
     ev_status ev = ''PENDING''"

lemma CalculateTotal_idem: "CalculateTotal (CalculateTotal ord) = CalculateTotal ord"
  by (simp add: CalculateTotal_def Let_def)

lemma triple_new_item:
  assumes "0 < ri_quantity q"
  shows "triple (\<lambda>w. P (w_db w)) (new_item env oid q) (\<lambda>item w. P (w_db w) \<and> requested_item oid q item)"
  using assms by (simp add: triple_def new_item_def run_new_uuid requested_item_def)

lemma triple_new_order:
  assumes "r_items req \<noteq> []" and "\<And>q. q \<in> set (r_items req) \<Longrightarrow> 0 < ri_quantity q"
    and "r_idempotency_key req \<noteq> '''' \<Longrightarrow> key = r_idempotency_key req"
  shows "triple (\<lambda>w. P (w_db w)) (new_order env req key)
           (\<lambda>ord w. P (w_db w) \<and> requested_order req ord)"
  unfolding new_order_def
proof (rule triple_bind [OF triple_new_uuid], rule triple_bind [OF triple_now],
    rule triple_bind [OF triple_now], rule triple_bind [OF triple_for_map])
  show "triple (\<lambda>w. P (w_db w)) (new_item env i q) (\<lambda>item w. P (w_db w) \<and> requested_item i q item)"
    if "q \<in> set (r_items req)" for i q
    using triple_new_item assms(2) that by blast
qed (use assms(1,3) in \<open>auto simp: triple_def requested_order_def CalculateTotal_idem list_all2_Cons1\<close>)

lemma triple_new_event:
  "triple (\<lambda>w. P (w_db w)) (new_event env oid ty payload)
     (\<lambda>ev w. P (w_db w) \<and> ev_aggregate_type ev = ''order'' \<and> ev_aggregate_id ev = oid \<and>
        ev_event_type ev = ty \<and> ev_payload ev = payload \<and> ev_status ev = ''PENDING'')"
  by (simp add: triple_def new_event_def run_new_uuid run_time_now)

text \<open>
  The outcome of \<open>CreateOrder\<close>: the order, its items and its event were added to some state
  the others left, and an answer without an error carries that order; or there was an error
  and nothing was added.
\<close>

definition create_outcome ::
  "pg_types \<Rightarrow> (order_db \<Rightarrow> bool) \<Rightarrow> CreateOrderRequest \<Rightarrow> create_result \<Rightarrow> order_db \<Rightarrow> bool" where
  "create_outcome pg I req r d' \<longleftrightarrow>
     (\<exists>d ord ev. I d \<and> requested_order req ord \<and> created_event ord ev \<and> order_stored pg ord ev d d' \<and>
        (snd r = None \<longrightarrow> fst r = Some ord)) \<or>
     (snd r \<noteq> None \<and> I d')"

context order_store
begin

lemma store_order_result:
  "triple P (store_order env uc ord ev) (\<lambda>r w. \<forall>x. r = Inr x \<longrightarrow> x = ord)"
  unfolding store_order_def by (auto simp: triple_def split: prod.splits sum.splits)

lemma triple_create_tail:
  assumes rely: "rely (preserves I) env"
    and req: "r_items req \<noteq> []" "\<And>q. q \<in> set (r_items req) \<Longrightarrow> 0 < ri_quantity q"
    and key: "r_idempotency_key req \<noteq> '''' \<Longrightarrow> key = r_idempotency_key req"
  shows "triple (\<lambda>w. I (w_db w))
     (do { ord \<leftarrow> new_order env req key;
           ev \<leftarrow> new_event env (o_id ord) ''order.created'' (created_payload ord);
           r \<leftarrow> store_order env uc ord ev;
           ret (only_result r) })
     (\<lambda>r w. create_outcome (e_pg env) I req r (w_db w))"
proof (rule triple_bind [OF triple_new_order [OF req key]])
  fix ord
  let ?P = "\<lambda>d. I d \<and> requested_order req ord"
  show "triple (\<lambda>w. ?P (w_db w))
     (do { ev \<leftarrow> new_event env (o_id ord) ''order.created'' (created_payload ord);
           r \<leftarrow> store_order env uc ord ev;
           ret (only_result r) })
     (\<lambda>r w. create_outcome (e_pg env) I req r (w_db w))"
  proof (rule triple_bind [OF triple_new_event], rule triple_bind)
    fix ev :: OutboxEvent
    let ?E = "ev_aggregate_type ev = ''order'' \<and> ev_aggregate_id ev = o_id ord \<and>
        ev_event_type ev = ''order.created'' \<and> ev_payload ev = created_payload ord \<and> ev_status ev = ''PENDING''"
    show "triple (\<lambda>w. ?P (w_db w) \<and> ?E) (store_order env uc ord ev)
        (\<lambda>r w. all_or_nothing I (order_stored (e_pg env) ord ev) r w \<and> (\<forall>x. r = Inr x \<longrightarrow> x = ord) \<and>
          requested_order req ord \<and> created_event ord ev)"
      using triple_conj [OF triple_store_order [OF rely, of ord ev] store_order_result]
      by (auto simp: triple_def created_event_def)
    show "triple (\<lambda>w. all_or_nothing I (order_stored (e_pg env) ord ev) r w \<and> (\<forall>x. r = Inr x \<longrightarrow> x = ord) \<and>
          requested_order req ord \<and> created_event ord ev) (ret (only_result r))
        (\<lambda>r w. create_outcome (e_pg env) I req r (w_db w))" for r
      by (cases r) (fastforce simp: triple_def all_or_nothing_def create_outcome_def)+
  qed
qed

lemma triple_CreateOrder:
  assumes "rely (preserves I) env"
  shows "triple (\<lambda>w. I (w_db w)) (CreateOrder env uc req)
           (\<lambda>r w. create_outcome (e_pg env) I req r (w_db w))"
proof (cases "r_items req = [] \<or> list_ex (\<lambda>item. ri_quantity item \<le> 0) (r_items req)")
  case True
  then show ?thesis by (auto simp: CreateOrder_def triple_def create_outcome_def)
next
  case False
  let ?K = "\<lambda>key. r_idempotency_key req \<noteq> '''' \<longrightarrow> key = r_idempotency_key req"
  from False have req: "r_items req \<noteq> []" "\<And>q. q \<in> set (r_items req) \<Longrightarrow> 0 < ri_quantity q"
    by (auto simp: list_ex_iff not_le)
  have key: "triple (\<lambda>w. I (w_db w))
      (if r_idempotency_key req = '''' then new_uuid env else ret (r_idempotency_key req))
      (\<lambda>key w. I (w_db w) \<and> ?K key)"
    by (simp add: triple_def run_new_uuid)
  have find: "triple (\<lambda>w. I (w_db w) \<and> ?K key) (OrderRepository_GetByIDempotencyKey (uc_orderRepo uc) key)
      (\<lambda>_ w. I (w_db w) \<and> ?K key)" for key
    unfolding find_key using triple_GetContext [OF assms]
    by (fastforce simp: triple_def split: prod.splits)
  have tail: "triple (\<lambda>w. I (w_db w) \<and> ?K key)
      (case existing of
          Inr ord \<Rightarrow> ret (Some ord, Some ErrDuplicateIdempotencyKey)
        | Inl _ \<Rightarrow> do {
            ord \<leftarrow> new_order env req key;
            ev \<leftarrow> new_event env (o_id ord) ''order.created'' (created_payload ord);
            r \<leftarrow> store_order env uc ord ev;
            ret (only_result r)
          })
      (\<lambda>r w. create_outcome (e_pg env) I req r (w_db w))" for key existing
  proof (cases "?K key")
    case True
    then show ?thesis
      using triple_create_tail [OF assms req, of key]
      by (cases existing) (auto simp: triple_def create_outcome_def)
  qed (simp add: triple_def)
  from False have no: "r_items req \<noteq> []" "\<not> list_ex (\<lambda>item. ri_quantity item \<le> 0) (r_items req)" by auto
  show ?thesis
    unfolding CreateOrder_def if_not_P [OF no(1)] if_not_P [OF no(2)]
    by (rule triple_bind [OF key], rule triple_bind [OF find], rule tail)
qed

end

end
