(* ===== verification/Kafka_Kit.thy ===== *)
theory Kafka_Kit
  imports Platform_Logic
begin

text \<open>
  The Kafka kit (\<^verbatim>\<open>pkg/kafka\<close>): the header carrier of the trace propagation, the producer
  and the consumer with its retries and its dead-letter queue. The client library kafka-go is
  the environment: it accepts or rejects a message (\<open>e_writer_ok\<close>, by the topics of the writer
  and of the message), a write may be lost, or applied with the reply lost.
\<close>

text \<open>The error of \<open>json.Unmarshal\<close>; only its text is ever used, in logs and headers.\<close>

definition ErrUnmarshal :: go_error where
  "ErrUnmarshal = External ''json: cannot unmarshal''"

subsection \<open>The header carrier (trace\_headers.go)\<close>

type_synonym headers = "(string \<times> string) list"

fun KafkaMessageCarrier_Get :: "headers \<Rightarrow> string \<Rightarrow> string" where
  "KafkaMessageCarrier_Get [] key = ''''"
| "KafkaMessageCarrier_Get ((k, v) # hs) key = (if k = key then v else KafkaMessageCarrier_Get hs key)"

fun KafkaMessageCarrier_Set :: "headers \<Rightarrow> string \<Rightarrow> string \<Rightarrow> headers" where
  "KafkaMessageCarrier_Set [] key val = [(key, val)]"
| "KafkaMessageCarrier_Set ((k, v) # hs) key val =
     (if k = key then (k, val) # hs else (k, v) # KafkaMessageCarrier_Set hs key val)"

definition KafkaMessageCarrier_Keys :: "headers \<Rightarrow> string list" where
  "KafkaMessageCarrier_Keys hs = map fst hs"

text \<open>The propagator sets the members of the current trace context, one by one.\<close>

definition InjectTraceHeaders :: "'db env \<Rightarrow> Message \<Rightarrow> ('db, Message) io" where
  "InjectTraceHeaders env msg = do {
     n \<leftarrow> next_tick;
     ret (msg\<lparr>m_headers := foldl (\<lambda>hs (k, v). KafkaMessageCarrier_Set hs k v) (m_headers msg) (e_trace env n)\<rparr>)
   }"

text \<open>
  \<open>ExtractTraceContext\<close>: nil when there are no headers, otherwise a context that descends from
  \<open>context.Background()\<close> and is therefore never done.
\<close>

datatype Context = ServiceCtx | BackgroundCtx

definition ExtractTraceContext :: "headers \<Rightarrow> Context option" where
  "ExtractTraceContext hs = (if hs = [] then None else Some BackgroundCtx)"

subsection \<open>The producer (producer.go)\<close>

text \<open>\<open>MessageWriter\<close>; the sources write one message per call.\<close>

type_synonym 'db MessageWriter = "Message \<Rightarrow> ('db, unit) ioe"

definition kafka_WriteMessages :: "'db env \<Rightarrow> string \<Rightarrow> 'db MessageWriter" where
  "kafka_WriteMessages env topic msg = do {
     n \<leftarrow> next_tick;
     State (\<lambda>w.
       let w' = w\<lparr>w_sent := w_sent w @ [if m_topic msg = '''' then msg\<lparr>m_topic := topic\<rparr> else msg]\<rparr>
       in if \<not> e_writer_ok env topic (m_topic msg) then (Inl (External ''kafka.Writer: topic''), w)
          else (case e_fault env n of
              Some (Lost m) \<Rightarrow> (Inl (External m), w)
            | Some (Applied m) \<Rightarrow> (Inl (External m), w')
            | None \<Rightarrow> (Inr (), w')))
   }"

record Producer =
  p_topic :: string
  p_service :: string

record ProducerConfig =
  pc_topic :: string
  pc_service :: string

definition NewProducer :: "ProducerConfig \<Rightarrow> Producer" where
  "NewProducer cfg = \<lparr>p_topic = pc_topic cfg, p_service = pc_service cfg\<rparr>"

definition Producer_write :: "'db env \<Rightarrow> Producer \<Rightarrow> Message \<Rightarrow> ('db, unit) ioe" where
  "Producer_write env p msg = do {
     msg' \<leftarrow> InjectTraceHeaders env msg;
     r \<leftarrow> kafka_WriteMessages env (p_topic p) msg';
     _ \<leftarrow> metric_add [''kafka_messages_produced_total'', p_service p,
             (if m_topic msg = '''' then p_topic p else m_topic msg)] 1;
     ret r
   }"

definition Producer_WriteMessages :: "'db env \<Rightarrow> Producer \<Rightarrow> Message list \<Rightarrow> ('db, unit) ioe" where
  "Producer_WriteMessages env p msgs = forE (Producer_write env p) msgs"

subsection \<open>The consumer (consumer.go)\<close>

type_synonym 'db MessageHandler = "Message \<Rightarrow> ('db, unit) ioe"

record ConsumerConfig =
  cc_topic :: string
  cc_group_id :: string
  cc_max_retries :: int
  cc_retry_delay :: int
  cc_dlq_topic :: string
  cc_service :: string

record 'db Consumer =
  c_has_writer :: bool
  c_handler :: "'db MessageHandler"
  c_config :: ConsumerConfig

definition NewConsumer :: "ConsumerConfig \<Rightarrow> 'db MessageHandler \<Rightarrow> 'db Consumer" where
  "NewConsumer cfg handler =
     \<lparr>c_has_writer = (cc_dlq_topic cfg \<noteq> ''''),
      c_handler = handler,
      c_config = cfg\<lparr>cc_max_retries := (if cc_max_retries cfg \<le> 0 then 3 else cc_max_retries cfg),
                     cc_retry_delay := (if cc_retry_delay cfg \<le> 0 then 1000000000 else cc_retry_delay cfg)\<rparr>\<rparr>"

definition ErrCanceled :: go_error where
  "ErrCanceled = Sentinel ''context canceled''"

text \<open>The wait before a retry: whether the context was done before the delay had passed.\<close>

definition wait_done :: "'db env \<Rightarrow> Context \<Rightarrow> ('db, bool) io" where
  "wait_done env ctx = (case ctx of ServiceCtx \<Rightarrow> ctx_done env | BackgroundCtx \<Rightarrow> ret False)"

text \<open>
  The loop of \<open>handleWithRetry\<close> from the given attempt on. \<open>lastErr\<close> is nil only before the first
  attempt.
\<close>

function retry_loop ::
  "'db env \<Rightarrow> Context \<Rightarrow> 'db Consumer \<Rightarrow> Message \<Rightarrow> int \<Rightarrow> go_error option \<Rightarrow> ('db, go_error option) io" where
  "retry_loop env ctx c msg attempt lastErr =
     (if attempt \<le> cc_max_retries (c_config c) then do {
        stop \<leftarrow> (if attempt > 0 then wait_done env ctx else ret False);
        if stop then ret (Some ErrCanceled)
        else do {
          r \<leftarrow> c_handler c msg;
          case r of
            Inl e \<Rightarrow> retry_loop env ctx c msg (attempt + 1) (Some e)
          | Inr _ \<Rightarrow> ret None
        }
      }
      else ret lastErr)"
  by pat_completeness auto

termination
  by (relation "measure (\<lambda>(env, ctx, c, msg, attempt, lastErr). nat (cc_max_retries (c_config c) + 1 - attempt))")
    auto

declare retry_loop.simps [simp del]

definition handleWithRetry ::
  "'db env \<Rightarrow> Context \<Rightarrow> 'db Consumer \<Rightarrow> Message \<Rightarrow> ('db, go_error option) io" where
  "handleWithRetry env ctx c msg = retry_loop env ctx c msg 0 None"

definition dlq_message :: "Message \<Rightarrow> go_error \<Rightarrow> int \<Rightarrow> Message" where
  "dlq_message msg e now =
     \<lparr>m_topic = '''', m_key = m_key msg, m_value = m_value msg,
      m_headers = m_headers msg @
        [(''dlq_original_topic'', m_topic msg), (''dlq_error'', err_text e),
         (''dlq_timestamp'', rfc3339_text now)],
      m_offset = 0\<rparr>"

text \<open>The writer \<open>NewConsumer\<close> makes for the dead letters has no topic.\<close>

definition sendToDLQ :: "'db env \<Rightarrow> 'db Consumer \<Rightarrow> Message \<Rightarrow> go_error \<Rightarrow> ('db, unit) ioe" where
  "sendToDLQ env c msg e =
     (if \<not> c_has_writer c \<or> cc_dlq_topic (c_config c) = '''' then ok ()
      else do {
        now \<leftarrow> time_now env;
        kafka_WriteMessages env '''' (dlq_message msg e now)
      })"

text \<open>\<open>reader.CommitMessages\<close>: whether the broker recorded the offset.\<close>

definition CommitMessages :: "'db env \<Rightarrow> ('db, bool) io" where
  "CommitMessages env = do {
     n \<leftarrow> next_tick;
     ret (case e_fault env n of Some (Lost _) \<Rightarrow> False | _ \<Rightarrow> True)
   }"

text \<open>One iteration of the loop of \<open>Start\<close> for a message that was read.\<close>

definition consume :: "'db env \<Rightarrow> 'db Consumer \<Rightarrow> Message \<Rightarrow> ('db, bool) io" where
  "consume env c msg = do {
     _ \<leftarrow> metric_add [''kafka_messages_consumed_total'', cc_service (c_config c), m_topic msg] 1;
     err \<leftarrow> handleWithRetry env
             (case ExtractTraceContext (m_headers msg) of None \<Rightarrow> ServiceCtx | Some ctx \<Rightarrow> ctx) c msg;
     _ \<leftarrow> (case err of None \<Rightarrow> ok () | Some e \<Rightarrow> sendToDLQ env c msg e);
     CommitMessages env
   }"

text \<open>
  \<open>Start\<close> on the successive results of \<open>reader.ReadMessage\<close>: the messages whose offset its call
  of \<open>CommitMessages\<close> committed, and the error it returned, none while it is still reading. The
  reader belongs to a consumer group, and kafka-go documents that \<open>ReadMessage\<close> then commits the
  offset of what it returns by itself, before the handler runs. That commit is the reader's and is
  not part of the model: \<open>Start\<close> counts on the one it makes after the handler, and a process that
  dies in between has lost the message although the documentation speaks of at-least-once.
\<close>

fun Consumer_Start ::
  "'db env \<Rightarrow> 'db Consumer \<Rightarrow> Message result list \<Rightarrow> ('db, Message list \<times> go_error option) io" where
  "Consumer_Start env c [] = ret ([], None)"
| "Consumer_Start env c (Inl e # rs) = do {
     stop \<leftarrow> ctx_done env;
     if stop then ret ([], Some ErrCanceled) else Consumer_Start env c rs
   }"
| "Consumer_Start env c (Inr msg # rs) = do {
     committed \<leftarrow> consume env c msg;
     rest \<leftarrow> Consumer_Start env c rs;
     ret (if committed then msg # fst rest else fst rest, snd rest)
   }"

subsection \<open>The carrier behaves as a map\<close>

lemma carrier_get_set:
  "KafkaMessageCarrier_Get (KafkaMessageCarrier_Set hs k v) k' =
     (if k' = k then v else KafkaMessageCarrier_Get hs k')"
  by (induction hs k v rule: KafkaMessageCarrier_Set.induct) auto

lemma carrier_keys_set:
  "KafkaMessageCarrier_Keys (KafkaMessageCarrier_Set hs k v) =
     (if k \<in> set (KafkaMessageCarrier_Keys hs) then KafkaMessageCarrier_Keys hs
      else KafkaMessageCarrier_Keys hs @ [k])"
  by (induction hs k v rule: KafkaMessageCarrier_Set.induct) (auto simp: KafkaMessageCarrier_Keys_def)

subsection \<open>Retries\<close>

text \<open>\<open>k\<close> attempts have failed one after the other, the last one with the error \<open>e\<close>.\<close>

inductive failed_attempts ::
  "'db env \<Rightarrow> Context \<Rightarrow> 'db Consumer \<Rightarrow> Message \<Rightarrow> 'db world \<Rightarrow> nat \<Rightarrow> go_error \<Rightarrow> 'db world \<Rightarrow> bool"
  for env ctx c msg w where
  first: "run_state (c_handler c msg) w = (Inl e, w') \<Longrightarrow> failed_attempts env ctx c msg w 1 e w'"
| again: "failed_attempts env ctx c msg w k e w1 \<Longrightarrow> run_state (wait_done env ctx) w1 = (False, w2)
    \<Longrightarrow> run_state (c_handler c msg) w2 = (Inl e', w') \<Longrightarrow> failed_attempts env ctx c msg w (Suc k) e' w'"

inductive_simps failed_attempts_simps: "failed_attempts env ctx c msg w k e w'"

text \<open>
  The three ways \<open>handleWithRetry\<close> ends, with at most \<open>n\<close> retries: an attempt succeeded, the
  context was done while it waited, or all attempts failed.
\<close>

definition retry_outcome ::
  "'db env \<Rightarrow> Context \<Rightarrow> 'db Consumer \<Rightarrow> Message \<Rightarrow> nat \<Rightarrow> 'db world \<Rightarrow> go_error option \<Rightarrow> 'db world \<Rightarrow> bool" where
  "retry_outcome env ctx c msg n w r w' \<longleftrightarrow>
     (r = None \<and> (run_state (c_handler c msg) w = (Inr (), w') \<or>
        (\<exists>k e w1 w2. k \<le> n \<and> failed_attempts env ctx c msg w k e w1 \<and>
           run_state (wait_done env ctx) w1 = (False, w2) \<and> run_state (c_handler c msg) w2 = (Inr (), w')))) \<or>
     (r = Some ErrCanceled \<and> (\<exists>k e w1. k \<le> n \<and> failed_attempts env ctx c msg w k e w1 \<and>
        run_state (wait_done env ctx) w1 = (True, w'))) \<or>
     (\<exists>e. r = Some e \<and> failed_attempts env ctx c msg w (Suc n) e w')"

lemma retry_loop_outcome:
  assumes "failed_attempts env ctx c msg w k e w1" and "k \<le> Suc n"
    and "cc_max_retries (c_config c) = int n"
    and "run_state (retry_loop env ctx c msg (int k) (Some e)) w1 = (r, w')"
  shows "retry_outcome env ctx c msg n w r w'"
  using assms
proof (induction "Suc n - k" arbitrary: k e w1)
  case 0
  then have "k = Suc n" by simp
  with 0 have "r = Some e" "w' = w1" by (auto simp: retry_loop.simps)
  with 0 \<open>k = Suc n\<close> show ?case by (auto simp: retry_outcome_def)
next
  case (Suc x)
  then have k: "k \<le> n" by simp
  have pos: "0 < k" using Suc.prems(1) by cases auto
  obtain stop w2 where wait: "run_state (wait_done env ctx) w1 = (stop, w2)" by force
  show ?case
  proof (cases stop)
    case True
    with Suc.prems k pos wait have "r = Some ErrCanceled" "w' = w2" by (auto simp: retry_loop.simps)
    with True Suc.prems(1) k wait show ?thesis by (fastforce simp: retry_outcome_def)
  next
    case False
    obtain res w3 where h: "run_state (c_handler c msg) w2 = (res, w3)" by force
    show ?thesis
    proof (cases res)
      case (Inl e')
      have f: "failed_attempts env ctx c msg w (Suc k) e' w3"
        using failed_attempts.again [OF Suc.prems(1)] wait False h Inl by auto
      have "run_state (retry_loop env ctx c msg (int (Suc k)) (Some e')) w3 = (r, w')"
        using Suc.prems k pos wait False h Inl
        by (simp add: retry_loop.simps [of env ctx c msg "int k"] add.commute)
      moreover have "x = Suc n - Suc k" "Suc k \<le> Suc n" using Suc.hyps(2) k by auto
      ultimately show ?thesis using Suc.hyps(1) [OF _ f] Suc.prems(3) by blast
    next
      case (Inr u)
      then have "r = None" "w' = w3"
        using Suc.prems k pos wait False h by (auto simp: retry_loop.simps [of env ctx c msg "int k"])
      with Inr Suc.prems(1) k wait False h show ?thesis by (fastforce simp: retry_outcome_def)
    qed
  qed
qed

lemma handleWithRetry_outcome_lemma:
  assumes "cc_max_retries (c_config c) = int n"
    and "run_state (handleWithRetry env ctx c msg) w = (r, w')"
  shows "retry_outcome env ctx c msg n w r w'"
proof -
  obtain res w1 where h: "run_state (c_handler c msg) w = (res, w1)" by force
  show ?thesis
  proof (cases res)
    case (Inl e)
    have f: "failed_attempts env ctx c msg w 1 e w1" using failed_attempts.first h Inl by auto
    have "run_state (retry_loop env ctx c msg (int 1) (Some e)) w1 = (r, w')"
      using assms h Inl by (simp add: handleWithRetry_def retry_loop.simps [of env ctx c msg 0])
    with f assms(1) show ?thesis using retry_loop_outcome [OF f] by simp
  next
    case (Inr u)
    with assms h show ?thesis
      by (auto simp: handleWithRetry_def retry_loop.simps retry_outcome_def)
  qed
qed

lemma NewConsumer_retries: "0 < cc_max_retries (c_config (NewConsumer cfg h))"
  by (simp add: NewConsumer_def)

subsection \<open>Steps that leave the database alone\<close>

lemma kafka_WriteMessages_frame:
  "w_db (snd (run_state (kafka_WriteMessages env t msg) w)) = w_db w"
  "w_txs (snd (run_state (kafka_WriteMessages env t msg) w)) = w_txs w"
  by (simp_all add: kafka_WriteMessages_def run_next_tick Let_def split: option.splits fault.splits)

lemma InjectTraceHeaders_frame:
  "w_db (snd (run_state (InjectTraceHeaders env msg) w)) = w_db w"
  "w_txs (snd (run_state (InjectTraceHeaders env msg) w)) = w_txs w"
  by (simp_all add: InjectTraceHeaders_def run_next_tick)

lemma CommitMessages_frame:
  "w_db (snd (run_state (CommitMessages env) w)) = w_db w"
  "w_txs (snd (run_state (CommitMessages env) w)) = w_txs w"
  by (simp_all add: CommitMessages_def run_next_tick)

context db_guarantee
begin

lemma safe_kafka_WriteMessages [safe_intros]: "safe R (kafka_WriteMessages env t msg)"
  by (rule safe_local) (rule kafka_WriteMessages_frame)+

lemma safe_InjectTraceHeaders [safe_intros]: "safe R (InjectTraceHeaders env msg)"
  by (rule safe_local) (rule InjectTraceHeaders_frame)+

lemma safe_CommitMessages [safe_intros]: "safe R (CommitMessages env)"
  by (rule safe_local) (rule CommitMessages_frame)+

lemma safe_wait_done [safe_intros]: "safe R (wait_done env ctx)"
  by (cases ctx) (auto simp: wait_done_def intro: safe_intros)

lemma safe_sendToDLQ [safe_intros]: "safe R (sendToDLQ env c msg e)"
  unfolding sendToDLQ_def by (intro safe_intros)

lemma safe_retry_loop:
  "safe R (c_handler c msg) \<Longrightarrow> safe R (retry_loop env ctx c msg attempt lastErr)"
proof (induction env ctx c msg attempt lastErr rule: retry_loop.induct)
  case (1 env ctx c msg attempt lastErr)
  have "safe R (retry_loop env ctx c msg (attempt + 1) (Some e))"
    if "attempt \<le> cc_max_retries (c_config c)" for e
    using "1.IH" [of False e] that "1.prems" by simp
  then show ?case
    using "1.prems" by (subst retry_loop.simps) (auto intro!: safe_intros)
qed

text \<open>A consumer changes the database only as its handler does.\<close>

lemma safe_Consumer_Start:
  assumes "\<And>msg. safe R (c_handler c msg)"
  shows "safe R (Consumer_Start env c reads)"
proof (induction reads)
  case (Cons r reads)
  then show ?case
    by (cases r) (auto intro!: safe_intros safe_retry_loop assms simp: consume_def handleWithRetry_def)
qed (auto intro: safe_intros)

end

subsection \<open>Properties\<close>

text \<open>
  The header carrier is a map from keys to values: after \<open>Set\<close> of a key, \<open>Get\<close> of that key
  returns the value, \<open>Get\<close> of any other key what it returned before, and \<open>Keys\<close> lists the
  same keys in the same order, with a new key added at the end.
\<close>

theorem carrier_map_laws:
  "KafkaMessageCarrier_Get (KafkaMessageCarrier_Set hs k v) =
     (KafkaMessageCarrier_Get hs)(k := v) \<and>
   KafkaMessageCarrier_Keys (KafkaMessageCarrier_Set hs k v) =
     (if k \<in> set (KafkaMessageCarrier_Keys hs) then KafkaMessageCarrier_Keys hs
      else KafkaMessageCarrier_Keys hs @ [k])"
  by (auto simp: carrier_get_set carrier_keys_set)

text \<open>
  C33: \<open>handleWithRetry\<close> of a consumer made by \<open>NewConsumer\<close> ends in one of three ways: some
  attempt succeeded after fewer failures than there are attempts (then the error is nil);
  the context was done during a wait (then the error is the context's); or the handler failed
  exactly \<open>MaxRetries + 1\<close> times, \<open>MaxRetries\<close> being 3 unless a positive number is configured,
  and the error is that of the last attempt.
\<close>

theorem handleWithRetry_outcome:
  "case run_state (handleWithRetry env ctx (NewConsumer cfg h) msg) w of (r, w') \<Rightarrow>
     retry_outcome env ctx (NewConsumer cfg h) msg
       (nat (if cc_max_retries cfg \<le> 0 then 3 else cc_max_retries cfg)) w r w'"
proof -
  have "cc_max_retries (c_config (NewConsumer cfg h)) =
      int (nat (if cc_max_retries cfg \<le> 0 then 3 else cc_max_retries cfg))"
    by (simp add: NewConsumer_def)
  then show ?thesis
    by (cases "run_state (handleWithRetry env ctx (NewConsumer cfg h) msg) w")
      (use handleWithRetry_outcome_lemma in fastforce)
qed

lemma run_retry_loop_tick:
  "run_state (CommitMessages env) w =
     (case e_fault env (w_tick w) of Some (Lost _) \<Rightarrow> False | _ \<Rightarrow> True, w\<lparr>w_tick := Suc (w_tick w)\<rparr>)"
  by (simp add: CommitMessages_def run_next_tick)

lemma consume_commits:
  assumes "\<And>n m. e_fault env n \<noteq> Some (Lost m)"
  shows "fst (run_state (consume env c msg) w) = True"
  using assms by (simp add: consume_def run_retry_loop_tick split: prod.splits option.splits fault.splits)

text \<open>
  C26: while no acknowledgement of an offset is lost and the service is not stopped, the
  consumer commits every message it reads, in the order it reads them, whatever the handler,
  the dead-letter queue or a failed read does: a message that always fails does not block
  the ones behind it.
\<close>

theorem Consumer_Start_commits_all:
  assumes "\<And>n m. e_fault env n \<noteq> Some (Lost m)" and "\<And>n. \<not> e_done env n"
  shows "fst (run_state (Consumer_Start env c reads) w) = ([m. Inr m \<leftarrow> reads], None)"
proof (induction reads arbitrary: w)
  case (Cons r reads)
  show ?case
  proof (cases r)
    case (Inl e)
    then show ?thesis
      using Cons assms(2) by (simp add: run_ctx_done)
  next
    case (Inr msg)
    obtain b w1 where c: "run_state (consume env c msg) w = (b, w1)" by force
    with consume_commits [OF assms(1), of c msg w] have "b" by simp
    with c Inr Cons [of w1] show ?thesis by (cases "run_state (Consumer_Start env c reads) w1") simp
  qed
qed simp

definition dlq_demo_cfg :: ConsumerConfig where
  "dlq_demo_cfg = \<lparr>cc_topic = ''order.created'', cc_group_id = ''g'', cc_max_retries = 0,
     cc_retry_delay = 0, cc_dlq_topic = ''order.created.dlq'', cc_service = ''inventory-service''\<rparr>"

definition demo_message :: Message where
  "demo_message = \<lparr>m_topic = ''order.created'', m_key = ''k'', m_value = None,
     m_headers = [(''event_type'', ''order.created'')], m_offset = 7\<rparr>"

theorem Consumer_Start_commits_all_witness:
  "fst (run_state (Consumer_Start ideal_env (NewConsumer dlq_demo_cfg (\<lambda>_. fail ErrCanceled))
      [Inr demo_message, Inl ErrCanceled, Inr demo_message]) (idle ())) =
     ([demo_message, demo_message], None)"
  by (subst Consumer_Start_commits_all) simp_all

text \<open>
  With the documented rule of kafka-go, that exactly one of the writer and the message
  names the topic, \<open>sendToDLQ\<close> of a consumer with a configured dead-letter topic always
  fails and sends nothing, since neither names it: the failed message is lost.
\<close>

theorem sendToDLQ_never_delivers:
  assumes "\<And>wt mt. e_writer_ok env wt mt \<longleftrightarrow> (wt = '''') \<noteq> (mt = '''')"
    and "cc_dlq_topic cfg \<noteq> ''''"
  shows "case run_state (sendToDLQ env (NewConsumer cfg h) msg e) w of (r, w') \<Rightarrow>
           \<not> is_ok r \<and> w_sent w' = w_sent w"
  using assms
  by (simp add: sendToDLQ_def NewConsumer_def run_time_now kafka_WriteMessages_def run_next_tick
      dlq_message_def Let_def)

theorem sendToDLQ_never_delivers_witness:
  "case run_state (sendToDLQ ideal_env (NewConsumer dlq_demo_cfg (\<lambda>_. fail ErrCanceled)) demo_message ErrCanceled)
      (idle ()) of (r, w') \<Rightarrow> \<not> is_ok r \<and> w_sent w' = []"
  using sendToDLQ_never_delivers [where env = ideal_env and cfg = dlq_demo_cfg and w = "idle ()"]
  by (simp add: dlq_demo_cfg_def)

end
