(* ===== verification/Outbox_Publisher.thy ===== *)
theory Outbox_Publisher
  imports Order_Repo Kafka_Kit "HOL-Library.Multiset"
begin

text \<open>
  The outbox publisher (\<^verbatim>\<open>internal/order/adapter/kafka/outbox_publisher.go\<close>): it claims a batch
  of pending events, writes each to its topic and records the outcome of each. The theory ends
  with what a lone publisher achieves: it publishes the pending events once each, oldest first.
\<close>

subsection \<open>The publisher\<close>

record OutboxPublisher =
  pub_repo :: OutboxRepository
  pub_writer :: "order_db MessageWriter"

text \<open>The writer \<open>NewOutboxPublisher\<close> makes has no topic of its own.\<close>

definition NewOutboxPublisher :: "order_db env \<Rightarrow> OutboxRepository \<Rightarrow> OutboxPublisher" where
  "NewOutboxPublisher env repo = \<lparr>pub_repo = repo, pub_writer = kafka_WriteMessages env ''''\<rparr>"

definition NewOutboxPublisherWithWriter ::
  "OutboxRepository \<Rightarrow> order_db MessageWriter \<Rightarrow> OutboxPublisher" where
  "NewOutboxPublisherWithWriter repo writer = \<lparr>pub_repo = repo, pub_writer = writer\<rparr>"

definition getTopicForEvent :: "string \<Rightarrow> string" where
  "getTopicForEvent eventType =
     (if eventType \<in> {''order.created'', ''order.paid'', ''order.confirmed'', ''order.cancelled'',
                      ''order.shipped'', ''order.delivered''} then eventType
      else if eventType = ''order.status.changed'' then ''order.status.changed''
      else ''default'')"

definition event_message :: "OutboxEvent \<Rightarrow> string \<Rightarrow> Message" where
  "event_message ev cid =
     \<lparr>m_topic = getTopicForEvent (ev_event_type ev), m_key = ev_aggregate_id ev,
      m_value = ev_payload ev,
      m_headers = [(''event_type'', ev_event_type ev), (''event_id'', ev_id ev), (''correlation_id'', cid)],
      m_offset = 0\<rparr>"

definition publishEvent :: "order_db env \<Rightarrow> OutboxPublisher \<Rightarrow> OutboxEvent \<Rightarrow> (order_db, unit) ioe" where
  "publishEvent env p ev = do {
     cid \<leftarrow> new_uuid env;
     msg \<leftarrow> InjectTraceHeaders env (event_message ev cid);
     pub_writer p msg
   }"

text \<open>The body of the loop of \<open>publishBatch\<close>: errors of the marking are only logged.\<close>

definition publish_one :: "order_db env \<Rightarrow> OutboxPublisher \<Rightarrow> OutboxEvent \<Rightarrow> (order_db, unit) io" where
  "publish_one env p ev = do {
     r \<leftarrow> publishEvent env p ev;
     _ \<leftarrow> (case r of
            Inl _ \<Rightarrow> OutboxRepository_MarkFailed (pub_repo p) (ev_id ev)
          | Inr _ \<Rightarrow> OutboxRepository_MarkPublished (pub_repo p) (ev_id ev));
     ret ()
   }"

definition publishBatch :: "order_db env \<Rightarrow> OutboxPublisher \<Rightarrow> int \<Rightarrow> (order_db, unit) ioe" where
  "publishBatch env p batchSize =
     bindE (OutboxRepository_ClaimBatch (pub_repo p) batchSize) (\<lambda>events.
     if events = [] then ok ()
     else do { _ \<leftarrow> for_each (publish_one env p) events; ok () })"

text \<open>\<open>Start\<close> on the successive outcomes of its \<open>select\<close>: a tick, or the context is done.\<close>

datatype wakeup = Tick | Done

fun OutboxPublisher_Start ::
  "order_db env \<Rightarrow> OutboxPublisher \<Rightarrow> int \<Rightarrow> wakeup list \<Rightarrow> (order_db, unit) io" where
  "OutboxPublisher_Start env p batchSize [] = ret ()"
| "OutboxPublisher_Start env p batchSize (Done # ws) = ret ()"
| "OutboxPublisher_Start env p batchSize (Tick # ws) = do {
     _ \<leftarrow> publishBatch env p batchSize;
     OutboxPublisher_Start env p batchSize ws
   }"

subsection \<open>The queue of pending events\<close>

text \<open>
  The specification of the outbox: a queue of pending events that gives away the oldest. Events
  of the same second may leave it in any order, so it promises no more than the multiset of
  what it gives and of what it keeps, and that nothing it keeps is older.
\<close>

definition takes_oldest ::
  "nat \<Rightarrow> outboxEventRow list \<Rightarrow> outboxEventRow list \<Rightarrow> outboxEventRow list \<Rightarrow> bool" where
  "takes_oldest n q evs q' \<longleftrightarrow>
     mset evs + mset q' = mset q \<and> length evs = min n (length q) \<and> sorted (map er_created_at evs) \<and>
     (\<forall>e \<in> set evs. \<forall>r \<in> set q'. er_created_at e \<le> er_created_at r)"

lemma takes_oldest_none: "takes_oldest 0 q [] q"
  by (simp add: takes_oldest_def)

lemma takes_oldest_trans:
  assumes "takes_oldest n q evs q1" and "takes_oldest m q1 evs' q'"
  shows "takes_oldest (n + m) q (evs @ evs') q'"
proof -
  from assms have ms: "mset evs + mset q1 = mset q" "mset evs' + mset q' = mset q1" by (simp_all add: takes_oldest_def)
  from ms(2) have sets: "set q1 = set evs' \<union> set q'" by (metis set_mset_mset set_mset_union)
  have "length q = length evs + length q1" using ms(1) by (metis size_mset size_union)
  then have len: "length (evs @ evs') = min (n + m) (length q)" using assms by (auto simp: takes_oldest_def)
  have "sorted (map er_created_at (evs @ evs'))"
    using assms sets by (auto simp: takes_oldest_def sorted_append)
  moreover have "\<forall>e \<in> set (evs @ evs'). \<forall>r \<in> set q'. er_created_at e \<le> er_created_at r"
    using assms sets by (auto simp: takes_oldest_def)
  moreover have "mset (evs @ evs') + mset q' = mset q" using ms by (simp add: add.assoc)
  ultimately show ?thesis using len unfolding takes_oldest_def by blast
qed

lemma takes_oldest_all:
  assumes "takes_oldest n q evs q'" and "length q \<le> n"
  shows "q' = []" and "mset evs = mset q"
proof -
  have "length evs = length q" "mset evs + mset q' = mset q" using assms by (simp_all add: takes_oldest_def)
  then have "size (mset q') = 0" by (metis add_diff_cancel_left' diff_self_eq_0 size_mset size_union)
  then show "q' = []" by simp
  with \<open>mset evs + mset q' = mset q\<close> show "mset evs = mset q" by simp
qed

lemma mset_oldest_first [simp]: "mset (oldest_first rank rs) = mset rs"
  by (simp add: oldest_first_def)

lemma set_oldest_first [simp]: "set (oldest_first rank rs) = set rs"
  by (simp add: oldest_first_def)

lemma length_oldest_first [simp]: "length (oldest_first rank rs) = length rs"
  by (simp add: oldest_first_def)

lemma oldest_first_distinct: "distinct (map er_id rs) \<Longrightarrow> distinct (map er_id (oldest_first rank rs))"
  by (metis mset_eq_imp_distinct_iff mset_map mset_oldest_first)

text \<open>The first rows of the answer of the server, and the queue without them.\<close>

lemma takes_oldest_take:
  fixes rank :: "string \<Rightarrow> int" and n :: nat
  assumes "distinct (map er_id q)"
  defines "batch \<equiv> take n (oldest_first rank q)"
  shows "takes_oldest n q batch (filter (\<lambda>r. er_id r \<notin> set (map er_id batch)) q)"
proof -
  let ?s = "oldest_first rank q"
  have dist: "distinct (map er_id ?s)" using assms(1) by (rule oldest_first_distinct)
  have s: "?s = batch @ drop n ?s" by (simp add: batch_def)
  have "filter (\<lambda>r. er_id r \<notin> set (map er_id batch)) batch = []" by (auto simp: filter_empty_conv)
  moreover have "set (map er_id batch) \<inter> set (map er_id (drop n ?s)) = {}"
    using dist by (metis distinct_append map_append s)
  then have "filter (\<lambda>r. er_id r \<notin> set (map er_id batch)) (drop n ?s) = drop n ?s" by (auto simp: filter_id_conv)
  ultimately have rest: "filter (\<lambda>r. er_id r \<notin> set (map er_id batch)) ?s = drop n ?s"
    by (metis append_Nil filter_append s)
  then have ms: "mset (filter (\<lambda>r. er_id r \<notin> set (map er_id batch)) q) = mset (drop n ?s)"
    by (metis mset_filter mset_oldest_first)
  then have sets: "set (filter (\<lambda>r. er_id r \<notin> set (map er_id batch)) q) = set (drop n ?s)" by (rule mset_eq_setD)
  have "sorted (map er_created_at batch @ map er_created_at (drop n ?s))"
    unfolding map_append [symmetric] s [symmetric] by (simp add: oldest_first_def)
  then have "sorted (map er_created_at batch)" "\<forall>e \<in> set batch. \<forall>r \<in> set (drop n ?s). er_created_at e \<le> er_created_at r"
    by (auto simp: sorted_append)
  moreover have "mset batch + mset (drop n ?s) = mset q" by (metis mset_append mset_oldest_first s)
  moreover have "length batch = min n (length q)" by (simp add: batch_def min.commute)
  ultimately show ?thesis unfolding takes_oldest_def sets ms by blast
qed

definition event_ids_distinct :: "order_db \<Rightarrow> bool" where
  "event_ids_distinct d \<longleftrightarrow> distinct (map er_id (t_outbox_events d))"

text \<open>The batch the server selects when it lists events of the same second by \<open>rank\<close>.\<close>

definition batch_of :: "(string \<Rightarrow> int) \<Rightarrow> nat \<Rightarrow> order_db \<Rightarrow> outboxEventRow list" where
  "batch_of rank n d = take n (oldest_first rank (pending d))"

lemma pending_batch_eq: "0 \<le> limit \<Longrightarrow> pending_batch rank limit d = Inr (batch_of rank (nat limit) d)"
  by (simp add: pending_batch_def page_of_def batch_of_def)

lemma set_pending [simp]: "set (pending d) = {r \<in> set (t_outbox_events d). er_status r = ''PENDING''}"
  by (simp add: pending_def)

lemma set_batch_of: "r \<in> set (batch_of rank n d) \<Longrightarrow> r \<in> set (pending d)"
  unfolding batch_of_def by (metis in_set_takeD set_oldest_first)

lemma pending_distinct: "event_ids_distinct d \<Longrightarrow> distinct (map er_id (pending d))"
  by (simp add: pending_def event_ids_distinct_def distinct_map_filter)

lemma set_outbox_status_ids [simp]:
  "map er_id (t_outbox_events (set_outbox_status sel s pub d)) = map er_id (t_outbox_events d)"
  by (simp add: set_outbox_status_def comp_def if_distrib cong: if_cong)

lemma event_ids_distinct_set_status [simp]:
  "event_ids_distinct (set_outbox_status sel s pub d) = event_ids_distinct d"
  unfolding event_ids_distinct_def by simp

lemma pending_set_status:
  assumes "s \<noteq> ''PENDING''"
  shows "pending (set_outbox_status sel s pub d) = filter (\<lambda>r. \<not> sel r) (pending d)"
proof -
  have "filter (\<lambda>r. er_status r = ''PENDING'') (t_outbox_events (set_outbox_status sel s pub d)) =
      filter (\<lambda>r. \<not> sel r) (filter (\<lambda>r. er_status r = ''PENDING'') (t_outbox_events d))"
  proof -
    have "filter (\<lambda>r. er_status r = ''PENDING'')
        (map (\<lambda>r. if sel r then r\<lparr>er_status := s, er_published_at := pub' r\<rparr> else r) rows) =
        filter (\<lambda>r. \<not> sel r) (filter (\<lambda>r. er_status r = ''PENDING'') rows)" for pub' rows
      using assms by (induction rows) auto
    then show ?thesis by (simp add: set_outbox_status_def)
  qed
  then show ?thesis by (simp add: pending_def)
qed

text \<open>The pending events without those of a batch.\<close>

definition without :: "outboxEventRow list \<Rightarrow> order_db \<Rightarrow> outboxEventRow list" where
  "without batch d = filter (\<lambda>r. er_id r \<notin> set (map er_id batch)) (pending d)"

lemma takes_oldest_batch:
  "event_ids_distinct d \<Longrightarrow> takes_oldest n (pending d) (batch_of rank n d) (without (batch_of rank n d) d)"
  unfolding without_def batch_of_def by (rule takes_oldest_take) (rule pending_distinct)

subsection \<open>Claiming\<close>

lemma set_outbox_status_none [simp]: "set_outbox_status (\<lambda>_. False) s pub d = d"
  by (simp add: set_outbox_status_def)

definition claimed :: "outboxEventRow list \<Rightarrow> order_db \<Rightarrow> order_db" where
  "claimed batch d = set_outbox_status (\<lambda>r. er_id r \<in> set (map er_id batch)) ''CLAIMED'' None d"

lemma pending_claimed: "pending (claimed batch d) = without batch d"
  by (simp add: claimed_def without_def pending_set_status)

lemma claimed_ids [simp]: "map er_id (t_outbox_events (claimed batch d)) = map er_id (t_outbox_events d)"
  by (simp add: claimed_def)

lemma claim_after_select:
  fixes d :: order_db
  assumes "calm env"
  defines "Q batch \<equiv> \<lambda>r w. r = Inr (map row_to_event batch) \<and> w_db w = claimed batch d"
  shows "triple (sees h d d)
      (if batch = [] then ok []
       else bindE (wrapE ''failed to mark events as claimed'' (exec_tx env h (claim_rows (map er_id batch)))) (\<lambda>_.
         bindE (wrapE ''failed to commit claim transaction'' (Commit env h)) (\<lambda>_. ok (map row_to_event batch))))
      (Q batch)"
proof (cases "batch = []")
  case True
  then show ?thesis by (simp add: triple_def sees_def Q_def claimed_def)
next
  case False
  have claim: "claim_rows (map er_id batch) d = Inr (claimed batch d, ())" by (simp add: claim_rows_def claimed_def)
  have "triple (sees h d d)
      (bindE (wrapE ''failed to mark events as claimed'' (exec_tx env h (claim_rows (map er_id batch)))) (\<lambda>_.
       bindE (wrapE ''failed to commit claim transaction'' (Commit env h)) (\<lambda>_. ok (map row_to_event batch))))
      (Q batch)"
    unfolding Q_def by (rule calm_tx_step [OF calm_exec_tx [OF assms(1)]], rule claim, rule calm_commit [OF assms(1)])
  with False show ?thesis by simp
qed

lemma ClaimBatch_calm_lemma:
  assumes "calm env" and "0 \<le> limit"
  shows "triple (\<lambda>w. w_db w = d) (outboxRepository_ClaimBatch env limit)
           (\<lambda>r w. \<exists>rank. r = Inr (map row_to_event (batch_of rank (nat limit) d)) \<and>
             w_db w = claimed (batch_of rank (nat limit) d) d)"
  unfolding outboxRepository_ClaimBatch_def
proof (rule calm_tx_block [OF assms(1), where Q = "\<lambda>r d'. \<exists>rank. r = Inr (map row_to_event (batch_of rank (nat limit) d)) \<and>
      d' = claimed (batch_of rank (nat limit) d) d"], rule triple_bind [OF calm_row_order])
  fix h rank
  let ?b = "batch_of rank (nat limit) d"
  have sel: "select_for_claim rank limit d = Inr (d, ?b)"
    using assms(2) by (simp add: select_for_claim_def pending_batch_eq)
  show "triple (sees h d d)
      (bindE (wrapE ''failed to claim pending events'' (exec_tx env h (select_for_claim rank limit))) (\<lambda>rows.
       if rows = [] then ok []
       else bindE (wrapE ''failed to mark events as claimed'' (exec_tx env h (claim_rows (map er_id rows)))) (\<lambda>_.
         bindE (wrapE ''failed to commit claim transaction'' (Commit env h)) (\<lambda>_. ok (map row_to_event rows)))))
      (\<lambda>r w. \<exists>rank. r = Inr (map row_to_event (batch_of rank (nat limit) d)) \<and>
        w_db w = claimed (batch_of rank (nat limit) d) d)"
    by (rule calm_tx_step [OF calm_exec_tx [where st = "select_for_claim rank limit", OF assms(1) sel]],
        rule triple_conseq [OF claim_after_select [OF assms(1)]]) auto
qed

lemma ClaimBatch_sends_nothing: "keeps (\<lambda>w. P (w_sent w)) (outboxRepository_ClaimBatch env limit)"
  unfolding outboxRepository_ClaimBatch_def by (intro keeps_intros)

subsection \<open>Publishing a batch in a calm environment\<close>

text \<open>The message for an event, as a consumer sees it.\<close>

definition message_of :: "OutboxEvent \<Rightarrow> Message \<Rightarrow> bool" where
  "message_of ev msg \<longleftrightarrow> m_topic msg = getTopicForEvent (ev_event_type ev) \<and>
     m_key msg = ev_aggregate_id ev \<and> m_value msg = ev_payload ev"

text \<open>The broker takes a message with a topic, and the id of an event is the one stored.\<close>

definition publisher_env :: "order_db env \<Rightarrow> bool" where
  "publisher_env env \<longleftrightarrow> calm env \<and> (\<forall>t. t \<noteq> '''' \<longrightarrow> e_writer_ok env '''' t)"

abbreviation publisher :: "order_db env \<Rightarrow> OutboxPublisher" where
  "publisher env \<equiv> NewOutboxPublisher env (NewOutboxRepository env)"

lemma getTopicForEvent_nonempty: "getTopicForEvent t \<noteq> ''''"
  by (auto simp: getTopicForEvent_def)

lemma publishEvent_calm:
  assumes "publisher_env env"
  shows "triple (\<lambda>w. w_db w = d \<and> w_sent w = s) (publishEvent env (publisher env) ev)
           (\<lambda>r w. r = Inr () \<and> w_db w = d \<and> (\<exists>msg. message_of ev msg \<and> w_sent w = s @ [msg]))"
  using assms getTopicForEvent_nonempty
  by (auto simp: triple_def publishEvent_def run_new_uuid InjectTraceHeaders_def run_next_tick
      event_message_def NewOutboxPublisher_def kafka_WriteMessages_def publisher_env_def message_of_def)

lemma publish_one_calm:
  assumes "publisher_env env" and "pg_uuid (e_pg env) (ev_id ev) = Some i"
  shows "triple (\<lambda>w. w_db w = d \<and> w_sent w = s) (publish_one env (publisher env) ev)
           (\<lambda>_ w. (\<exists>t. w_db w = set_outbox_status (\<lambda>r. er_id r = i) ''PUBLISHED'' (Some t) d) \<and>
             (\<exists>msg. message_of ev msg \<and> w_sent w = s @ [msg]))"
  unfolding publish_one_def
proof (rule triple_bind [OF publishEvent_calm [OF assms(1)]])
  show "triple (\<lambda>w. r = Inr () \<and> w_db w = d \<and> (\<exists>msg. message_of ev msg \<and> w_sent w = s @ [msg]))
      (do { _ \<leftarrow> (case r of
            Inl _ \<Rightarrow> OutboxRepository_MarkFailed (pub_repo (publisher env)) (ev_id ev)
          | Inr _ \<Rightarrow> OutboxRepository_MarkPublished (pub_repo (publisher env)) (ev_id ev)); ret () })
      (\<lambda>_ w. (\<exists>t. w_db w = set_outbox_status (\<lambda>r. er_id r = i) ''PUBLISHED'' (Some t) d) \<and>
             (\<exists>msg. message_of ev msg \<and> w_sent w = s @ [msg]))" for r
    using assms
    by (auto simp: triple_def NewOutboxPublisher_def NewOutboxRepository_def publisher_env_def
        outboxRepository_MarkPublished_def run_time_now run_exec_db_calm mark_outbox_def)
qed

text \<open>The events with these ids were marked as published; nothing else changed.\<close>

definition row_published :: "string set \<Rightarrow> outboxEventRow \<Rightarrow> outboxEventRow \<Rightarrow> bool" where
  "row_published ids r r' \<longleftrightarrow>
     (if er_id r \<in> ids then \<exists>t. r' = r\<lparr>er_status := ''PUBLISHED'', er_published_at := Some t\<rparr> else r' = r)"

definition published :: "string set \<Rightarrow> order_db \<Rightarrow> order_db \<Rightarrow> bool" where
  "published ids d d' \<longleftrightarrow> t_orders d' = t_orders d \<and> t_order_items d' = t_order_items d \<and>
     list_all2 (row_published ids) (t_outbox_events d) (t_outbox_events d')"

lemma row_published_id: "row_published ids r r' \<Longrightarrow> er_id r' = er_id r"
  by (auto simp: row_published_def split: if_splits)

lemma row_published_trans: "row_published A r r1 \<Longrightarrow> row_published B r1 r2 \<Longrightarrow> row_published (A \<union> B) r r2"
  using row_published_id [of A r r1] by (auto simp: row_published_def split: if_splits)

lemma published_refl: "published {} d d"
  by (simp add: published_def row_published_def list_all2_refl)

lemma published_one: "published {i} d (set_outbox_status (\<lambda>r. er_id r = i) ''PUBLISHED'' (Some t) d)"
  by (auto simp: published_def row_published_def set_outbox_status_def list_all2_conv_all_nth)

lemma published_trans:
  assumes "published A d d1" and "published B d1 d2"
  shows "published (A \<union> B) d d2"
proof -
  have "list_all2 (row_published (A \<union> B)) (t_outbox_events d) (t_outbox_events d2)"
    by (rule list_all2_trans [of "row_published A" "row_published B"])
      (use assms in \<open>auto simp: published_def intro: row_published_trans\<close>)
  with assms show ?thesis by (simp add: published_def)
qed

lemma pending_published:
  assumes "published ids d d'"
  shows "pending d' = filter (\<lambda>r. er_id r \<notin> ids) (pending d)"
proof -
  have "filter (\<lambda>r. er_status r = ''PENDING'') rows' =
      filter (\<lambda>r. er_id r \<notin> ids) (filter (\<lambda>r. er_status r = ''PENDING'') rows)"
    if "list_all2 (row_published ids) rows rows'" for rows rows'
    using that by (induction rule: list_all2_induct) (auto simp: row_published_def split: if_splits)
  from this [of "t_outbox_events d" "t_outbox_events d'"] assms show ?thesis
    by (simp add: published_def pending_def)
qed

lemma published_ids:
  assumes "published ids d d'"
  shows "map er_id (t_outbox_events d') = map er_id (t_outbox_events d)"
proof -
  have "list_all2 (\<lambda>r r'. er_id r' = er_id r) (t_outbox_events d) (t_outbox_events d')"
    using assms by (auto simp: published_def elim!: list_all2_mono dest: row_published_id)
  then show ?thesis by (induction rule: list_all2_induct) auto
qed

lemma publish_all_calm:
  assumes "publisher_env env" and "\<And>ev. ev \<in> set evs \<Longrightarrow> pg_uuid (e_pg env) (ev_id ev) = Some (ev_id ev)"
  shows "triple (\<lambda>w. w_db w = d \<and> w_sent w = s) (for_each (publish_one env (publisher env)) evs)
           (\<lambda>_ w. published (set (map ev_id evs)) d (w_db w) \<and>
              (\<exists>msgs. list_all2 message_of evs msgs \<and> w_sent w = s @ msgs))"
  using assms(2)
proof (induction evs arbitrary: d s)
  case (Cons ev evs)
  show ?case
  proof (simp, rule triple_bind [OF publish_one_calm [OF assms(1) Cons.prems]], simp, rule tripleI)
    fix w :: "order_db world"
    assume "(\<exists>t. w_db w = set_outbox_status (\<lambda>r. er_id r = ev_id ev) ''PUBLISHED'' (Some t) d) \<and>
        (\<exists>msg. message_of ev msg \<and> w_sent w = s @ [msg])"
    then obtain t msg where w: "w_db w = set_outbox_status (\<lambda>r. er_id r = ev_id ev) ''PUBLISHED'' (Some t) d"
        "message_of ev msg" "w_sent w = s @ [msg]" by auto
    obtain w' where run: "run_state (for_each (publish_one env (publisher env)) evs) w = ((), w')"
      by (metis old.unit.exhaust surj_pair)
    have "published (set (map ev_id evs)) (w_db w) (w_db w')"
      "\<exists>msgs. list_all2 message_of evs msgs \<and> w_sent w' = (s @ [msg]) @ msgs"
      using tripleD [OF Cons.IH [of "w_db w" "s @ [msg]"] _ run] Cons.prems w by auto
    moreover have "published {ev_id ev} d (w_db w)" unfolding w(1) by (rule published_one)
    ultimately have "published (set (map ev_id (ev # evs))) d (w_db w')"
      "\<exists>msgs. list_all2 message_of (ev # evs) msgs \<and> w_sent w' = s @ msgs"
      using published_trans [of "{ev_id ev}" d "w_db w"] w(2) by (auto simp: list_all2_Cons1)
    with run show "case run_state (for_each (publish_one env (publisher env)) evs) w of (uu_, w') \<Rightarrow>
        published (insert (ev_id ev) (ev_id ` set evs)) d (w_db w') \<and>
        (\<exists>msgs. list_all2 message_of (ev # evs) msgs \<and> w_sent w' = s @ msgs)"
      by simp
  qed
qed (simp add: triple_def published_refl)

text \<open>Ids of stored events are ids the server returned.\<close>

definition ids_stored :: "pg_types \<Rightarrow> order_db \<Rightarrow> bool" where
  "ids_stored pg d \<longleftrightarrow> (\<forall>r \<in> set (t_outbox_events d). pg_uuid pg (er_id r) = Some (er_id r))"

lemma ids_stored_ids: "ids_stored pg d \<longleftrightarrow> (\<forall>i \<in> set (map er_id (t_outbox_events d)). pg_uuid pg i = Some i)"
  by (simp add: ids_stored_def)

text \<open>One batch: oldest events go to the broker, oldest first, and are published.\<close>

definition batch_published :: "outboxEventRow list \<Rightarrow> order_db \<Rightarrow> Message list \<Rightarrow> order_db \<Rightarrow> Message list \<Rightarrow> bool" where
  "batch_published batch d s d' s' \<longleftrightarrow>
     (\<exists>msgs. list_all2 message_of (map row_to_event batch) msgs \<and> s' = s @ msgs) \<and>
     published (set (map er_id batch)) (claimed batch d) d'"

lemma publishBatch_calm_lemma:
  assumes "publisher_env env" and "0 \<le> limit" and "ids_stored (e_pg env) d"
  shows "triple (\<lambda>w. w_db w = d \<and> w_sent w = s) (publishBatch env (publisher env) limit)
           (\<lambda>r w. r = Inr () \<and> (\<exists>rank. batch_published (batch_of rank (nat limit) d) d s (w_db w) (w_sent w)))"
proof -
  let ?b = "\<lambda>rank. batch_of rank (nat limit) d"
  let ?claimed = "\<lambda>evs w. \<exists>rank. evs = map row_to_event (?b rank) \<and> w_db w = claimed (?b rank) d \<and> w_sent w = s"
  let ?Q = "\<lambda>w. \<exists>rank. batch_published (?b rank) d s (w_db w) (w_sent w)"
  have calm: "calm env" using assms(1) by (simp add: publisher_env_def)
  have repo: "OutboxRepository_ClaimBatch (pub_repo (publisher env)) limit = outboxRepository_ClaimBatch env limit"
    by (simp add: NewOutboxPublisher_def NewOutboxRepository_def)
  have claim: "triple (\<lambda>w. w_db w = d \<and> w_sent w = s) (outboxRepository_ClaimBatch env limit)
      (\<lambda>r w. case r of Inl e \<Rightarrow> False | Inr evs \<Rightarrow> ?claimed evs w)"
    using ClaimBatch_calm_lemma [OF calm assms(2)] triple_keeps [OF ClaimBatch_sends_nothing]
    unfolding triple_def by (fastforce split: sum.splits prod.splits)
  have all: "triple (\<lambda>w. w_db w = claimed (?b rank) d \<and> w_sent w = s)
      (for_each (publish_one env (publisher env)) (map row_to_event (?b rank))) (\<lambda>_. ?Q)" for rank
  proof -
    have ids: "pg_uuid (e_pg env) (ev_id ev) = Some (ev_id ev)" if "ev \<in> set (map row_to_event (?b rank))" for ev
      using that assms(3) by (auto simp: ids_stored_def row_to_event_def dest: set_batch_of)
    have map_ids: "map ev_id (map row_to_event (?b rank)) = map er_id (?b rank)" by (simp add: row_to_event_def)
    show ?thesis
      using publish_all_calm [OF assms(1) ids, of "map row_to_event (?b rank)" "claimed (?b rank) d" s]
      unfolding batch_published_def map_ids by (rule triple_conseq) auto
  qed
  have rest: "triple (?claimed evs)
      (if evs = [] then ok () else do { _ \<leftarrow> for_each (publish_one env (publisher env)) evs; ok () })
      (\<lambda>r w. r = Inr () \<and> ?Q w)" for evs
  proof (rule tripleI)
    fix w :: "order_db world" assume "?claimed evs w"
    then obtain rank where "evs = map row_to_event (?b rank)" "w_db w = claimed (?b rank) d \<and> w_sent w = s" by blast
    with tripleD [OF all [of rank], of w]
    show "case run_state (if evs = [] then ok () else do { _ \<leftarrow> for_each (publish_one env (publisher env)) evs; ok () }) w of
        (r, w) \<Rightarrow> r = Inr () \<and> ?Q w"
      by (cases "evs = []") (auto split: prod.splits)
  qed
  show ?thesis
    unfolding publishBatch_def repo
    by (rule triple_bindE [where R = ?claimed], rule triple_conseq [OF claim]) (use rest in \<open>auto split: sum.splits\<close>)
qed

lemma batch_published_pending:
  assumes "batch_published batch d s d' s'"
  shows "pending d' = without batch d"
proof -
  have "pending d' = filter (\<lambda>r. er_id r \<notin> set (map er_id batch)) (without batch d)"
    using assms pending_published pending_claimed by (fastforce simp: batch_published_def)
  then show ?thesis by (simp add: without_def)
qed

lemma batch_published_wf:
  assumes "batch_published batch d s d' s'"
  shows "event_ids_distinct d' = event_ids_distinct d" and "ids_stored pg d' = ids_stored pg d"
proof -
  have "map er_id (t_outbox_events d') = map er_id (t_outbox_events d)"
    using assms published_ids by (fastforce simp: batch_published_def)
  then show "event_ids_distinct d' = event_ids_distinct d" "ids_stored pg d' = ids_stored pg d"
    unfolding event_ids_distinct_def ids_stored_ids by simp_all
qed

subsection \<open>Properties\<close>

text \<open>
  In a calm environment \<open>ClaimBatch\<close> returns \<open>limit\<close> oldest pending events, oldest first,
  and marks exactly these as claimed; the queue of pending events loses exactly these, so a
  later claim can not return them again.
\<close>

theorem ClaimBatch_takes_oldest:
  assumes "calm env" and "0 \<le> limit" and "event_ids_distinct (w_db w)"
    and "run_state (outboxRepository_ClaimBatch env limit) w = (r, w')"
  shows "\<exists>batch. r = Inr (map row_to_event batch) \<and> w_db w' = claimed batch (w_db w) \<and>
    takes_oldest (nat limit) (pending (w_db w)) batch (pending (w_db w'))"
  using tripleD [OF ClaimBatch_calm_lemma [OF assms(1,2)] _ assms(4)] takes_oldest_batch [OF assms(3)]
  by (fastforce simp: pending_claimed)

text \<open>
  Every event the order use cases emit is published on the topic that has the name of its
  type, and an event of any other type goes to a topic as well.
\<close>

theorem getTopicForEvent_routes:
  "getTopicForEvent ''order.created'' = ''order.created'' \<and>
   getTopicForEvent ''order.cancelled'' = ''order.cancelled'' \<and>
   getTopicForEvent ''order.confirmed'' = ''order.confirmed'' \<and>
   getTopicForEvent t \<in> {t, ''default''} \<and> getTopicForEvent t \<noteq> ''''"
  by (simp add: getTopicForEvent_def)

text \<open>The messages of some ticks: those of the oldest events, which leave the queue.\<close>

definition ticks_published :: "nat \<Rightarrow> order_db \<Rightarrow> Message list \<Rightarrow> order_db \<Rightarrow> Message list \<Rightarrow> bool" where
  "ticks_published n d s d' s' \<longleftrightarrow>
     (\<exists>evs msgs. takes_oldest n (pending d) evs (pending d') \<and>
        list_all2 message_of (map row_to_event evs) msgs \<and> s' = s @ msgs)"

lemma ticks_published_trans:
  assumes "ticks_published n d s d1 s1" and "ticks_published m d1 s1 d2 s2"
  shows "ticks_published (n + m) d s d2 s2"
proof -
  from assms(1) obtain evs msgs where 1: "takes_oldest n (pending d) evs (pending d1)"
      "list_all2 message_of (map row_to_event evs) msgs" "s1 = s @ msgs" by (auto simp: ticks_published_def)
  from assms(2) obtain evs' msgs' where 2: "takes_oldest m (pending d1) evs' (pending d2)"
      "list_all2 message_of (map row_to_event evs') msgs'" "s2 = s1 @ msgs'" by (auto simp: ticks_published_def)
  have "list_all2 message_of (map row_to_event (evs @ evs')) (msgs @ msgs')"
    using 1(2) 2(2) by (simp add: list_all2_appendI)
  with takes_oldest_trans [OF 1(1) 2(1)] 1(3) 2(3) show ?thesis
    unfolding ticks_published_def by (metis append.assoc)
qed

lemma ticks_published_batch:
  "event_ids_distinct d \<Longrightarrow> batch_published (batch_of rank n d) d s d' s' \<Longrightarrow> ticks_published n d s d' s'"
  using takes_oldest_batch [of d n rank] batch_published_pending [of "batch_of rank n d" d s d' s']
  by (auto simp: ticks_published_def batch_published_def)

lemma Start_calm_lemma:
  assumes "publisher_env env" and "0 \<le> limit"
  shows "ids_stored (e_pg env) d \<Longrightarrow> event_ids_distinct d \<Longrightarrow>
     triple (\<lambda>w. w_db w = d \<and> w_sent w = s)
       (OutboxPublisher_Start env (publisher env) limit (replicate k Tick))
       (\<lambda>_ w. ticks_published (k * nat limit) d s (w_db w) (w_sent w))"
proof (induction k arbitrary: d s)
  case 0
  then show ?case by (auto simp: triple_def ticks_published_def intro: takes_oldest_none)
next
  case (Suc k)
  show ?case
  proof (simp only: replicate_Suc OutboxPublisher_Start.simps,
      rule triple_bind [OF publishBatch_calm_lemma [OF assms Suc.prems(1)]], rule tripleI)
    fix r and w :: "order_db world"
    assume "r = Inr () \<and> (\<exists>rank. batch_published (batch_of rank (nat limit) d) d s (w_db w) (w_sent w))"
    then obtain rank where b: "batch_published (batch_of rank (nat limit) d) d s (w_db w) (w_sent w)" by blast
    obtain w' where run: "run_state (OutboxPublisher_Start env (publisher env) limit (replicate k Tick)) w = ((), w')"
      by (metis old.unit.exhaust surj_pair)
    have "ticks_published (k * nat limit) (w_db w) (w_sent w) (w_db w') (w_sent w')"
      using tripleD [OF Suc.IH _ run] Suc.prems batch_published_wf [OF b] by simp
    from ticks_published_trans [OF ticks_published_batch [OF Suc.prems(2) b] this] run
    show "case run_state (OutboxPublisher_Start env (publisher env) limit (replicate k Tick)) w of
        (_, w) \<Rightarrow> ticks_published (Suc k * nat limit) d s (w_db w) (w_sent w)"
      by simp
  qed
qed

lemma Start_drains_lemma:
  assumes "publisher_env env" and "0 \<le> limit"
    and "ids_stored (e_pg env) (w_db w)" and "event_ids_distinct (w_db w)"
    and "length (pending (w_db w)) \<le> k * nat limit"
    and "run_state (OutboxPublisher_Start env (publisher env) limit (replicate k Tick)) w = (r, w')"
  shows "pending (w_db w') = [] \<and>
         (\<exists>evs msgs. mset evs = mset (pending (w_db w)) \<and> sorted (map er_created_at evs) \<and>
            list_all2 message_of (map row_to_event evs) msgs \<and> w_sent w' = w_sent w @ msgs)"
proof -
  have "ticks_published (k * nat limit) (w_db w) (w_sent w) (w_db w') (w_sent w')"
    using tripleD [OF Start_calm_lemma [OF assms(1-4)] _ assms(6)] by simp
  then obtain evs msgs where t: "takes_oldest (k * nat limit) (pending (w_db w)) evs (pending (w_db w'))"
      "list_all2 message_of (map row_to_event evs) msgs" "w_sent w' = w_sent w @ msgs"
    by (auto simp: ticks_published_def)
  moreover have "sorted (map er_created_at evs)" using t(1) by (simp add: takes_oldest_def)
  ultimately show ?thesis using takes_oldest_all [OF t(1) assms(5)] by blast
qed

text \<open>
  C10: a publisher alone in a calm environment, whose batch size times the number of its ticks
  reaches the number of pending events, sends every pending event exactly once, oldest first
  (events of the same second, which the query does not order, in some order), on the topic of
  its type and with its aggregate as key, and leaves no event pending.
\<close>

theorem publisher_drains_outbox:
  assumes "publisher_env env" and "0 \<le> limit"
    and "ids_stored (e_pg env) (w_db w)" and "event_ids_distinct (w_db w)"
    and "length (pending (w_db w)) \<le> k * nat limit"
    and "run_state (OutboxPublisher_Start env (publisher env) limit (replicate k Tick)) w = (r, w')"
  shows "pending (w_db w') = [] \<and>
         (\<exists>evs msgs. mset evs = mset (pending (w_db w)) \<and> sorted (map er_created_at evs) \<and>
            list_all2 message_of (map row_to_event evs) msgs \<and> w_sent w' = w_sent w @ msgs)"
  by (rule Start_drains_lemma [OF assms])

definition demo_event :: "string \<Rightarrow> string \<Rightarrow> int \<Rightarrow> outboxEventRow" where
  "demo_event i s t = \<lparr>er_id = i, er_aggregate_type = ''order'', er_aggregate_id = ''o1'',
     er_event_type = ''order.created'', er_payload = JObj [], er_status = s, er_created_at = t,
     er_published_at = None\<rparr>"

definition demo_outbox :: order_db where
  "demo_outbox = \<lparr>t_orders = [], t_order_items = [],
     t_outbox_events = [demo_event ''e1'' ''PENDING'' 5, demo_event ''e2'' ''PUBLISHED'' 1,
       demo_event ''e3'' ''PENDING'' 2]\<rparr>"

lemma demo_outbox_ok:
  "publisher_env ideal_env" "ids_stored ideal_pg demo_outbox" "event_ids_distinct demo_outbox"
  "pending demo_outbox = [demo_event ''e1'' ''PENDING'' 5, demo_event ''e3'' ''PENDING'' 2]"
  "oldest_first rank (pending demo_outbox) = [demo_event ''e3'' ''PENDING'' 2, demo_event ''e1'' ''PENDING'' 5]"
  by (simp_all add: publisher_env_def ids_stored_def event_ids_distinct_def pending_def demo_outbox_def demo_event_def
      oldest_first_def)

theorem ClaimBatch_takes_oldest_witness:
  "\<exists>e w'. run_state (outboxRepository_ClaimBatch ideal_env 1) (idle demo_outbox) = (Inr [row_to_event e], w') \<and>
     takes_oldest 1 (pending demo_outbox) [e] (pending (w_db w'))"
proof -
  obtain r w' where run: "run_state (outboxRepository_ClaimBatch ideal_env 1) (idle demo_outbox) = (r, w')"
    by force
  have ids: "event_ids_distinct (w_db (idle demo_outbox))" by (simp add: demo_outbox_ok)
  from ClaimBatch_takes_oldest [OF calm_ideal zero_le_one ids run] obtain batch where
    b: "r = Inr (map row_to_event batch)" "takes_oldest 1 (pending demo_outbox) batch (pending (w_db w'))" by auto
  then have "length batch = 1" by (simp add: takes_oldest_def demo_outbox_ok)
  then obtain e where "batch = [e]" by (auto simp: length_Suc_conv)
  with b run show ?thesis by auto
qed

theorem publisher_drains_outbox_witness:
  "case run_state (OutboxPublisher_Start ideal_env (publisher ideal_env) 1 (replicate 2 Tick)) (idle demo_outbox)
     of (r, w') \<Rightarrow> pending (w_db w') = [] \<and> length (w_sent w') = 2"
proof -
  obtain r w' where run: "run_state (OutboxPublisher_Start ideal_env (publisher ideal_env) 1 (replicate 2 Tick)) (idle demo_outbox) = (r, w')"
    by (metis surj_pair)
  have "length (pending (w_db (idle demo_outbox))) \<le> 2 * nat 1" by (simp add: demo_outbox_ok)
  from publisher_drains_outbox [OF demo_outbox_ok(1) zero_le_one _ _ this run] demo_outbox_ok(2,3)
  obtain evs msgs where "pending (w_db w') = []" "mset evs = mset (pending demo_outbox)"
      "list_all2 message_of (map row_to_event evs) msgs" "w_sent w' = msgs" by auto
  moreover from this(2) have "length evs = 2" unfolding demo_outbox_ok(4) by (metis length_Cons list.size(3) numeral_2_eq_2 size_mset)
  moreover from calculation(3) have "length msgs = length evs" by (simp add: list_all2_lengthD [symmetric])
  ultimately show ?thesis using run by simp
qed

end
