(* ===== verification/Order_Guarantees.thy ===== *)
theory Order_Guarantees
  imports Order_Service Outbox_Publisher
begin

text \<open>
  What any sequence of calls to the order service keeps, in every environment: the integrity
  of its tables and the durability of what they record. Both are guarantees in the sense of
  \<open>db_guarantee\<close>: the service keeps them while the other clients of its database (other
  replicas of the same service among them) keep them, whatever round trips fail.
\<close>

subsection \<open>The service as its callers see it\<close>

text \<open>A request to the order service, or a tick of its outbox publisher.\<close>

datatype order_call =
    DoCreate CreateOrderRequest
  | DoGet string
  | DoList string int int
  | DoCancel string string
  | DoConfirm string
  | DoPublish int

fun serve :: "order_db env \<Rightarrow> createOrderUseCase \<Rightarrow> order_call \<Rightarrow> (order_db, unit) io" where
  "serve env uc (DoCreate req) = do { _ \<leftarrow> CreateOrder env uc req; ret () }"
| "serve env uc (DoGet oid) = do { _ \<leftarrow> GetOrder env uc oid; ret () }"
| "serve env uc (DoList c limit offset) = do { _ \<leftarrow> ListOrders env uc c limit offset; ret () }"
| "serve env uc (DoCancel oid reason) = do { _ \<leftarrow> CancelOrder env uc oid reason; ret () }"
| "serve env uc (DoConfirm oid) = do { _ \<leftarrow> ConfirmOrder env uc oid; ret () }"
| "serve env uc (DoPublish n) = do { _ \<leftarrow> publishBatch env (publisher env) n; ret () }"

subsection \<open>A guarantee of the statements is a guarantee of the service\<close>

text \<open>The statements the service executes, on whatever values.\<close>

definition order_stmts_in :: "pg_types \<Rightarrow> (order_db \<Rightarrow> order_db \<Rightarrow> bool) \<Rightarrow> bool" where
  "order_stmts_in pg R \<longleftrightarrow>
     (\<forall>ord. stmt_in R (insert_order pg ord)) \<and>
     (\<forall>item now. stmt_in R (insert_order_item pg item now)) \<and>
     (\<forall>ev. stmt_in R (insert_outbox pg ev)) \<and>
     (\<forall>oid s now. stmt_in R (update_order_status pg oid s now)) \<and>
     (\<forall>rank limit. stmt_in R (select_for_claim rank limit)) \<and>
     (\<forall>ids. stmt_in R (claim_rows ids)) \<and>
     (\<forall>s oid now. stmt_in R (mark_outbox pg s oid now))"

lemma order_stmts_inD [safe_intros]:
  "order_stmts_in pg R \<Longrightarrow> stmt_in R (insert_order pg ord)"
  "order_stmts_in pg R \<Longrightarrow> stmt_in R (insert_order_item pg item now)"
  "order_stmts_in pg R \<Longrightarrow> stmt_in R (insert_outbox pg ev)"
  "order_stmts_in pg R \<Longrightarrow> stmt_in R (update_order_status pg oid s now)"
  "order_stmts_in pg R \<Longrightarrow> stmt_in R (select_for_claim rank limit)"
  "order_stmts_in pg R \<Longrightarrow> stmt_in R (claim_rows ids)"
  "order_stmts_in pg R \<Longrightarrow> stmt_in R (mark_outbox pg s oid now)"
  by (simp_all add: order_stmts_in_def)

text \<open>The reading operations of the repositories change nothing in the database.\<close>

locale order_reader = order_store +
  assumes get_safe: "db_guarantee R \<Longrightarrow> rely R env \<Longrightarrow> safe R (OrderRepository_GetByID (uc_orderRepo uc) oid)"
    and items_safe: "db_guarantee R \<Longrightarrow> rely R env \<Longrightarrow> safe R (OrderItemRepository_GetByOrderID (uc_orderItemRepo uc) oid)"
    and list_safe: "db_guarantee R \<Longrightarrow> rely R env \<Longrightarrow> safe R (OrderRepository_List (uc_orderRepo uc) c limit offset)"

text \<open>A guarantee about the order database.\<close>

locale order_guarantee = db_guarantee R for R :: "order_db \<Rightarrow> order_db \<Rightarrow> bool"
begin

lemma safe_publishBatch:
  assumes "rely R env" and "order_stmts_in (e_pg env) R"
  shows "safe R (publishBatch env (publisher env) n)"
  unfolding publishBatch_def publish_one_def publishEvent_def NewOutboxPublisher_def NewOutboxRepository_def
    outboxRepository_ClaimBatch_def outboxRepository_MarkPublished_def outboxRepository_MarkFailed_def
  by (auto intro!: safe_intros assms)

lemma safe_store:
  assumes "order_store env uc" and "rely R env" and "order_stmts_in (e_pg env) R"
  shows "safe R (store_order env uc ord ev)" and "safe R (store_status env uc msg oid status ev)"
  unfolding store_order_def store_status_def order_store.store_contract [OF assms(1)]
  by (intro safe_intros assms)+

lemma safe_CreateOrder:
  assumes "order_store env uc" and "rely R env" and "order_stmts_in (e_pg env) R"
  shows "safe R (CreateOrder env uc req)"
  unfolding CreateOrder_def new_order_def new_item_def new_event_def order_store.find_key [OF assms(1)]
  by (intro safe_intros assms safe_store)

lemma safe_use_cases:
  assumes "order_reader env uc" and "rely R env" and "order_stmts_in (e_pg env) R"
  shows "safe R (CreateOrder env uc req)" and "safe R (GetOrder env uc oid)"
    and "safe R (ListOrders env uc c limit offset)" and "safe R (CancelOrder env uc oid reason)"
    and "safe R (ConfirmOrder env uc oid)"
proof -
  have store: "order_store env uc" using assms(1) by (simp add: order_reader_def)
  note reads = order_reader.get_safe [OF assms(1) db_guarantee_axioms assms(2)]
    order_reader.items_safe [OF assms(1) db_guarantee_axioms assms(2)]
    order_reader.list_safe [OF assms(1) db_guarantee_axioms assms(2)]
  show "safe R (CreateOrder env uc req)" by (intro safe_CreateOrder store assms)
  show "safe R (GetOrder env uc oid)" "safe R (ListOrders env uc c limit offset)"
    "safe R (CancelOrder env uc oid reason)" "safe R (ConfirmOrder env uc oid)"
    by (auto simp: GetOrder_def ListOrders_def CancelOrder_def ConfirmOrder_def new_event_def
        intro!: safe_intros safe_store reads store assms)
qed

lemma safe_serve:
  assumes "order_reader env uc" and "rely R env" and "order_stmts_in (e_pg env) R"
  shows "safe R (serve env uc call)"
  by (cases call) (auto intro!: safe_intros safe_use_cases safe_publishBatch assms)

text \<open>The relation holds between the states before and after any sequence of calls.\<close>

lemma serve_all:
  assumes "order_reader env uc" and "rely R env" and "order_stmts_in (e_pg env) R" and "logs_in R w"
  shows "R (w_db w) (w_db (snd (run_state (for_each (serve env uc) calls) w)))"
proof -
  have "safe R (for_each (serve env uc) calls)" by (intro safe_intros safe_serve assms)
  with assms(4) show ?thesis by (simp add: safe_def)
qed

end

interpretation plain_reader: order_reader env "plain_orderUC env" for env
  by unfold_locales
    (auto simp: plain_orderUC_def NewOrderRepository_def NewOrderItemRepository_def
      orderRepository_GetByID_def orderItemRepository_GetByOrderID_def orderRepository_List_def
      intro!: db_guarantee.safe_bind db_guarantee.safe_bindE db_guarantee.safe_ret
        db_guarantee.safe_GetContext db_guarantee.safe_SelectContext db_guarantee.safe_row_order)

interpretation cached_reader: order_reader env "orderUC env" for env
  by unfold_locales
    (auto simp: orderUC_def NewOrderCache_def NewOrderItemCache_def NewOrderRepository_def NewOrderItemRepository_def
      orderRepository_GetByID_def orderItemRepository_GetByOrderID_def orderRepository_List_def
      OrderCache_GetByID_def OrderItemCache_GetByOrderID_def
      intro!: db_guarantee.safe_bind db_guarantee.safe_bindE db_guarantee.safe_ret safe_case_option
        db_guarantee.safe_GetContext db_guarantee.safe_SelectContext db_guarantee.safe_row_order
        db_guarantee.safe_Cache_Get db_guarantee.safe_Cache_Set)

subsection \<open>Integrity\<close>

text \<open>
  The constraints of the schema: primary keys, the unique idempotency key (which the service
  never leaves NULL) and the reference of an item to its order.
\<close>

definition orders_wf :: "order_db \<Rightarrow> bool" where
  "orders_wf d \<longleftrightarrow>
     distinct (map or_id (t_orders d)) \<and> distinct (map or_idempotency_key (t_orders d)) \<and>
     distinct (map ir_id (t_order_items d)) \<and> event_ids_distinct d \<and>
     (\<forall>i \<in> set (t_order_items d). ir_order_id i \<in> or_id ` set (t_orders d))"

lemma set_order_status_keys [simp]:
  "map or_id (t_orders (set_order_status i s t d)) = map or_id (t_orders d)"
  "map or_idempotency_key (t_orders (set_order_status i s t d)) = map or_idempotency_key (t_orders d)"
  "t_order_items (set_order_status i s t d) = t_order_items d"
  "t_outbox_events (set_order_status i s t d) = t_outbox_events d"
  by (simp_all add: set_order_status_def comp_def if_distrib cong: if_cong)

lemma set_order_status_ids [simp]: "or_id ` set (t_orders (set_order_status i s t d)) = or_id ` set (t_orders d)"
  by (simp flip: set_map)

lemma set_outbox_status_frame [simp]:
  "t_orders (set_outbox_status sel s pub d) = t_orders d"
  "t_order_items (set_outbox_status sel s pub d) = t_order_items d"
  by (simp_all add: set_outbox_status_def)

lemma insert_order_item_cases:
  assumes "insert_order_item pg item now d = Inr (d', x)"
  obtains r where "order_item_row pg item now = Some r" "ir_id r \<notin> ir_id ` set (t_order_items d)"
    "ir_order_id r \<in> or_id ` set (t_orders d)" "d' = d\<lparr>t_order_items := t_order_items d @ [r]\<rparr>"
proof -
  from assms obtain r where r: "order_item_row pg item now = Some r"
      "\<not> list_ex (\<lambda>q. ir_id q = ir_id r) (t_order_items d)" "list_ex (\<lambda>ord. or_id ord = ir_order_id r) (t_orders d)"
      "d' = d\<lparr>t_order_items := t_order_items d @ [r]\<rparr>"
    by (auto simp: insert_order_item_def split: option.splits if_splits)
  then have "ir_id r \<notin> ir_id ` set (t_order_items d)" "ir_order_id r \<in> or_id ` set (t_orders d)"
    by (force simp: list_ex_iff)+
  with r that show thesis by blast
qed

lemma order_stmts_wf: "order_stmts_in pg (preserves orders_wf)"
  unfolding order_stmts_in_def
proof (intro conjI allI; rule stmt_inI)
  show "preserves orders_wf d d'" if "insert_order pg ord d = Inr (d', x)" for ord d d' x
    using that by (fastforce simp: insert_order_def preserves_def orders_wf_def event_ids_distinct_def list_ex_iff
        split: option.splits if_splits)
  show "preserves orders_wf d d'" if "insert_order_item pg item now d = Inr (d', x)" for item now d d' x
    using that by (rule insert_order_item_cases) (simp add: preserves_def orders_wf_def event_ids_distinct_def)
  show "preserves orders_wf d d'" if "insert_outbox pg ev d = Inr (d', x)" for ev d d' x
    using that by (fastforce simp: insert_outbox_def preserves_def orders_wf_def event_ids_distinct_def list_ex_iff
        split: option.splits if_splits)
  show "preserves orders_wf d d'" if "update_order_status pg oid s now d = Inr (d', x)" for oid s now d d' x
    using that by (auto simp: update_order_status_eq preserves_def orders_wf_def event_ids_distinct_def
        split: option.splits)
  show "preserves orders_wf d d'" if "select_for_claim rank limit d = Inr (d', x)" for rank limit d d' x
    using that by (auto simp: select_for_claim_def preserves_def split: sum.splits)
  show "preserves orders_wf d d'" if "claim_rows ids d = Inr (d', x)" for ids d d' x
    using that by (auto simp: claim_rows_def preserves_def orders_wf_def)
  show "preserves orders_wf d d'" if "mark_outbox pg s oid now d = Inr (d', x)" for s oid now d d' x
    using that by (auto simp: mark_outbox_def preserves_def orders_wf_def split: option.splits)
qed

interpretation integrity: order_guarantee "preserves orders_wf"
  by (rule order_guarantee.intro) (rule db_guarantee_preserves)

subsection \<open>Durability\<close>

text \<open>What a row says apart from its status; the tables only grow in it.\<close>

definition order_core :: "orderRow \<Rightarrow> orderRow" where
  "order_core r = r\<lparr>or_status := '''', or_updated_at := 0\<rparr>"

definition event_core :: "outboxEventRow \<Rightarrow> outboxEventRow" where
  "event_core e = e\<lparr>er_status := '''', er_published_at := None\<rparr>"

definition orders_extend :: "order_db \<Rightarrow> order_db \<Rightarrow> bool" where
  "orders_extend d d' \<longleftrightarrow>
     prefix (map order_core (t_orders d)) (map order_core (t_orders d')) \<and>
     prefix (t_order_items d) (t_order_items d') \<and>
     prefix (map event_core (t_outbox_events d)) (map event_core (t_outbox_events d'))"

interpretation durability: order_guarantee orders_extend
  by unfold_locales (auto simp: orders_extend_def intro: prefix_order.trans)

lemma order_core_set_status [simp]: "map order_core (t_orders (set_order_status i s t d)) = map order_core (t_orders d)"
  by (simp add: set_order_status_def order_core_def comp_def if_distrib cong: if_cong)

lemma event_core_set_status [simp]:
  "map event_core (t_outbox_events (set_outbox_status sel s pub d)) = map event_core (t_outbox_events d)"
  by (simp add: set_outbox_status_def event_core_def comp_def if_distrib cong: if_cong)

lemma order_stmts_extend: "order_stmts_in pg orders_extend"
  unfolding order_stmts_in_def
  by (intro conjI allI; rule stmt_inI)
    (auto simp: insert_order_def insert_order_item_def insert_outbox_def update_order_status_eq
      select_for_claim_def claim_rows_def mark_outbox_def orders_extend_def
      split: option.splits if_splits sum.splits)

end
