(* ===== verification/Order_Props.thy ===== *)
theory Order_Props
  imports Order_Guarantees
begin

text \<open>
  The properties of \<open>CreateOrder\<close> and of the order service as a whole: integrity and durability
  of the tables, atomicity, success and idempotency of a creation.
\<close>

subsection \<open>Integrity and durability\<close>

text \<open>
  Whatever calls the order service serves, the tables keep the constraints of the schema, which
  the theorems about a stored idempotency key rely on.
\<close>

lemma serve_keeps_wf:
  assumes "rely (preserves orders_wf) env" and "w_txs w = (\<lambda>_. None)" and "orders_wf (w_db w)"
  shows "orders_wf (w_db (snd (run_state (for_each (serve env (orderUC env)) calls) w)))"
  using integrity.serve_all [OF cached_reader.order_reader_axioms assms(1) order_stmts_wf, of w calls] assms
  by (simp add: preserves_def)

definition demo_order_row :: "string \<Rightarrow> string \<Rightarrow> orderRow" where
  "demo_order_row i s = \<lparr>or_id = i, or_customer_id = ''c'', or_status = s, or_currency = ''USD'',
     or_subtotal = Fin 0, or_discount_amount = Fin 0, or_shipping_fee = Fin 0, or_tax_amount = Fin 0,
     or_total_amount = Fin 0, or_shipping_address = enc_Address zero_Address,
     or_idempotency_key = Some (''k'' @ i), or_created_at = 1, or_updated_at = 1\<rparr>"

definition demo_orders :: order_db where
  "demo_orders = \<lparr>t_orders = [demo_order_row ''o1'' StatusPendingPayment, demo_order_row ''o2'' StatusProcessing],
     t_order_items = [], t_outbox_events = []\<rparr>"

lemma demo_orders_wf: "orders_wf demo_orders"
  by (simp add: orders_wf_def demo_orders_def demo_order_row_def event_ids_distinct_def)

text \<open>
  C24: whatever calls the order service serves, in whatever environment whose other clients do
  the same, nothing recorded is lost or rewritten: the orders (apart from their status), the
  items and the events (apart from their publication status) of the old state are an initial
  part of those of the new state.
\<close>

theorem order_durability:
  assumes "rely orders_extend env" and "w_txs w = (\<lambda>_. None)"
  shows "orders_extend (w_db w) (w_db (snd (run_state (for_each (serve env (orderUC env)) calls) w)))"
  using assms by (intro durability.serve_all cached_reader.order_reader_axioms order_stmts_extend) simp_all

theorem order_durability_witness:
  "orders_extend demo_orders (w_db (snd (run_state (for_each (serve ideal_env (orderUC ideal_env))
     [DoCancel ''o1'' ''x'', DoConfirm ''o1'', DoPublish 10]) (idle demo_orders))))"
  using order_durability [of ideal_env "idle demo_orders"]
  by (simp add: rely_calm durability.db_guarantee_axioms del: for_each.simps)

subsection \<open>Atomicity of CreateOrder\<close>

text \<open>
  C1: for every property \<open>I\<close> of the database that the other clients keep, in every environment,
  \<open>CreateOrder\<close> ends in one of two ways. Either the order the request describes (its items
  with the requested products, quantities and prices, the total computed from them, the
  requested idempotency key), one row per item and the pending \<open>order.created\<close> event were added
  together to a state with \<open>I\<close>, whose orders have neither its id nor its key; if there is no
  error, the order returned is the one stored. Or there is an error and \<open>CreateOrder\<close> has
  added nothing. In particular, without other clients the state is the old one or the old
  one with all the rows.
\<close>

theorem CreateOrder_atomic:
  assumes "rely (preserves I) env" and "I (w_db w)"
    and "run_state (CreateOrder env (orderUC env) req) w = (r, w')"
  shows "create_outcome (e_pg env) I req r (w_db w')"
  using tripleD [OF cached.triple_CreateOrder [OF assms(1)] _ assms(3)] assms(2) by simp

definition demo_request :: CreateOrderRequest where
  "demo_request = \<lparr>r_customer_id = ''c'', r_currency = '''',
     r_items = [\<lparr>ri_product_id = ''p'', ri_sku = ''sku'', ri_product_name = ''name'', ri_quantity = 2,
                 ri_unit_price = Fin 10\<rparr>],
     r_shipping_address = zero_Address, r_idempotency_key = ''key''\<rparr>"

theorem CreateOrder_atomic_witness:
  "case run_state (CreateOrder ideal_env (orderUC ideal_env) demo_request) (idle demo_orders) of (r, w') \<Rightarrow>
     create_outcome ideal_pg (\<lambda>d. d = demo_orders) demo_request r (w_db w')"
proof -
  have "rely (preserves (\<lambda>d. d = demo_orders)) ideal_env"
    by (simp add: rely_calm db_guarantee_preserves)
  from CreateOrder_atomic [OF this, of "idle demo_orders"] show ?thesis by (auto split: prod.splits)
qed

definition no_orders :: order_db where
  "no_orders = \<lparr>t_orders = [], t_order_items = [], t_outbox_events = []\<rparr>"

subsection \<open>Success of CreateOrder\<close>

text \<open>
  The ids \<open>uuid.New\<close> returns from the interaction \<open>t\<close> on are stored as they are, differ from
  each other and from the ids in the tables.
\<close>

definition used_ids :: "order_db \<Rightarrow> string set" where
  "used_ids d = or_id ` set (t_orders d) \<union> ir_id ` set (t_order_items d) \<union> er_id ` set (t_outbox_events d)"

definition good_uuids :: "order_db env \<Rightarrow> order_db \<Rightarrow> nat \<Rightarrow> bool" where
  "good_uuids env d t \<longleftrightarrow> inj_on (e_uuid env) {t..} \<and>
     (\<forall>n \<ge> t. pg_uuid (e_pg env) (e_uuid env n) = Some (e_uuid env n) \<and> e_uuid env n \<notin> used_ids d)"

text \<open>What \<open>store_order\<close> needs of an order and its event to succeed on the state \<open>d\<close>.\<close>

definition storable :: "pg_types \<Rightarrow> Order \<Rightarrow> OutboxEvent \<Rightarrow> order_db \<Rightarrow> bool" where
  "storable pg ord ev d \<longleftrightarrow>
     (\<exists>r. order_row pg ord = Some r \<and> or_id r = o_id ord \<and> fresh_order r d) \<and>
     (\<forall>item \<in> set (o_items ord). \<forall>now. \<exists>row. order_item_row pg item now = Some row \<and>
        ir_id row = oi_id item \<and> ir_order_id row = o_id ord) \<and>
     distinct (map oi_id (o_items ord)) \<and> set (map oi_id (o_items ord)) \<inter> used_ids d = {} \<and>
     (\<exists>e. outbox_row pg ev = Some e \<and> er_id e \<notin> used_ids d)"

text \<open>The state the transaction sees when \<open>k\<close> items have been inserted.\<close>

definition items_seen :: "pg_types \<Rightarrow> Order \<Rightarrow> nat \<Rightarrow> order_db \<Rightarrow> order_db \<Rightarrow> bool" where
  "items_seen pg ord k d d' \<longleftrightarrow>
     (\<exists>r rows. or_id r = o_id ord \<and> map ir_id rows = map oi_id (take k (o_items ord)) \<and>
        d' = d\<lparr>t_orders := t_orders d @ [r], t_order_items := t_order_items d @ rows\<rparr>)"

lemma storable_order:
  "storable pg ord ev d \<Longrightarrow> \<exists>d'. insert_order pg ord d = Inr (d', ()) \<and> items_seen pg ord 0 d d'"
  by (auto simp: storable_def insert_order_def items_seen_def fresh_order_def list_ex_iff)

lemma distinct_nth_take:
  assumes "distinct (map f xs)" and "k < length xs"
  shows "f (xs ! k) \<notin> set (map f (take k xs))"
proof -
  have "map f xs = map f (take k xs) @ f (xs ! k) # map f (drop (Suc k) xs)"
    using id_take_nth_drop [OF assms(2)] by (metis list.simps(9) map_append)
  with assms(1) show ?thesis by (metis distinct_append disjoint_iff list.set_intros(1))
qed

lemma storable_item:
  assumes "storable pg ord ev d" and "items_seen pg ord k d d'" and "k < length (o_items ord)"
  shows "\<exists>d''. insert_order_item pg (o_items ord ! k) now d' = Inr (d'', ()) \<and> items_seen pg ord (Suc k) d d''"
proof -
  from assms(2) obtain r rows where s: "or_id r = o_id ord" "map ir_id rows = map oi_id (take k (o_items ord))"
      "d' = d\<lparr>t_orders := t_orders d @ [r], t_order_items := t_order_items d @ rows\<rparr>"
    by (auto simp: items_seen_def)
  have mem: "o_items ord ! k \<in> set (o_items ord)" using assms(3) by simp
  with assms(1) obtain row where row: "order_item_row pg (o_items ord ! k) now = Some row"
      "ir_id row = oi_id (o_items ord ! k)" "ir_order_id row = o_id ord"
    unfolding storable_def by blast
  have "ir_id row \<notin> ir_id ` set (t_order_items d)"
    using assms(1) mem unfolding row(2) storable_def used_ids_def by auto
  moreover have "ir_id row \<notin> set (map ir_id rows)"
    unfolding s(2) row(2) using assms(1) by (intro distinct_nth_take assms(3)) (simp add: storable_def)
  ultimately have fresh: "\<not> list_ex (\<lambda>q. ir_id q = ir_id row) (t_order_items d')"
    unfolding list_ex_key by (auto simp: s(3))
  have "list_ex (\<lambda>q. or_id q = ir_order_id row) (t_orders d')" by (simp add: s row(3))
  with fresh have "insert_order_item pg (o_items ord ! k) now d' =
      Inr (d'\<lparr>t_order_items := t_order_items d' @ [row]\<rparr>, ())"
    by (simp add: insert_order_item_def row(1))
  moreover have "items_seen pg ord (Suc k) d (d'\<lparr>t_order_items := t_order_items d' @ [row]\<rparr>)"
    unfolding items_seen_def using s row(2) assms(3)
    by (intro exI [of _ r] exI [of _ "rows @ [row]"]) (simp add: take_Suc_conv_app_nth)
  ultimately show ?thesis by blast
qed

lemma storable_event:
  assumes "storable pg ord ev d" and "items_seen pg ord k d d'"
  shows "\<exists>d''. insert_outbox pg ev d' = Inr (d'', ())"
proof -
  from assms(1) obtain e where e: "outbox_row pg ev = Some e" "er_id e \<notin> er_id ` set (t_outbox_events d)"
    by (auto simp: storable_def used_ids_def)
  have "t_outbox_events d' = t_outbox_events d" using assms(2) by (auto simp: items_seen_def)
  with e show ?thesis by (simp add: insert_outbox_def list_ex_key)
qed

context order_store
begin

lemma store_order_calm:
  assumes "calm env" and "storable (e_pg env) ord ev d"
  shows "triple (\<lambda>w. w_db w = d) (store_order env uc ord ev) (\<lambda>r w. r = Inr ord)"
  unfolding store_order_def create_order create_items create_event execute_def option.case
proof (rule calm_tx_block [OF assms(1), where Q = "\<lambda>r d. r = Inr ord"])
  fix h
  let ?S = "\<lambda>k. sees_some h d (items_seen (e_pg env) ord k d)"
  have "triple (sees_some h d (\<lambda>d'. d' = d)) (exec_tx env h (insert_order (e_pg env) ord)) (succeeds (?S 0))"
    using storable_order [OF assms(2)] by (intro calm_exec_some [OF assms(1)]) auto
  then have o: "triple (sees h d d) (exec_tx env h (insert_order (e_pg env) ord)) (succeeds (?S 0))"
    by (rule triple_conseq) (auto simp: sees_some_def)
  have i: "triple (?S 0) (forE (\<lambda>item. do { now \<leftarrow> time_now env;
      exec_tx env h (insert_order_item (e_pg env) item now) }) (o_items ord)) (succeeds (?S (length (o_items ord))))"
  proof (rule calm_forE_some, rule triple_bind [where R = "\<lambda>_. ?S k" for k])
    show "triple (?S k) (time_now env) (\<lambda>_. ?S k)" for k
      by (auto simp: triple_def run_time_now sees_some_def sees_def tx_at_def)
    show "triple (?S k) (exec_tx env h (insert_order_item (e_pg env) (o_items ord ! k) now)) (succeeds (?S (Suc k)))"
      if "k < length (o_items ord)" for k now
      using storable_item [OF assms(2) _ that] by (intro calm_exec_some [OF assms(1)]) blast
  qed
  have e: "triple (?S (length (o_items ord))) (exec_tx env h (insert_outbox (e_pg env) ev))
      (succeeds (sees_some h d (\<lambda>_. True)))"
    using storable_event [OF assms(2)] by (intro calm_exec_some [OF assms(1)]) blast
  show "triple (sees h d d)
      (bindE (wrapE ''failed to create order'' (exec_tx env h (insert_order (e_pg env) ord))) (\<lambda>_.
       bindE (wrapE ''failed to create order items'' (forE (\<lambda>item. do { now \<leftarrow> time_now env;
          exec_tx env h (insert_order_item (e_pg env) item now) }) (o_items ord))) (\<lambda>_.
       bindE (wrapE ''failed to create outbox event'' (exec_tx env h (insert_outbox (e_pg env) ev))) (\<lambda>_.
       bindE (wrapE ''failed to commit transaction'' (Commit env h)) (\<lambda>_. ok ord)))))
      (\<lambda>r w. r = Inr ord)"
    by (rule calm_step_some [OF o], rule calm_step_some [OF i], rule calm_step_some [OF e],
        rule triple_conseq [OF calm_commit_some [OF assms(1)]]) auto
qed

end

text \<open>The ids of the new order and of its items, by the interactions that produced them.\<close>

lemma run_new_items:
  "\<exists>items. run_state (for_map (new_item env i) qs) w = (items, w\<lparr>w_tick := w_tick w + length qs\<rparr>) \<and>
     map oi_id items = map (e_uuid env) [w_tick w ..< w_tick w + length qs]"
proof (induction qs arbitrary: w)
  case (Cons q qs)
  obtain item where q: "run_state (new_item env i q) w = (item, w\<lparr>w_tick := Suc (w_tick w)\<rparr>)"
      "oi_id item = e_uuid env (w_tick w)"
    by (simp add: new_item_def run_new_uuid)
  obtain items where "run_state (for_map (new_item env i) qs) (w\<lparr>w_tick := Suc (w_tick w)\<rparr>) =
        (items, w\<lparr>w_tick := Suc (w_tick w) + length qs\<rparr>)"
      "map oi_id items = map (e_uuid env) [Suc (w_tick w) ..< Suc (w_tick w) + length qs]"
    using Cons [of "w\<lparr>w_tick := Suc (w_tick w)\<rparr>"] by auto
  moreover have "[w_tick w ..< w_tick w + length (q # qs)] =
      w_tick w # [Suc (w_tick w) ..< Suc (w_tick w) + length qs]"
    by (simp add: upt_conv_Cons del: upt_Suc)
  ultimately show ?case using q by (simp del: upt_Suc)
qed simp

lemma run_new_order:
  "\<exists>ord. run_state (new_order env req key) w = (ord, w\<lparr>w_tick := w_tick w + 3 + length (r_items req)\<rparr>) \<and>
     o_id ord = e_uuid env (w_tick w) \<and> o_idempotency_key ord = key \<and>
     map oi_id (o_items ord) = map (e_uuid env) [w_tick w + 3 ..< w_tick w + 3 + length (r_items req)]"
proof -
  have t: "Suc (Suc (Suc (w_tick w))) = w_tick w + 3" by simp
  show ?thesis
    using run_new_items [of env "e_uuid env (w_tick w)" "r_items req" "w\<lparr>w_tick := w_tick w + 3\<rparr>"]
    by (auto simp: new_order_def run_new_uuid run_time_now t)
qed

text \<open>
  A request the schema accepts: its order and its items convert to rows whatever ids they are
  given, its key is stored as given and the payload of its event is accepted as JSONB.
\<close>

definition acceptable :: "pg_types \<Rightarrow> CreateOrderRequest \<Rightarrow> bool" where
  "acceptable pg req \<longleftrightarrow>
     r_items req \<noteq> [] \<and> list_all (\<lambda>q. 0 < ri_quantity q) (r_items req) \<and>
     r_idempotency_key req \<noteq> '''' \<and>
     pg_varchar pg 100 (r_idempotency_key req) = Some (r_idempotency_key req) \<and>
     (\<forall>ord. requested_order req ord \<and> pg_uuid pg (o_id ord) = Some (o_id ord) \<longrightarrow>
        order_row pg ord \<noteq> None \<and> payload_accepted pg (created_payload ord) \<and>
        (\<forall>item \<in> set (o_items ord). \<forall>now. pg_uuid pg (oi_id item) = Some (oi_id item) \<longrightarrow>
           order_item_row pg item now \<noteq> None))"

lemma requested_item_order: "requested_order req ord \<Longrightarrow> item \<in> set (o_items ord) \<Longrightarrow> oi_order_id item = o_id ord"
  by (auto simp: requested_order_def requested_item_def list_all2_conv_all_nth in_set_conv_nth)

lemma storable_new:
  assumes acc: "acceptable (e_pg env) req" and vc: "varchar_keeps (e_pg env)" and uu: "good_uuids env d t"
    and ord: "requested_order req ord" "o_id ord = e_uuid env n" "t \<le> n"
      "map oi_id (o_items ord) = map (e_uuid env) [m ..< k]" "t \<le> m"
    and ev: "created_event ord ev" "ev_id ev = e_uuid env j" "t \<le> j"
    and key: "\<And>r. r \<in> set (t_orders d) \<Longrightarrow> or_idempotency_key r \<noteq> Some (r_idempotency_key req)"
  shows "storable (e_pg env) ord ev d"
proof -
  let ?pg = "e_pg env"
  have id: "pg_uuid ?pg (e_uuid env i) = Some (e_uuid env i)" "e_uuid env i \<notin> used_ids d" if "t \<le> i" for i
    using uu that by (auto simp: good_uuids_def)
  have items: "\<exists>i\<ge>t. oi_id item = e_uuid env i" if "item \<in> set (o_items ord)" for item
  proof -
    from that have "oi_id item \<in> set (map (e_uuid env) [m ..< k])" unfolding ord(4) [symmetric] by simp
    then obtain x where "oi_id item = e_uuid env x" "m \<le> x" by auto
    with ord(5) show ?thesis by (intro exI [of _ x]) simp
  qed
  have ok: "order_row ?pg ord \<noteq> None" "payload_accepted ?pg (created_payload ord)"
      "\<And>item now. item \<in> set (o_items ord) \<Longrightarrow> pg_uuid ?pg (oi_id item) = Some (oi_id item)
         \<Longrightarrow> order_item_row ?pg item now \<noteq> None"
    using acc ord(1-3) id unfolding acceptable_def by metis+
  have o_key: "o_idempotency_key ord = r_idempotency_key req" "pg_varchar ?pg 100 (r_idempotency_key req) = Some (r_idempotency_key req)"
    using acc ord(1) by (auto simp: acceptable_def requested_order_def)
  have "\<exists>r. order_row ?pg ord = Some r \<and> or_id r = o_id ord \<and> fresh_order r d"
  proof -
    from ok(1) obtain r where r: "order_row ?pg ord = Some r" by blast
    then have "or_id r = e_uuid env n" "or_idempotency_key r = Some (r_idempotency_key req)"
      using id(1) [OF ord(3)] ord(2) vc o_key
      by (auto simp: order_row_def bind_eq_Some_conv)
    moreover have "or_id q \<noteq> e_uuid env n" if "q \<in> set (t_orders d)" for q
      using that id(2) [OF ord(3)] unfolding used_ids_def by (metis UnI1 imageI)
    ultimately show ?thesis
      using r ord(2) key unfolding fresh_order_def by (intro exI [of _ r]) auto
  qed
  moreover have "\<exists>row. order_item_row ?pg item now = Some row \<and> ir_id row = oi_id item \<and> ir_order_id row = o_id ord"
    if "item \<in> set (o_items ord)" for item now
  proof -
    have "pg_uuid ?pg (oi_id item) = Some (oi_id item)" using items [OF that] id(1) by auto
    moreover from ok(3) [OF that this] obtain row where "order_item_row ?pg item now = Some row" by blast
    moreover have "pg_uuid ?pg (oi_order_id item) = Some (o_id ord)"
      using requested_item_order [OF ord(1) that] ord(2,3) id(1) by simp
    ultimately show ?thesis by (auto simp: order_item_row_def bind_eq_Some_conv)
  qed
  moreover have "distinct (map oi_id (o_items ord))"
    unfolding ord(4) using uu ord(5) by (auto simp: distinct_map good_uuids_def intro: inj_on_subset)
  moreover have "set (map oi_id (o_items ord)) \<inter> used_ids d = {}"
    unfolding ord(4) using id(2) ord(5) by auto
  moreover have "\<exists>e. outbox_row ?pg ev = Some e \<and> er_id e \<notin> used_ids d"
    using ev id [OF ev(3)] id(1) [OF ord(3)] ord(2) ok(2) varchar_literals [OF vc]
    by (auto simp: outbox_row_def created_event_def payload_accepted_def split: option.splits)
  ultimately show ?thesis unfolding storable_def by blast
qed

lemma select_no_key:
  assumes "\<And>r. r \<in> set (t_orders d) \<Longrightarrow> or_idempotency_key r \<noteq> Some key"
  shows "select_order_by_key key d = Inr []"
  using assms by (simp add: select_order_by_key_def filter_empty_conv)

context order_store
begin

lemma CreateOrder_calm:
  assumes calm: "calm env" and acc: "acceptable (e_pg env) req" and vc: "varchar_keeps (e_pg env)"
    and uu: "good_uuids env (w_db w) (w_tick w)"
    and key: "\<And>r. r \<in> set (t_orders (w_db w)) \<Longrightarrow> or_idempotency_key r \<noteq> Some (r_idempotency_key req)"
  shows "\<exists>ord w'. run_state (CreateOrder env uc req) w = ((Some ord, None), w')"
proof -
  let ?key = "r_idempotency_key req" and ?n = "Suc (w_tick w)"
  let ?w1 = "w\<lparr>w_tick := ?n\<rparr>"
  have valid: "r_items req \<noteq> []" "\<And>q. q \<in> set (r_items req) \<Longrightarrow> 0 < ri_quantity q" "?key \<noteq> ''''"
    using acc by (auto simp: acceptable_def list_all_iff)
  have ok: "\<not> list_ex (\<lambda>item. ri_quantity item \<le> 0) (r_items req)"
    using valid(2) by (auto simp: list_ex_iff not_le)
  have find: "run_state (OrderRepository_GetByIDempotencyKey (uc_orderRepo uc) ?key) w = (Inl ErrOrderNotFound, ?w1)"
    unfolding find_key using select_no_key [OF key] by (simp add: run_GetContext_calm [OF calm])
  obtain ord where ord: "run_state (new_order env req ?key) ?w1 = (ord, ?w1\<lparr>w_tick := ?n + 3 + length (r_items req)\<rparr>)"
      "o_id ord = e_uuid env ?n" "map oi_id (o_items ord) = map (e_uuid env) [?n + 3 ..< ?n + 3 + length (r_items req)]"
    using run_new_order [of env req ?key ?w1] by auto
  have req: "requested_order req ord"
    using tripleD [OF triple_new_order [of req ?key "\<lambda>_. True"] _ ord(1)] valid by blast
  obtain ev w2 where ev: "run_state (new_event env (o_id ord) ''order.created'' (created_payload ord))
        (w\<lparr>w_tick := ?n + 3 + length (r_items req)\<rparr>) = (ev, w2)" "w_db w2 = w_db w" "created_event ord ev"
      "ev_id ev = e_uuid env (?n + 3 + length (r_items req))"
    by (simp add: new_event_def run_new_uuid run_time_now created_event_def)
  have st: "storable (e_pg env) ord ev (w_db w)"
    by (rule storable_new [OF acc vc uu req ord(2) _ ord(3) _ ev(3,4)]) (use key in auto)
  obtain r w3 where store: "run_state (store_order env uc ord ev) w2 = (r, w3)" by force
  have "r = Inr ord" using tripleD [OF store_order_calm [OF calm st] ev(2) store] .
  with valid ok find ord(1) ev(1) store show ?thesis
    by (simp add: CreateOrder_def)
qed

end

lemma CreateOrder_succeeds_lemma:
  assumes "calm env" and "varchar_keeps (e_pg env)" and "acceptable (e_pg env) req"
    and "good_uuids env (w_db w) (w_tick w)"
    and "\<forall>r \<in> set (t_orders (w_db w)). or_idempotency_key r \<noteq> Some (r_idempotency_key req)"
  shows "\<exists>ord ev w'. run_state (CreateOrder env (orderUC env) req) w = ((Some ord, None), w') \<and>
           requested_order req ord \<and> created_event ord ev \<and>
           order_stored (e_pg env) ord ev (w_db w) (w_db w')"
proof -
  obtain ord w' where run: "run_state (CreateOrder env (orderUC env) req) w = ((Some ord, None), w')"
    using cached.CreateOrder_calm [OF assms(1,3,2,4)] assms(5) by blast
  have "rely (preserves (\<lambda>d. d = w_db w)) env"
    using assms(1) by (rule rely_calm [OF db_guarantee_preserves])
  from tripleD [OF cached.triple_CreateOrder [OF this] _ run] run show ?thesis
    by (auto simp: create_outcome_def)
qed

text \<open>
  C5: \<open>CreateOrder\<close> succeeds. In a calm environment, for a request the schema accepts, with an
  idempotency key that no order has and with fresh ids, it returns an order without an error,
  and the new state is the old one with exactly the row of that order, the rows of its items
  and its event.
\<close>

theorem CreateOrder_succeeds:
  assumes "calm env" and "varchar_keeps (e_pg env)" and "acceptable (e_pg env) req"
    and "good_uuids env (w_db w) (w_tick w)"
    and "\<forall>r \<in> set (t_orders (w_db w)). or_idempotency_key r \<noteq> Some (r_idempotency_key req)"
  shows "\<exists>ord ev w'. run_state (CreateOrder env (orderUC env) req) w = ((Some ord, None), w') \<and>
           requested_order req ord \<and> created_event ord ev \<and>
           order_stored (e_pg env) ord ev (w_db w) (w_db w')"
  by (rule CreateOrder_succeeds_lemma [OF assms])

lemma good_uuids_ideal:
  assumes "\<And>i n. i \<in> used_ids d \<Longrightarrow> i \<noteq> replicate n (CHR ''x'')"
  shows "good_uuids ideal_env d t"
  using assms by (force simp: good_uuids_def inj_on_def replicate_eq_replicate)

lemma demo_uuids: "good_uuids ideal_env demo_orders t"
proof (rule good_uuids_ideal)
  fix i :: string and n assume "i \<in> used_ids demo_orders"
  then have "hd i = CHR ''o''" "i \<noteq> []" by (auto simp: used_ids_def demo_orders_def demo_order_row_def)
  then show "i \<noteq> replicate n (CHR ''x'')" by (cases n) auto
qed

lemma demo_amount: "fmul (float_of_int 2) (Fin 10) = Fin 20"
  using fmul_of_int [of 2 10] float_of_int_exact [of 2] by simp

lemma demo_fl: "fl 20 = Fin 20"
  using fl_of_int [of 20] by simp

lemma demo_sum: "fadd (Fin 0) (Fin 20) = Fin 20" "fadd (Fin 20) (Fin 0) = Fin 20" "fsub (Fin 20) (Fin 0) = Fin 20"
  using fadd_of_int [of 0 20] fadd_of_int [of 20 0] fsub_of_int [of 20 0] by simp_all

lemma acceptable_demo: "acceptable ideal_pg demo_request"
proof -
  have "order_row ideal_pg ord \<noteq> None \<and> payload_accepted ideal_pg (created_payload ord) \<and>
      (\<forall>item \<in> set (o_items ord). \<forall>now. order_item_row ideal_pg item now \<noteq> None)"
    if "requested_order demo_request ord" for ord
  proof -
    from that obtain item where items: "o_items ord = [item]" "oi_total_price item = Fin 20"
        "oi_quantity item = 2" "oi_sku item = ''sku''" "oi_product_name item = ''name''"
      by (auto simp: requested_order_def demo_request_def requested_item_def list_all2_Cons1 demo_amount demo_fl)
    have "CalculateTotal ord = ord" "o_discount_amount ord = Fin 0" "o_shipping_fee ord = Fin 0" "o_tax_amount ord = Fin 0"
      using that by (auto simp: requested_order_def)
    moreover from this(2-4) have "o_total_amount (CalculateTotal ord) = Fin 20"
      by (simp add: CalculateTotal_def Let_def items demo_fl demo_sum)
    ultimately have "o_total_amount ord = Fin 20" by simp
    then have "created_payload ord \<noteq> None" by (simp add: created_payload_def enc_object_def)
    then have "payload_accepted ideal_pg (created_payload ord)" by (auto simp: payload_accepted_def)
    with items that show ?thesis
      by (auto simp: order_row_def order_item_row_def int4_def int4_ok_def requested_order_def demo_request_def
          status_defs)
  qed
  then show ?thesis by (auto simp: acceptable_def demo_request_def)
qed

theorem CreateOrder_succeeds_witness:
  "\<exists>ord ev w'. run_state (CreateOrder ideal_env (orderUC ideal_env) demo_request) (idle demo_orders) = ((Some ord, None), w') \<and>
     requested_order demo_request ord \<and> created_event ord ev \<and> order_stored ideal_pg ord ev demo_orders (w_db w')"
  using CreateOrder_succeeds [of ideal_env demo_request "idle demo_orders"] acceptable_demo demo_uuids
  by simp (auto simp: demo_orders_def demo_order_row_def demo_request_def)

text \<open>
  C23: a repeated request is recognised. In a calm environment, a valid request whose idempotency
  key belongs to a stored order returns that order together with \<open>ErrDuplicateIdempotencyKey\<close>
  and changes nothing in the database.
\<close>

theorem CreateOrder_duplicate:
  assumes "calm env" and "r_items req \<noteq> []" and "list_all (\<lambda>q. 0 < ri_quantity q) (r_items req)"
    and "r_idempotency_key req \<noteq> ''''" and "orders_wf (w_db w)"
    and "row \<in> set (t_orders (w_db w))" and "or_idempotency_key row = Some (r_idempotency_key req)"
  shows "case run_state (CreateOrder env (orderUC env) req) w of (r, w') \<Rightarrow>
           r = (Some (rowToOrder row), Some ErrDuplicateIdempotencyKey) \<and> w_db w' = w_db w"
proof -
  have ok: "\<not> list_ex (\<lambda>item. ri_quantity item \<le> 0) (r_items req)"
    using assms(3) by (auto simp: list_ex_iff list_all_iff)
  obtain rs where "filter (\<lambda>r. or_idempotency_key r = Some (r_idempotency_key req)) (t_orders (w_db w)) = row # rs"
  proof (cases "filter (\<lambda>r. or_idempotency_key r = Some (r_idempotency_key req)) (t_orders (w_db w))")
    case (Cons r rs)
    then have "r \<in> set (filter (\<lambda>r. or_idempotency_key r = Some (r_idempotency_key req)) (t_orders (w_db w)))"
      by simp
    with assms(5-7) have "r = row" by (auto simp: orders_wf_def distinct_map inj_on_def)
    with Cons that show ?thesis by blast
  qed (use assms(6,7) in \<open>auto simp: filter_empty_conv\<close>)
  then show ?thesis
    using assms(1,2,4) ok
    by (simp add: CreateOrder_def cached.find_key run_GetContext_calm select_order_by_key_def)
qed

theorem CreateOrder_duplicate_witness:
  "case run_state (CreateOrder ideal_env (orderUC ideal_env) (demo_request\<lparr>r_idempotency_key := ''ko2''\<rparr>))
      (idle demo_orders) of (r, w') \<Rightarrow>
     r = (Some (rowToOrder (demo_order_row ''o2'' StatusProcessing)), Some ErrDuplicateIdempotencyKey) \<and>
     w_db w' = demo_orders"
  using CreateOrder_duplicate [of ideal_env "demo_request\<lparr>r_idempotency_key := ''ko2''\<rparr>" "idle demo_orders"
      "demo_order_row ''o2'' StatusProcessing"] demo_orders_wf
  by (simp add: demo_request_def demo_orders_def demo_order_row_def)

end
