(* ===== verification/Order_Status.thy ===== *)
theory Order_Status
  imports Order_Props
begin

text \<open>
  The life cycle of an order: every branch of \<open>CancelOrder\<close> and \<open>ConfirmOrder\<close> in a calm
  environment, and what the order cache does to them. The cached repository does not
  invalidate an order whose status changes in a transaction, so that within the time to live
  of the cache a use case may decide on a status the order no longer has.
\<close>

subsection \<open>Changing the status in a calm environment\<close>

context order_store
begin

lemma update_status_calm:
  assumes "calm env" and "pg_varchar (e_pg env) 30 status = Some s" and "pg_uuid (e_pg env) oid = Some i"
  shows "triple (sees h d d) (do { now \<leftarrow> time_now env; exec_tx env h (update_order_status (e_pg env) oid status now) })
      (succeeds (sees_some h d (\<lambda>d'. \<exists>t. d' = set_order_status i s t d)))"
proof (rule triple_bind [OF calm_time_now], rule triple_conseq [OF calm_exec_some [OF assms(1), where S = "\<lambda>d'. d' = d" and
      S' = "\<lambda>d'. \<exists>t. d' = set_order_status i s t d"]])
  show "\<exists>d'' x. update_order_status (e_pg env) oid status now d' = Inr (d'', x) \<and> (\<exists>t. d'' = set_order_status i s t d)"
    if "d' = d" for d' now
    using that assms(2,3) by (auto simp: update_order_status_eq)
qed (auto simp: sees_some_def)

lemma store_status_calm:
  assumes calm: "calm env" and s: "pg_varchar (e_pg env) 30 status = Some s" and i: "pg_uuid (e_pg env) oid = Some i"
    and e: "outbox_row (e_pg env) ev = Some e" "er_id e \<notin> er_id ` set (t_outbox_events d)"
  shows "triple (\<lambda>w. w_db w = d) (store_status env uc msg oid status ev)
           (\<lambda>r w. r = Inr () \<and> status_stored (e_pg env) oid status ev d (w_db w))"
  unfolding store_status_def update_status create_event execute_def option.case
proof (rule calm_tx_block [OF calm, where Q = "\<lambda>r d'. r = Inr () \<and> status_stored (e_pg env) oid status ev d d'"])
  fix h
  let ?S1 = "\<lambda>d'. \<exists>t. d' = set_order_status i s t d" and ?S2 = "status_stored (e_pg env) oid status ev d"
  have ins: "triple (sees_some h d ?S1) (exec_tx env h (insert_outbox (e_pg env) ev)) (succeeds (sees_some h d ?S2))"
    by (rule calm_exec_some [OF calm])
      (use s i e in \<open>auto simp: insert_outbox_def list_ex_key status_stored_def intro!: exI\<close>)
  show "triple (sees h d d)
      (bindE (wrapE msg (do { now \<leftarrow> time_now env; exec_tx env h (update_order_status (e_pg env) oid status now) })) (\<lambda>_.
       bindE (wrapE ''failed to create outbox event'' (exec_tx env h (insert_outbox (e_pg env) ev))) (\<lambda>_.
       bindE (wrapE ''failed to commit transaction'' (Commit env h)) (\<lambda>_. ok ()))))
      (\<lambda>r w. r = Inr () \<and> ?S2 (w_db w))"
    by (rule calm_step_some [OF update_status_calm [OF calm s i]], rule calm_step_some [OF ins], rule calm_commit_some [OF calm])
qed

text \<open>When the server rejects the event, the status is not changed either.\<close>

lemma store_status_rejected:
  assumes calm: "calm env" and s: "pg_varchar (e_pg env) 30 status = Some s" and i: "pg_uuid (e_pg env) oid = Some i"
    and e: "outbox_row (e_pg env) ev = None"
  shows "triple (\<lambda>w. w_db w = d) (store_status env uc msg oid status ev)
           (\<lambda>r w. r = Inl (Wrapped ''failed to create outbox event'' pq_invalid) \<and> w_db w = d)"
  unfolding store_status_def update_status create_event execute_def option.case
proof (rule calm_tx_block [OF calm, where Q = "\<lambda>r d'. r = Inl (Wrapped ''failed to create outbox event'' pq_invalid) \<and> d' = d"])
  fix h
  show "triple (sees h d d)
      (bindE (wrapE msg (do { now \<leftarrow> time_now env; exec_tx env h (update_order_status (e_pg env) oid status now) })) (\<lambda>_.
       bindE (wrapE ''failed to create outbox event'' (exec_tx env h (insert_outbox (e_pg env) ev))) (\<lambda>_.
       bindE (wrapE ''failed to commit transaction'' (Commit env h)) (\<lambda>_. ok ()))))
      (\<lambda>r w. r = Inl (Wrapped ''failed to create outbox event'' pq_invalid) \<and> w_db w = d)"
    by (rule calm_step_some [OF update_status_calm [OF calm s i]], rule calm_exec_some_error [OF calm])
      (use e in \<open>simp add: insert_outbox_def\<close>)
qed

end

subsection \<open>Reading an order\<close>

definition find_order :: "string \<Rightarrow> order_db \<Rightarrow> orderRow option" where
  "find_order oid d = find (\<lambda>r. or_id r = oid) (t_orders d)"

definition order_read :: "string \<Rightarrow> order_db \<Rightarrow> Order result" where
  "order_read oid d = (case find_order oid d of None \<Rightarrow> Inl ErrOrderNotFound | Some r \<Rightarrow> Inr (rowToOrder r))"

lemma select_order_read:
  "pg_uuid pg oid = Some oid \<Longrightarrow>
   map_sum id rowToOrder (not_found_as ErrOrderNotFound (first_row (select_order_by_id pg oid d))) = order_read oid d"
  by (simp add: select_order_by_id_def first_row_filter order_read_def find_order_def split: option.splits)

text \<open>The cache holds no live entry for the order.\<close>

definition cold :: "order_db env \<Rightarrow> order_db world \<Rightarrow> string \<Rightarrow> bool" where
  "cold env w oid \<longleftrightarrow> redis_live (w_redis w) (e_now env (w_tick w)) (cache_key order_cache oid) = None"

lemma cached_get_cold:
  assumes "calm env" and "cold env w oid" and "pg_uuid (e_pg env) oid = Some oid"
  shows "case run_state (OrderRepository_GetByID (uc_orderRepo (orderUC env)) oid) w of (r, w') \<Rightarrow>
           r = order_read oid (w_db w) \<and> w_db w' = w_db w \<and> w_tick w \<le> w_tick w'"
proof -
  have "run_state (orderRepository_GetByID env oid) w1 = (order_read oid (w_db w1), w1\<lparr>w_tick := Suc (w_tick w1)\<rparr>)" for w1
    using assms(1,3) by (simp add: orderRepository_GetByID_def run_GetContext_calm select_order_read)
  then show ?thesis
    using assms
    by (simp add: orderUC_def NewOrderCache_def NewOrderRepository_def OrderCache_GetByID_def run_Cache_Get
        cold_def orderKey_def unmarshal_def run_Cache_Set_calm split: sum.splits option.splits)
qed

lemma good_uuids_later: "good_uuids env d t \<Longrightarrow> t \<le> t' \<Longrightarrow> good_uuids env d t'"
  by (auto simp: good_uuids_def intro: inj_on_subset)

text \<open>The event of a status change is storable when, and only when, its payload is accepted.\<close>

lemma status_event_storable:
  assumes "good_uuids env d (w_tick w)" and "pg_uuid (e_pg env) oid = Some i"
    and "pg_varchar (e_pg env) 50 ''order'' = Some ''order''" and "pg_varchar (e_pg env) 20 ''PENDING'' = Some ''PENDING''"
    and "pg_varchar (e_pg env) 100 ty = Some ty" and "run_state (new_event env oid ty payload) w = (ev, w')"
  shows "payload_accepted (e_pg env) payload \<Longrightarrow>
      \<exists>e. outbox_row (e_pg env) ev = Some e \<and> er_id e \<notin> er_id ` set (t_outbox_events d)"
    and "\<not> payload_accepted (e_pg env) payload \<Longrightarrow> outbox_row (e_pg env) ev = None"
  using assms
  by (auto simp: new_event_def run_new_uuid run_time_now outbox_row_def good_uuids_def used_ids_def payload_accepted_def
      split: option.splits)

lemma find_order_id: "find_order oid d = Some r \<Longrightarrow> or_id r = oid"
  by (auto simp: find_order_def find_Some_iff)

lemma rowToOrder_sel [simp]: "o_id (rowToOrder r) = or_id r" "o_status (rowToOrder r) = or_status r"
  by (simp_all add: rowToOrder_def)

text \<open>The event a status change stores.\<close>

definition status_event :: "string \<Rightarrow> string \<Rightarrow> json_text \<Rightarrow> OutboxEvent \<Rightarrow> bool" where
  "status_event oid ty payload ev \<longleftrightarrow>
     ev_aggregate_type ev = ''order'' \<and> ev_aggregate_id ev = oid \<and> ev_event_type ev = ty \<and>
     ev_payload ev = payload \<and> ev_status ev = ''PENDING''"

text \<open>
  The outcome of a status change: the status of this order, and of no other, is set and one
  pending event added; or, when the server rejects the payload of the event, an error and
  nothing.
\<close>

definition status_changed ::
  "pg_types \<Rightarrow> string \<Rightarrow> OrderStatus \<Rightarrow> string \<Rightarrow> json_text \<Rightarrow> unit result \<Rightarrow> order_db \<Rightarrow> order_db \<Rightarrow> bool" where
  "status_changed pg oid status ty payload r d d' \<longleftrightarrow>
     (if payload_accepted pg payload
      then r = Inr () \<and> (\<exists>ev. status_event oid ty payload ev \<and> status_stored pg oid status ev d d')
      else r = Inl (Wrapped ''failed to create outbox event'' pq_invalid) \<and> d' = d)"

lemma status_change_calm:
  assumes calm: "calm env" and vc: "varchar_keeps (e_pg env)" and uu: "good_uuids env (w_db w) (w_tick w)"
    and oid: "pg_uuid (e_pg env) oid = Some oid" and s: "pg_varchar (e_pg env) 30 status = Some status"
    and ty: "pg_varchar (e_pg env) 100 ty = Some ty"
  shows "case run_state (do { ev \<leftarrow> new_event env oid ty payload; store_status env (orderUC env) msg oid status ev }) w of
           (r, w') \<Rightarrow> status_changed (e_pg env) oid status ty payload r (w_db w) (w_db w')"
proof -
  obtain ev w1 where ev: "run_state (new_event env oid ty payload) w = (ev, w1)" by force
  have w1: "w_db w1 = w_db w" "status_event oid ty payload ev"
    using tripleD [OF triple_new_event [of "\<lambda>d. d = w_db w"] _ ev] by (simp_all add: status_event_def)
  note storable = status_event_storable [OF uu oid varchar_literals(1,2) [OF vc] ty ev]
  obtain r w2 where st: "run_state (store_status env (orderUC env) msg oid status ev) w1 = (r, w2)" by force
  show ?thesis
  proof (cases "payload_accepted (e_pg env) payload")
    case True
    with storable(1) obtain e where e: "outbox_row (e_pg env) ev = Some e" "er_id e \<notin> er_id ` set (t_outbox_events (w_db w))"
      by blast
    from tripleD [OF cached.store_status_calm [OF calm s oid e] w1(1) st] ev st w1(2) True show ?thesis
      by (auto simp: status_changed_def)
  next
    case False
    from tripleD [OF cached.store_status_rejected [OF calm s oid storable(2) [OF False]] w1(1) st] ev st False
    show ?thesis by (auto simp: status_changed_def)
  qed
qed

subsection \<open>The branches of CancelOrder and ConfirmOrder\<close>

lemma CancelOrder_calm:
  assumes "calm env" and "varchar_keeps (e_pg env)" and "good_uuids env (w_db w) (w_tick w)"
    and "pg_uuid (e_pg env) oid = Some oid" and "cold env w oid"
  shows "case run_state (CancelOrder env (orderUC env) oid reason) w of (r, w') \<Rightarrow>
     (case find_order oid (w_db w) of
        None \<Rightarrow> r = Inl ErrOrderNotFound \<and> w_db w' = w_db w
      | Some row \<Rightarrow>
          if or_status row \<in> {StatusPendingPayment, StatusPaid}
          then status_changed (e_pg env) oid StatusCancelled ''order.cancelled'' (cancelled_payload (rowToOrder row) reason) r
                 (w_db w) (w_db w')
          else r = Inl ErrOrderNotCancellable \<and> w_db w' = w_db w)"
proof -
  obtain g w1 where get: "run_state (OrderRepository_GetByID (uc_orderRepo (orderUC env)) oid) w = (g, w1)" by force
  have w1: "g = order_read oid (w_db w)" "w_db w1 = w_db w" "w_tick w \<le> w_tick w1"
    using cached_get_cold [OF assms(1,5,4)] get by simp_all
  show ?thesis
  proof (cases "find_order oid (w_db w)")
    case None
    with get w1 show ?thesis by (simp add: CancelOrder_def order_read_def)
  next
    case (Some row)
    have "good_uuids env (w_db w1) (w_tick w1)" using assms(3) w1(2,3) good_uuids_later by metis
    note ch = status_change_calm [OF assms(1,2) this assms(4) varchar_literals(7,4) [OF assms(2)], where
        payload = "cancelled_payload (rowToOrder row) reason" and msg = "''failed to cancel order''"]
    with Some find_order_id [OF Some] get w1 show ?thesis
      by (auto simp: CancelOrder_def order_read_def CanCancel_def status_defs)
  qed
qed

text \<open>
  C25: every branch of \<open>CancelOrder\<close>, in a calm environment and with no cached entry for the
  order: an unknown order gives \<open>ErrOrderNotFound\<close>; an order whose status is neither
  \<open>StatusPendingPayment\<close> nor \<open>StatusPaid\<close> gives \<open>ErrOrderNotCancellable\<close>; both leave the database as it
  was. Otherwise it succeeds, and the new state is the old one with the status of this order,
  and of no other, set to \<open>StatusCancelled\<close> and one pending \<open>order.cancelled\<close> event added; unless
  the server rejects the payload of the event as JSONB (a reason with a NUL character), which
  gives an error and leaves the database, the status included, as it was.
\<close>

theorem CancelOrder_branches:
  assumes "calm env" and "varchar_keeps (e_pg env)" and "good_uuids env (w_db w) (w_tick w)"
    and "pg_uuid (e_pg env) oid = Some oid" and "cold env w oid"
  shows "case run_state (CancelOrder env (orderUC env) oid reason) w of (r, w') \<Rightarrow>
     (case find_order oid (w_db w) of
        None \<Rightarrow> r = Inl ErrOrderNotFound \<and> w_db w' = w_db w
      | Some row \<Rightarrow>
          if or_status row \<in> {StatusPendingPayment, StatusPaid}
          then status_changed (e_pg env) oid StatusCancelled ''order.cancelled'' (cancelled_payload (rowToOrder row) reason) r
                 (w_db w) (w_db w')
          else r = Inl ErrOrderNotCancellable \<and> w_db w' = w_db w)"
  by (rule CancelOrder_calm [OF assms])

text \<open>
  Every branch of \<open>ConfirmOrder\<close>, in a calm environment and with no cached entry for the
  order: an unknown order gives \<open>ErrOrderNotFound\<close>; an order that does not await payment is
  left as it is without an error, so that confirming twice is confirming once; otherwise the
  status of this order, and of no other, becomes \<open>StatusProcessing\<close> and one pending
  \<open>order.confirmed\<close> event is added.
\<close>

theorem ConfirmOrder_branches:
  assumes "calm env" and "varchar_keeps (e_pg env)" and "good_uuids env (w_db w) (w_tick w)"
    and "pg_uuid (e_pg env) oid = Some oid" and "cold env w oid"
  shows "case run_state (ConfirmOrder env (orderUC env) oid) w of (r, w') \<Rightarrow>
     (case find_order oid (w_db w) of
        None \<Rightarrow> r = Inl ErrOrderNotFound \<and> w_db w' = w_db w
      | Some row \<Rightarrow>
          if or_status row = StatusPendingPayment
          then status_changed (e_pg env) oid StatusProcessing ''order.confirmed'' (confirmed_payload (rowToOrder row)) r
                 (w_db w) (w_db w')
          else r = Inr () \<and> w_db w' = w_db w)"
proof -
  obtain g w1 where get: "run_state (OrderRepository_GetByID (uc_orderRepo (orderUC env)) oid) w = (g, w1)" by force
  have w1: "g = order_read oid (w_db w)" "w_db w1 = w_db w" "w_tick w \<le> w_tick w1"
    using cached_get_cold [OF assms(1,5,4)] get by simp_all
  show ?thesis
  proof (cases "find_order oid (w_db w)")
    case None
    with get w1 show ?thesis by (simp add: ConfirmOrder_def order_read_def)
  next
    case (Some row)
    have "good_uuids env (w_db w1) (w_tick w1)" using assms(3) w1(2,3) good_uuids_later by metis
    note ch = status_change_calm [OF assms(1,2) this assms(4) varchar_literals(8,5) [OF assms(2)], where
        payload = "confirmed_payload (rowToOrder row)" and msg = "''failed to confirm order''"]
    with Some find_order_id [OF Some] get w1 show ?thesis
      by (auto simp: ConfirmOrder_def order_read_def status_defs)
  qed
qed

lemma demo_cold: "cold ideal_env (idle d) oid"
  by (simp add: cold_def redis_live_def)

theorem CancelOrder_branches_witness:
  "case run_state (CancelOrder ideal_env (orderUC ideal_env) ''o1'' ''changed my mind'') (idle demo_orders) of (r, w') \<Rightarrow>
     r = Inr () \<and> (\<exists>ev. status_stored ideal_pg ''o1'' StatusCancelled ev demo_orders (w_db w'))"
  using CancelOrder_branches [of ideal_env "idle demo_orders" "''o1''" "''changed my mind''"] demo_uuids demo_cold
  by (auto simp: status_changed_def payload_accepted_def cancelled_payload_def enc_object_def find_order_def demo_orders_def demo_order_row_def split: prod.splits)

theorem ConfirmOrder_branches_witness:
  "case run_state (ConfirmOrder ideal_env (orderUC ideal_env) ''o2'') (idle demo_orders) of (r, w') \<Rightarrow>
     r = Inr () \<and> w_db w' = demo_orders"
  using ConfirmOrder_branches [of ideal_env "idle demo_orders" "''o2''"] demo_uuids demo_cold
  by (auto simp: find_order_def demo_orders_def demo_order_row_def status_defs split: prod.splits)

subsection \<open>Stale entries of the order cache\<close>

lemma cached_get_hit:
  assumes "calm env" and "w_redis w (cache_key order_cache oid) = Some (j, expires)" and "e_now env (w_tick w) < expires"
    and "unmarshal dec_Order zero_Order (Some j) = Some c"
  shows "run_state (OrderRepository_GetByID (uc_orderRepo (orderUC env)) oid) w = (Inr c, w\<lparr>w_tick := Suc (w_tick w)\<rparr>)"
  using assms
  by (simp add: orderUC_def NewOrderCache_def OrderCache_GetByID_def run_Cache_Get orderKey_def redis_live_def)

lemma store_status_keeps_redis:
  "keeps (\<lambda>w. P (w_redis w)) (store_status env (orderUC env) msg oid status ev)"
  unfolding store_status_def cached.store_contract by (intro keeps_intros)

lemma CancelOrder_keeps_entry:
  assumes "calm env" and "w_redis w (cache_key order_cache oid) = Some (j, expires)" and "e_now env (w_tick w) < expires"
    and "unmarshal dec_Order zero_Order (Some j) = Some c"
  shows "w_redis (snd (run_state (CancelOrder env (orderUC env) oid reason) w)) = w_redis w"
proof -
  have "keeps (\<lambda>w. w_redis w = m) (do {
      ev \<leftarrow> new_event env (o_id c) ''order.cancelled'' (cancelled_payload c reason);
      store_status env (orderUC env) ''failed to cancel order'' oid StatusCancelled ev })" for m
    unfolding new_event_def by (intro keeps_intros store_status_keeps_redis)
  from keepsD [OF this, of "w\<lparr>w_tick := Suc (w_tick w)\<rparr>" "w_redis w"] cached_get_hit [OF assms]
  show ?thesis by (simp add: CancelOrder_def)
qed

text \<open>
  C27: a cached order outlives a change of its status. With a live cache entry for an order,
  \<open>CancelOrder\<close> leaves the entry as it is; and when the entry says \<open>StatusPendingPayment\<close>,
  \<open>ConfirmOrder\<close> sets the status to \<open>StatusProcessing\<close> whatever the status in the table is, a cancelled
  order's included, provided that the server accepts the payload of its event.
\<close>

theorem stale_order_is_confirmed:
  assumes "calm env" and "varchar_keeps (e_pg env)" and "good_uuids env (w_db w) (w_tick w)"
    and "pg_uuid (e_pg env) oid = Some oid"
    and "w_redis w (cache_key order_cache oid) = Some (j, expires)" and "e_now env (w_tick w) < expires"
    and "unmarshal dec_Order zero_Order (Some j) = Some c" and "o_id c = oid" and "o_status c = StatusPendingPayment"
    and "payload_accepted (e_pg env) (confirmed_payload c)"
  shows "w_redis (snd (run_state (CancelOrder env (orderUC env) oid reason) w)) = w_redis w \<and>
    (case run_state (ConfirmOrder env (orderUC env) oid) w of (r, w') \<Rightarrow>
       r = Inr () \<and> (\<exists>ev. status_event oid ''order.confirmed'' (confirmed_payload c) ev \<and>
          status_stored (e_pg env) oid StatusProcessing ev (w_db w) (w_db w')))"
proof -
  let ?w = "w\<lparr>w_tick := Suc (w_tick w)\<rparr>"
  have "good_uuids env (w_db ?w) (w_tick ?w)" using good_uuids_later [OF assms(3)] by simp
  note ch = status_change_calm [OF assms(1,2) this assms(4) varchar_literals(8,5) [OF assms(2)], where
      payload = "confirmed_payload c" and msg = "''failed to confirm order''"]
  with assms(10) have "case run_state (ConfirmOrder env (orderUC env) oid) w of (r, w') \<Rightarrow>
      r = Inr () \<and> (\<exists>ev. status_event oid ''order.confirmed'' (confirmed_payload c) ev \<and>
        status_stored (e_pg env) oid StatusProcessing ev (w_db w) (w_db w'))"
    using cached_get_hit [OF assms(1,5-7)] assms(8,9) by (simp add: ConfirmOrder_def status_defs status_changed_def)
  with CancelOrder_keeps_entry [OF assms(1,5-7)] show ?thesis by blast
qed

lemma demo_order_marshals: "marshallable_order (rowToOrder (demo_order_row i s))"
  by (simp add: marshallable_order_def rowToOrder_def demo_order_row_def)

definition stale_world :: "order_db world" where
  "stale_world = (idle (demo_orders\<lparr>t_orders := [demo_order_row ''o1'' StatusCancelled]\<rparr>))
     \<lparr>w_redis := [cache_key order_cache ''o1'' \<mapsto>
        (the (enc_Order (rowToOrder (demo_order_row ''o1'' StatusPendingPayment))), 300)]\<rparr>"

theorem stale_order_is_confirmed_witness:
  "find_order ''o1'' (w_db stale_world) = Some (demo_order_row ''o1'' StatusCancelled) \<and>
   (case run_state (ConfirmOrder ideal_env (orderUC ideal_env) ''o1'') stale_world of (r, w') \<Rightarrow>
      r = Inr () \<and> (\<exists>ev. status_stored ideal_pg ''o1'' StatusProcessing ev (w_db stale_world) (w_db w')))"
proof -
  let ?c = "rowToOrder (demo_order_row ''o1'' StatusPendingPayment)"
  have dec: "unmarshal dec_Order zero_Order (Some (the (enc_Order ?c))) = Some ?c"
    using dec_enc_Order_lemma [OF demo_order_marshals, of "''o1''" StatusPendingPayment]
    by (auto simp: unmarshal_def)
  have "good_uuids ideal_env (w_db stale_world) (w_tick stale_world)"
    using demo_uuids [of 0] by (auto simp: good_uuids_def stale_world_def used_ids_def demo_orders_def)
      (simp_all add: demo_order_row_def)
  moreover have "w_redis stale_world (cache_key order_cache ''o1'') = Some (the (enc_Order ?c), 300)"
    "e_now ideal_env (w_tick stale_world) < 300" "o_id ?c = ''o1''" "o_status ?c = StatusPendingPayment"
    by (simp_all add: stale_world_def demo_order_row_def)
  moreover have "payload_accepted ideal_pg (confirmed_payload ?c)"
    by (simp add: payload_accepted_def confirmed_payload_def enc_object_def)
  ultimately have "case run_state (ConfirmOrder ideal_env (orderUC ideal_env) ''o1'') stale_world of (r, w') \<Rightarrow>
      r = Inr () \<and> (\<exists>ev. status_event ''o1'' ''order.confirmed'' (confirmed_payload ?c) ev \<and>
        status_stored ideal_pg ''o1'' StatusProcessing ev (w_db stale_world) (w_db w'))"
    using stale_order_is_confirmed [of ideal_env stale_world "''o1''" _ 300 ?c] dec by simp
  moreover have "find_order ''o1'' (w_db stale_world) = Some (demo_order_row ''o1'' StatusCancelled)"
    by (simp add: find_order_def stale_world_def demo_order_row_def)
  ultimately show ?thesis by (auto split: prod.splits)
qed

subsection \<open>Round trips and totals\<close>



text \<open>The column types keep what they are given, as far as an order uses them.\<close>

definition keeps_order :: "pg_types \<Rightarrow> Order \<Rightarrow> bool" where
  "keeps_order pg ord \<longleftrightarrow>
     pg_uuid pg (o_id ord) = Some (o_id ord) \<and> pg_uuid pg (o_customer_id ord) = Some (o_customer_id ord) \<and>
     pg_varchar pg 30 (o_status ord) = Some (o_status ord) \<and> pg_char pg 3 (o_currency ord) = Some (o_currency ord) \<and>
     list_all (\<lambda>f. pg_decimal pg f = Some f)
       [o_subtotal ord, o_discount_amount ord, o_shipping_fee ord, o_tax_amount ord, o_total_amount ord] \<and>
     pg_varchar pg 100 (o_idempotency_key ord) = Some (o_idempotency_key ord) \<and>
     pg_jsonb pg (enc_Address (o_shipping_address ord)) = Some (enc_Address (o_shipping_address ord)) \<and>
     pg_timestamptz pg (o_created_at ord) = o_created_at ord \<and> pg_timestamptz pg (o_updated_at ord) = o_updated_at ord"

lemma fill_enc_Address: "fill_struct Address_fields zero_Address (enc_Address a) = a"
  by (cases a) (simp add: enc_Address_def Address_fields_def struct_simps)

text \<open>
  An order survives its table: after \<open>CreateInTx\<close> outside a transaction in a calm
  environment, \<open>GetByID\<close> returns the order that was stored, without its items (which have their
  own table) and without its idempotency key, which \<open>rowToOrder\<close> does not copy.
\<close>

theorem order_row_roundtrip:
  assumes "calm env" and "keeps_order (e_pg env) ord"
    and "run_state (orderRepository_CreateInTx env None ord) w = (Inr (), w')"
  shows "fst (run_state (orderRepository_GetByID env (o_id ord)) w') =
           Inr (ord\<lparr>o_items := [], o_idempotency_key := ''''\<rparr>)"
proof -
  obtain r where r: "order_row (e_pg env) ord = Some r"
      "rowToOrder r = ord\<lparr>o_items := [], o_idempotency_key := ''''\<rparr>" "or_id r = o_id ord"
    using assms(2) by (cases ord)
      (auto simp: order_row_def keeps_order_def rowToOrder_def fill_enc_Address)
  have "w_db w' = (w_db w)\<lparr>t_orders := t_orders (w_db w) @ [r]\<rparr>" "fresh_order r (w_db w)"
    using assms(1,3) r(1)
    by (auto simp: orderRepository_CreateInTx_def execute_def run_exec_db_calm insert_order_def fresh_order_def
        list_ex_iff split: if_splits)
  moreover from this(2) have "filter (\<lambda>q. or_id q = o_id ord) (t_orders (w_db w)) = []"
    using r(3) by (auto simp: fresh_order_def filter_empty_conv)
  ultimately show ?thesis
    using assms(1,2) r(2,3)
    by (simp add: orderRepository_GetByID_def run_GetContext_calm select_order_by_id_def keeps_order_def)
qed

definition demo_order :: Order where
  "demo_order = (rowToOrder (demo_order_row ''o3'' StatusPendingPayment))\<lparr>o_idempotency_key := ''key''\<rparr>"

theorem order_row_roundtrip_witness:
  "fst (run_state (orderRepository_GetByID ideal_env (o_id demo_order))
      (snd (run_state (orderRepository_CreateInTx ideal_env None demo_order) (idle demo_orders)))) =
     Inr (demo_order\<lparr>o_items := [], o_idempotency_key := ''''\<rparr>)"
proof -
  have keep: "keeps_order ideal_pg demo_order"
    by (simp add: keeps_order_def demo_order_def rowToOrder_def demo_order_row_def status_defs)
  have "order_row ideal_pg demo_order \<noteq> None" using keep by (simp add: order_row_def keeps_order_def)
  then obtain r where r: "order_row ideal_pg demo_order = Some r" by blast
  have "or_id r = ''o3''" "or_idempotency_key r = Some ''key''"
    using r by (auto simp: order_row_def demo_order_def rowToOrder_def demo_order_row_def bind_eq_Some_conv)
  then have "insert_order ideal_pg demo_order demo_orders =
      Inr (demo_orders\<lparr>t_orders := t_orders demo_orders @ [r]\<rparr>, ())"
    using r by (simp add: insert_order_def demo_orders_def demo_order_row_def)
  then obtain w' where "run_state (orderRepository_CreateInTx ideal_env None demo_order) (idle demo_orders) = (Inr (), w')"
    by (simp add: orderRepository_CreateInTx_def execute_def run_exec_db_calm)
  with order_row_roundtrip [OF calm_ideal _ this] keep show ?thesis by simp
qed

text \<open>
  C31: \<open>CalculateTotal\<close> is exact on whole amounts: when the item totals, the discount, the fee
  and the tax are whole non-negative numbers and the sum stays below \<open>2 ^ 53\<close>, the subtotal
  is the exact sum of the item totals and the total is subtotal - discount + fee + tax,
  although it is computed in \<open>float64\<close>.
\<close>

theorem CalculateTotal_exact:
  assumes "\<forall>i \<in> set (o_items ord). oi_total_price i = Fin (of_int (p i)) \<and> 0 \<le> p i"
    and "o_discount_amount ord = Fin (of_int d)" "0 \<le> d"
    and "o_shipping_fee ord = Fin (of_int f)" "0 \<le> f"
    and "o_tax_amount ord = Fin (of_int t)" "0 \<le> t"
    and "sum_list (map p (o_items ord)) + f + t < 2 ^ 53" "d < 2 ^ 53"
  shows "o_subtotal (CalculateTotal ord) = Fin (of_int (sum_list (map p (o_items ord)))) \<and>
         o_total_amount (CalculateTotal ord) = Fin (of_int (sum_list (map p (o_items ord)) - d + f + t))"
  using CalculateTotal_integral_lemma [OF assms] by simp

definition demo_item :: OrderItem where
  "demo_item = \<lparr>oi_id = ''i'', oi_order_id = ''o3'', oi_product_id = ''p'', oi_sku = ''s'', oi_product_name = ''n'',
     oi_quantity = 2, oi_unit_price = Fin 20, oi_total_price = Fin 40\<rparr>"

theorem CalculateTotal_exact_witness:
  "o_total_amount (CalculateTotal (demo_order\<lparr>o_items := [demo_item, demo_item], o_tax_amount := Fin 8\<rparr>)) = Fin 88"
  using CalculateTotal_exact [of "demo_order\<lparr>o_items := [demo_item, demo_item], o_tax_amount := Fin 8\<rparr>"
      "\<lambda>_. 40" 0 0 8]
  by (simp add: demo_order_def demo_item_def rowToOrder_def demo_order_row_def)

end
