(* ===== verification/Inventory_Domain.thy ===== *)
theory Inventory_Domain
  imports Platform
begin

text \<open>
  The inventory service's domain (\<^verbatim>\<open>internal/inventory/domain\<close>): errors, warehouses, stock
  levels, reservations, movements, their JSON forms where the cache uses them, and the number
  of units of a product that are available.
\<close>

subsection \<open>Errors (errors.go)\<close>

definition ErrInsufficientStock :: go_error where
  "ErrInsufficientStock = Sentinel ''insufficient stock''"
definition ErrInventoryNotFound :: go_error where
  "ErrInventoryNotFound = Sentinel ''inventory not found''"
definition ErrConcurrentModification :: go_error where
  "ErrConcurrentModification = Sentinel ''concurrent modification detected''"
definition ErrReservationNotFound :: go_error where
  "ErrReservationNotFound = Sentinel ''reservation not found''"
definition ErrReservationExpired :: go_error where
  "ErrReservationExpired = Sentinel ''reservation expired''"
definition ErrInvalidStockQuantity :: go_error where
  "ErrInvalidStockQuantity = Sentinel ''invalid quantity''"

lemmas inventory_errors = ErrInsufficientStock_def ErrInventoryNotFound_def ErrConcurrentModification_def
  ErrReservationNotFound_def ErrReservationExpired_def ErrInvalidStockQuantity_def

subsection \<open>Structs (inventory.go)\<close>

record Warehouse =
  wh_id :: string
  wh_code :: string
  wh_name :: string
  wh_status :: string
  wh_created_at :: int

record Inventory =
  iv_id :: string
  iv_product_id :: string
  iv_sku :: string
  iv_warehouse_id :: string
  iv_quantity_on_hand :: int
  iv_quantity_reserved :: int
  iv_version :: int
  iv_updated_at :: int

definition Available :: "Inventory \<Rightarrow> int" where
  "Available i = wrap64 (iv_quantity_on_hand i - iv_quantity_reserved i)"

record Reservation =
  rs_id :: string
  rs_order_id :: string
  rs_order_item_id :: string
  rs_product_id :: string
  rs_sku :: string
  rs_warehouse_id :: string
  rs_quantity :: int
  rs_status :: string
  rs_expires_at :: "int option"
  rs_created_at :: int
  rs_updated_at :: int

type_synonym MovementType = string

definition MovementIn :: MovementType where "MovementIn = ''in''"
definition MovementOut :: MovementType where "MovementOut = ''out''"
definition MovementReserve :: MovementType where "MovementReserve = ''reserve''"
definition MovementRelease :: MovementType where "MovementRelease = ''release''"
definition MovementAdjustment :: MovementType where "MovementAdjustment = ''adjustment''"
definition MovementTransferIn :: MovementType where "MovementTransferIn = ''transfer_in''"
definition MovementTransferOut :: MovementType where "MovementTransferOut = ''transfer_out''"

lemmas movement_types = MovementIn_def MovementOut_def MovementReserve_def MovementRelease_def
  MovementAdjustment_def MovementTransferIn_def MovementTransferOut_def

record InventoryMovement =
  mv_id :: string
  mv_product_id :: string
  mv_sku :: string
  mv_warehouse_id :: string
  mv_movement_type :: MovementType
  mv_quantity :: int
  mv_reference_type :: string
  mv_reference_id :: string
  mv_created_at :: int

subsection \<open>JSON forms\<close>

definition zero_Warehouse :: Warehouse where
  "zero_Warehouse = \<lparr>wh_id = '''', wh_code = '''', wh_name = '''', wh_status = '''', wh_created_at = 0\<rparr>"

definition zero_Inventory :: Inventory where
  "zero_Inventory = \<lparr>iv_id = '''', iv_product_id = '''', iv_sku = '''', iv_warehouse_id = '''',
     iv_quantity_on_hand = 0, iv_quantity_reserved = 0, iv_version = 0, iv_updated_at = 0\<rparr>"

definition enc_Warehouse :: "Warehouse \<Rightarrow> json" where
  "enc_Warehouse wh = JObj [(''id'', JStr (wh_id wh)), (''code'', JStr (wh_code wh)),
     (''name'', JStr (wh_name wh)), (''status'', JStr (wh_status wh)), (''created_at'', JTime (wh_created_at wh))]"

definition Warehouse_fields :: "(string \<times> Warehouse decoder) list" where
  "Warehouse_fields =
     [(''id'', fld wh_id wh_id_update dec_string), (''code'', fld wh_code wh_code_update dec_string),
      (''name'', fld wh_name wh_name_update dec_string), (''status'', fld wh_status wh_status_update dec_string),
      (''created_at'', fld wh_created_at wh_created_at_update dec_time)]"

definition dec_Warehouse :: "Warehouse decoder" where
  "dec_Warehouse = dec_struct Warehouse_fields"

definition enc_Inventory :: "Inventory \<Rightarrow> json" where
  "enc_Inventory i = JObj [(''id'', JStr (iv_id i)), (''product_id'', JStr (iv_product_id i)),
     (''sku'', JStr (iv_sku i)), (''warehouse_id'', JStr (iv_warehouse_id i)),
     (''quantity_on_hand'', JInt (iv_quantity_on_hand i)), (''quantity_reserved'', JInt (iv_quantity_reserved i)),
     (''version'', JInt (iv_version i)), (''updated_at'', JTime (iv_updated_at i))]"

definition Inventory_fields :: "(string \<times> Inventory decoder) list" where
  "Inventory_fields =
     [(''id'', fld iv_id iv_id_update dec_string),
      (''product_id'', fld iv_product_id iv_product_id_update dec_string),
      (''sku'', fld iv_sku iv_sku_update dec_string),
      (''warehouse_id'', fld iv_warehouse_id iv_warehouse_id_update dec_string),
      (''quantity_on_hand'', fld iv_quantity_on_hand iv_quantity_on_hand_update dec_int),
      (''quantity_reserved'', fld iv_quantity_reserved iv_quantity_reserved_update dec_int),
      (''version'', fld iv_version iv_version_update dec_int),
      (''updated_at'', fld iv_updated_at iv_updated_at_update dec_time)]"

definition dec_Inventory :: "Inventory decoder" where
  "dec_Inventory = dec_struct Inventory_fields"

text \<open>
  A slice of pointers to \<open>Inventory\<close>; with no rows it is nil and encoded as \<open>null\<close>. A \<open>null\<close>
  element is a nil pointer, which no cache entry of this service holds; it is decoded as a
  failure.
\<close>

fun dec_Inventory_ptr :: "Inventory decoder" where
  "dec_Inventory_ptr cur JNull = None"
| "dec_Inventory_ptr cur v = dec_Inventory cur v"

definition enc_inventories :: "Inventory list \<Rightarrow> json" where
  "enc_inventories is = (if is = [] then JNull else JArr (map enc_Inventory is))"

definition dec_inventories :: "Inventory list decoder" where
  "dec_inventories = dec_slice dec_Inventory_ptr zero_Inventory"

subsection \<open>Round trips and bounds\<close>

definition inventory_ints :: "Inventory \<Rightarrow> bool" where
  "inventory_ints i \<longleftrightarrow>
     int64_ok (iv_quantity_on_hand i) \<and> int64_ok (iv_quantity_reserved i) \<and> int64_ok (iv_version i)"

lemma dec_enc_Inventory: "inventory_ints i \<Longrightarrow> dec_Inventory cur (enc_Inventory i) = Some i"
  by (simp add: dec_Inventory_def enc_Inventory_def Inventory_fields_def fld_def field_for_def inventory_ints_def)

lemma dec_enc_inventories:
  assumes "list_all inventory_ints is"
  shows "dec_inventories cur (enc_inventories is) = Some is"
proof -
  have ptr: "dec_Inventory_ptr c (enc_Inventory i) = dec_Inventory c (enc_Inventory i)" for c i
    by (simp add: enc_Inventory_def)
  from assms have "dec_elems dec_Inventory_ptr zero_Inventory (map enc_Inventory is) = Some is"
    by (induction "is") (auto simp: ptr dec_enc_Inventory)
  then show ?thesis by (simp add: dec_inventories_def enc_inventories_def)
qed

lemma dec_enc_Warehouse: "dec_Warehouse cur (enc_Warehouse wh) = Some wh"
  by (simp add: dec_Warehouse_def enc_Warehouse_def Warehouse_fields_def fld_def field_for_def)

end
