(* ===== verification/Inventory_Repo.thy ===== *)
theory Inventory_Repo
  imports Inventory_Domain Platform_Logic
begin

text \<open>
  The inventory database and its repositories (\<^verbatim>\<open>internal/inventory/adapter/postgres\<close>), as
  statements on tables with the checks of the schema in \<^verbatim>\<open>migrations/inventory\<close>: column
  types, primary keys, the unique pair of product and warehouse, the reference of a stock
  level to its warehouse, and the range of \<open>INT\<close> (the index on the available quantity makes
  the server compute it for every row it writes). The schema has two versions of the column
  \<open>order_item_id\<close> of the reservations: \<open>NOT NULL\<close> in \<^verbatim>\<open>01-init.sql\<close>, nullable in
  \<^verbatim>\<open>inventory_reservations.sql\<close>; which one is deployed is a component of the state.
\<close>

subsection \<open>Rows and tables\<close>

record reservationRow =
  rr_id :: string
  rr_order_id :: string
  rr_order_item_id :: "string option"
  rr_product_id :: string
  rr_sku :: string
  rr_warehouse_id :: string
  rr_quantity :: int
  rr_status :: string
  rr_expires_at :: "int option"
  rr_created_at :: int
  rr_updated_at :: int

record movementRow =
  mr_id :: string
  mr_product_id :: string
  mr_sku :: string
  mr_warehouse_id :: string
  mr_movement_type :: string
  mr_quantity :: int
  mr_reference_type :: "string option"
  mr_reference_id :: "string option"
  mr_created_at :: int

record inv_db =
  t_warehouses :: "Warehouse list"
  t_inventory :: "Inventory list"
  t_reservations :: "reservationRow list"
  t_movements :: "movementRow list"
  s_item_required :: bool

subsection \<open>The interfaces (domain/repository.go)\<close>

record InventoryRepository =
  InventoryRepository_Create :: "Inventory \<Rightarrow> (inv_db, unit) ioe"
  InventoryRepository_CreateInTx :: "nat option \<Rightarrow> Inventory \<Rightarrow> (inv_db, unit) ioe"
  InventoryRepository_GetByProductAndWarehouse :: "string \<Rightarrow> string \<Rightarrow> (inv_db, Inventory) ioe"
  InventoryRepository_GetByProductID :: "string \<Rightarrow> (inv_db, Inventory list) ioe"
  InventoryRepository_UpdateStock :: "string \<Rightarrow> string \<Rightarrow> int \<Rightarrow> int \<Rightarrow> (inv_db, unit) ioe"
  InventoryRepository_ReserveQuantity :: "string \<Rightarrow> string \<Rightarrow> int \<Rightarrow> int \<Rightarrow> (inv_db, unit) ioe"
  InventoryRepository_ReleaseQuantity :: "string \<Rightarrow> string \<Rightarrow> int \<Rightarrow> (inv_db, unit) ioe"
  InventoryRepository_GetWarehouseByCode :: "string \<Rightarrow> (inv_db, Warehouse) ioe"

record ReservationRepository =
  ReservationRepository_Create :: "Reservation \<Rightarrow> (inv_db, unit) ioe"
  ReservationRepository_CreateInTx :: "nat option \<Rightarrow> Reservation \<Rightarrow> (inv_db, unit) ioe"
  ReservationRepository_GetByID :: "string \<Rightarrow> (inv_db, Reservation) ioe"
  ReservationRepository_GetByOrderID :: "string \<Rightarrow> (inv_db, Reservation list) ioe"
  ReservationRepository_UpdateStatus :: "string \<Rightarrow> string \<Rightarrow> (inv_db, unit) ioe"

record MovementRepository =
  MovementRepository_Create :: "InventoryMovement \<Rightarrow> (inv_db, unit) ioe"
  MovementRepository_CreateInTx :: "nat option \<Rightarrow> InventoryMovement \<Rightarrow> (inv_db, unit) ioe"
  MovementRepository_GetByProductID :: "string \<Rightarrow> (inv_db, InventoryMovement list) ioe"

subsection \<open>Stock levels\<close>

definition pq_not_null :: go_error where
  "pq_not_null = External ''pq: null value violates not-null constraint''"
definition pq_range :: go_error where
  "pq_range = External ''pq: integer out of range''"

text \<open>The integers of a stored stock level, the indexed available quantity included.\<close>

definition stock_ok :: "Inventory \<Rightarrow> bool" where
  "stock_ok i \<longleftrightarrow>
     int4_ok (iv_quantity_on_hand i) \<and> int4_ok (iv_quantity_reserved i) \<and>
     int4_ok (iv_quantity_on_hand i - iv_quantity_reserved i) \<and> int64_ok (iv_version i)"

definition inventory_row :: "pg_types \<Rightarrow> Inventory \<Rightarrow> Inventory option" where
  "inventory_row pg stock = do {
     i \<leftarrow> pg_uuid pg (iv_id stock);
     p \<leftarrow> pg_uuid pg (iv_product_id stock);
     s \<leftarrow> pg_varchar pg 100 (iv_sku stock);
     wh \<leftarrow> pg_uuid pg (iv_warehouse_id stock);
     Some (stock\<lparr>iv_id := i, iv_product_id := p, iv_sku := s, iv_warehouse_id := wh,
               iv_updated_at := pg_timestamptz pg (iv_updated_at stock)\<rparr>)
   }"

definition at_place :: "string \<Rightarrow> string \<Rightarrow> Inventory \<Rightarrow> bool" where
  "at_place p wh i \<longleftrightarrow> iv_product_id i = p \<and> iv_warehouse_id i = wh"

definition insert_inventory :: "pg_types \<Rightarrow> Inventory \<Rightarrow> (inv_db, unit) stmt" where
  "insert_inventory pg stock d =
     (case inventory_row pg stock of
        None \<Rightarrow> Inl pq_invalid
      | Some r \<Rightarrow>
          (if \<not> stock_ok r then Inl pq_range
           else if list_ex (\<lambda>q. iv_id q = iv_id r) (t_inventory d) then Inl pq_duplicate
           else if list_ex (at_place (iv_product_id r) (iv_warehouse_id r)) (t_inventory d) then Inl pq_duplicate
           else if \<not> list_ex (\<lambda>wh. wh_id wh = iv_warehouse_id r) (t_warehouses d) then Inl pq_foreign_key
           else Inr (d\<lparr>t_inventory := t_inventory d @ [r]\<rparr>, ())))"

definition inventoryRepository_CreateInTx ::
  "inv_db env \<Rightarrow> nat option \<Rightarrow> Inventory \<Rightarrow> (inv_db, unit) ioe" where
  "inventoryRepository_CreateInTx env tx stock = execute env tx (insert_inventory (e_pg env) stock)"

definition inventoryRepository_Create :: "inv_db env \<Rightarrow> Inventory \<Rightarrow> (inv_db, unit) ioe" where
  "inventoryRepository_Create env stock = inventoryRepository_CreateInTx env None stock"

definition select_stock :: "pg_types \<Rightarrow> string \<Rightarrow> string \<Rightarrow> inv_db \<Rightarrow> Inventory list result" where
  "select_stock pg productID warehouseID d =
     (case (pg_uuid pg productID, pg_uuid pg warehouseID) of
        (Some p, Some wh) \<Rightarrow> Inr (filter (at_place p wh) (t_inventory d))
      | _ \<Rightarrow> Inl pq_invalid)"

definition inventoryRepository_GetByProductAndWarehouse ::
  "inv_db env \<Rightarrow> string \<Rightarrow> string \<Rightarrow> (inv_db, Inventory) ioe" where
  "inventoryRepository_GetByProductAndWarehouse env productID warehouseID = do {
     r \<leftarrow> GetContext env (select_stock (e_pg env) productID warehouseID);
     ret (not_found_as ErrInventoryNotFound r)
   }"

definition select_product :: "pg_types \<Rightarrow> string \<Rightarrow> inv_db \<Rightarrow> Inventory list result" where
  "select_product pg productID d =
     (case pg_uuid pg productID of
        None \<Rightarrow> Inl pq_invalid
      | Some p \<Rightarrow> Inr (filter (\<lambda>i. iv_product_id i = p) (t_inventory d)))"

definition inventoryRepository_GetByProductID :: "inv_db env \<Rightarrow> string \<Rightarrow> (inv_db, Inventory list) ioe" where
  "inventoryRepository_GetByProductID env productID = SelectContext env (select_product (e_pg env) productID)"

text \<open>An \<open>UPDATE\<close> of the stock levels that satisfy \<open>hit\<close>; its result is the number of rows.\<close>

definition update_rows :: "(Inventory \<Rightarrow> bool) \<Rightarrow> (Inventory \<Rightarrow> Inventory) \<Rightarrow> (inv_db, nat) stmt" where
  "update_rows hit upd d =
     (if list_all (\<lambda>i. hit i \<longrightarrow> stock_ok (upd i)) (t_inventory d)
      then Inr (d\<lparr>t_inventory := map (\<lambda>i. if hit i then upd i else i) (t_inventory d)\<rparr>,
                length (filter hit (t_inventory d)))
      else Inl pq_range)"

definition update_at ::
  "pg_types \<Rightarrow> string \<Rightarrow> string \<Rightarrow> int \<Rightarrow> (Inventory \<Rightarrow> bool) \<Rightarrow> (Inventory \<Rightarrow> Inventory) \<Rightarrow> (inv_db, nat) stmt" where
  "update_at pg productID warehouseID quantity cond upd d =
     (case (pg_uuid pg productID, pg_uuid pg warehouseID) of
        (Some p, Some wh) \<Rightarrow>
          (if int4_ok quantity then update_rows (\<lambda>i. at_place p wh i \<and> cond i) upd d else Inl pq_range)
      | _ \<Rightarrow> Inl pq_invalid)"

text \<open>\<open>rows == 0\<close> is reported as a concurrent modification.\<close>

fun none_is_conflict :: "nat result \<Rightarrow> unit result" where
  "none_is_conflict (Inl e) = Inl e"
| "none_is_conflict (Inr n) = (if n = 0 then Inl ErrConcurrentModification else Inr ())"

definition update_stock :: "pg_types \<Rightarrow> string \<Rightarrow> string \<Rightarrow> int \<Rightarrow> int \<Rightarrow> int \<Rightarrow> (inv_db, nat) stmt" where
  "update_stock pg productID warehouseID quantityChange expectedVersion now =
     update_at pg productID warehouseID quantityChange (\<lambda>i. iv_version i = expectedVersion)
       (\<lambda>i. i\<lparr>iv_quantity_on_hand := iv_quantity_on_hand i + quantityChange,
             iv_version := iv_version i + 1, iv_updated_at := pg_timestamptz pg now\<rparr>)"

definition inventoryRepository_UpdateStock ::
  "inv_db env \<Rightarrow> string \<Rightarrow> string \<Rightarrow> int \<Rightarrow> int \<Rightarrow> (inv_db, unit) ioe" where
  "inventoryRepository_UpdateStock env productID warehouseID quantityChange expectedVersion = do {
     now \<leftarrow> time_now env;
     r \<leftarrow> exec_db env (update_stock (e_pg env) productID warehouseID quantityChange expectedVersion now);
     ret (none_is_conflict r)
   }"

definition reserve_quantity :: "pg_types \<Rightarrow> string \<Rightarrow> string \<Rightarrow> int \<Rightarrow> int \<Rightarrow> int \<Rightarrow> (inv_db, nat) stmt" where
  "reserve_quantity pg productID warehouseID quantity expectedVersion now =
     update_at pg productID warehouseID quantity
       (\<lambda>i. iv_version i = expectedVersion \<and> quantity \<le> iv_quantity_on_hand i - iv_quantity_reserved i)
       (\<lambda>i. i\<lparr>iv_quantity_reserved := iv_quantity_reserved i + quantity,
             iv_version := iv_version i + 1, iv_updated_at := pg_timestamptz pg now\<rparr>)"

definition inventoryRepository_ReserveQuantity ::
  "inv_db env \<Rightarrow> string \<Rightarrow> string \<Rightarrow> int \<Rightarrow> int \<Rightarrow> (inv_db, unit) ioe" where
  "inventoryRepository_ReserveQuantity env productID warehouseID quantity expectedVersion = do {
     now \<leftarrow> time_now env;
     r \<leftarrow> exec_db env (reserve_quantity (e_pg env) productID warehouseID quantity expectedVersion now);
     ret (none_is_conflict r)
   }"

definition release_quantity :: "pg_types \<Rightarrow> string \<Rightarrow> string \<Rightarrow> int \<Rightarrow> int \<Rightarrow> (inv_db, nat) stmt" where
  "release_quantity pg productID warehouseID quantity now =
     update_at pg productID warehouseID quantity (\<lambda>i. quantity \<le> iv_quantity_reserved i)
       (\<lambda>i. i\<lparr>iv_quantity_reserved := iv_quantity_reserved i - quantity,
             iv_updated_at := pg_timestamptz pg now\<rparr>)"

definition inventoryRepository_ReleaseQuantity ::
  "inv_db env \<Rightarrow> string \<Rightarrow> string \<Rightarrow> int \<Rightarrow> (inv_db, unit) ioe" where
  "inventoryRepository_ReleaseQuantity env productID warehouseID quantity = do {
     now \<leftarrow> time_now env;
     r \<leftarrow> exec_db env (release_quantity (e_pg env) productID warehouseID quantity now);
     ret (map_sum id (\<lambda>_. ()) r)
   }"

definition inventoryRepository_GetWarehouseByCode :: "inv_db env \<Rightarrow> string \<Rightarrow> (inv_db, Warehouse) ioe" where
  "inventoryRepository_GetWarehouseByCode env code = do {
     r \<leftarrow> GetContext env (\<lambda>d. Inr (filter (\<lambda>wh. wh_code wh = code) (t_warehouses d)));
     ret (not_found_as ErrInventoryNotFound r)
   }"

subsection \<open>Reservations\<close>

text \<open>\<open>sql.NullString\<close>: the empty string is NULL.\<close>

definition null_if_empty :: "string \<Rightarrow> string option" where
  "null_if_empty s = (if s = '''' then None else Some s)"

text \<open>A nullable column: NULL stays NULL, other values are converted.\<close>

fun nullable :: "('a \<Rightarrow> 'b option) \<Rightarrow> 'a option \<Rightarrow> 'b option option" where
  "nullable conv None = Some None"
| "nullable conv (Some x) = map_option Some (conv x)"

definition reservation_row :: "pg_types \<Rightarrow> Reservation \<Rightarrow> reservationRow option" where
  "reservation_row pg rs = do {
     i \<leftarrow> pg_uuid pg (rs_id rs);
     ord \<leftarrow> pg_uuid pg (rs_order_id rs);
     item \<leftarrow> nullable (pg_uuid pg) (null_if_empty (rs_order_item_id rs));
     p \<leftarrow> pg_uuid pg (rs_product_id rs);
     s \<leftarrow> pg_varchar pg 100 (rs_sku rs);
     wh \<leftarrow> pg_uuid pg (rs_warehouse_id rs);
     q \<leftarrow> int4 (rs_quantity rs);
     st \<leftarrow> pg_varchar pg 30 (rs_status rs);
     Some \<lparr>rr_id = i, rr_order_id = ord, rr_order_item_id = item, rr_product_id = p, rr_sku = s,
       rr_warehouse_id = wh, rr_quantity = q, rr_status = st,
       rr_expires_at = map_option (pg_timestamptz pg) (rs_expires_at rs),
       rr_created_at = pg_timestamptz pg (rs_created_at rs),
       rr_updated_at = pg_timestamptz pg (rs_updated_at rs)\<rparr>
   }"

definition insert_reservation :: "pg_types \<Rightarrow> Reservation \<Rightarrow> (inv_db, unit) stmt" where
  "insert_reservation pg rs d =
     (case reservation_row pg rs of
        None \<Rightarrow> Inl pq_invalid
      | Some r \<Rightarrow>
          (if s_item_required d \<and> rr_order_item_id r = None then Inl pq_not_null
           else if list_ex (\<lambda>q. rr_id q = rr_id r) (t_reservations d) then Inl pq_duplicate
           else Inr (d\<lparr>t_reservations := t_reservations d @ [r]\<rparr>, ())))"

definition reservationRepository_CreateInTx ::
  "inv_db env \<Rightarrow> nat option \<Rightarrow> Reservation \<Rightarrow> (inv_db, unit) ioe" where
  "reservationRepository_CreateInTx env tx rs = execute env tx (insert_reservation (e_pg env) rs)"

definition reservationRepository_Create :: "inv_db env \<Rightarrow> Reservation \<Rightarrow> (inv_db, unit) ioe" where
  "reservationRepository_Create env rs = reservationRepository_CreateInTx env None rs"

definition rowToReservation :: "reservationRow \<Rightarrow> Reservation" where
  "rowToReservation r = \<lparr>rs_id = rr_id r, rs_order_id = rr_order_id r,
     rs_order_item_id = (case rr_order_item_id r of None \<Rightarrow> '''' | Some s \<Rightarrow> s),
     rs_product_id = rr_product_id r, rs_sku = rr_sku r, rs_warehouse_id = rr_warehouse_id r,
     rs_quantity = rr_quantity r, rs_status = rr_status r, rs_expires_at = rr_expires_at r,
     rs_created_at = rr_created_at r, rs_updated_at = rr_updated_at r\<rparr>"

definition select_reservations ::
  "pg_types \<Rightarrow> (reservationRow \<Rightarrow> string) \<Rightarrow> string \<Rightarrow> inv_db \<Rightarrow> reservationRow list result" where
  "select_reservations pg column key d =
     (case pg_uuid pg key of
        None \<Rightarrow> Inl pq_invalid
      | Some i \<Rightarrow> Inr (filter (\<lambda>r. column r = i) (t_reservations d)))"

definition reservationRepository_GetByID :: "inv_db env \<Rightarrow> string \<Rightarrow> (inv_db, Reservation) ioe" where
  "reservationRepository_GetByID env rid = do {
     r \<leftarrow> GetContext env (select_reservations (e_pg env) rr_id rid);
     ret (map_sum id rowToReservation (not_found_as ErrReservationNotFound r))
   }"

definition reservationRepository_GetByOrderID :: "inv_db env \<Rightarrow> string \<Rightarrow> (inv_db, Reservation list) ioe" where
  "reservationRepository_GetByOrderID env orderID =
     bindE (SelectContext env (select_reservations (e_pg env) rr_order_id orderID))
       (\<lambda>rows. ok (map rowToReservation rows))"

definition update_reservation_status :: "pg_types \<Rightarrow> string \<Rightarrow> string \<Rightarrow> int \<Rightarrow> (inv_db, unit) stmt" where
  "update_reservation_status pg rid status now d =
     (case (pg_varchar pg 30 status, pg_uuid pg rid) of
        (Some s, Some i) \<Rightarrow>
          Inr (d\<lparr>t_reservations := map (\<lambda>r. if rr_id r = i
                   then r\<lparr>rr_status := s, rr_updated_at := pg_timestamptz pg now\<rparr> else r)
                 (t_reservations d)\<rparr>, ())
      | _ \<Rightarrow> Inl pq_invalid)"

definition reservationRepository_UpdateStatus ::
  "inv_db env \<Rightarrow> string \<Rightarrow> string \<Rightarrow> (inv_db, unit) ioe" where
  "reservationRepository_UpdateStatus env rid status = do {
     now \<leftarrow> time_now env;
     exec_db env (update_reservation_status (e_pg env) rid status now)
   }"

subsection \<open>Movements\<close>

definition movement_row :: "pg_types \<Rightarrow> InventoryMovement \<Rightarrow> movementRow option" where
  "movement_row pg mv = do {
     i \<leftarrow> pg_uuid pg (mv_id mv);
     p \<leftarrow> pg_uuid pg (mv_product_id mv);
     s \<leftarrow> pg_varchar pg 100 (mv_sku mv);
     wh \<leftarrow> pg_uuid pg (mv_warehouse_id mv);
     ty \<leftarrow> pg_varchar pg 30 (mv_movement_type mv);
     q \<leftarrow> int4 (mv_quantity mv);
     rt \<leftarrow> nullable (pg_varchar pg 50) (null_if_empty (mv_reference_type mv));
     ri \<leftarrow> nullable (pg_uuid pg) (null_if_empty (mv_reference_id mv));
     Some \<lparr>mr_id = i, mr_product_id = p, mr_sku = s, mr_warehouse_id = wh, mr_movement_type = ty,
       mr_quantity = q, mr_reference_type = rt, mr_reference_id = ri,
       mr_created_at = pg_timestamptz pg (mv_created_at mv)\<rparr>
   }"

definition insert_movement :: "pg_types \<Rightarrow> InventoryMovement \<Rightarrow> (inv_db, unit) stmt" where
  "insert_movement pg mv d =
     (case movement_row pg mv of
        None \<Rightarrow> Inl pq_invalid
      | Some r \<Rightarrow>
          (if list_ex (\<lambda>q. mr_id q = mr_id r) (t_movements d) then Inl pq_duplicate
           else Inr (d\<lparr>t_movements := t_movements d @ [r]\<rparr>, ())))"

definition movementRepository_CreateInTx ::
  "inv_db env \<Rightarrow> nat option \<Rightarrow> InventoryMovement \<Rightarrow> (inv_db, unit) ioe" where
  "movementRepository_CreateInTx env tx mv = execute env tx (insert_movement (e_pg env) mv)"

definition movementRepository_Create :: "inv_db env \<Rightarrow> InventoryMovement \<Rightarrow> (inv_db, unit) ioe" where
  "movementRepository_Create env mv = movementRepository_CreateInTx env None mv"

definition rowToMovement :: "movementRow \<Rightarrow> InventoryMovement" where
  "rowToMovement r = \<lparr>mv_id = mr_id r, mv_product_id = mr_product_id r, mv_sku = mr_sku r,
     mv_warehouse_id = mr_warehouse_id r, mv_movement_type = mr_movement_type r, mv_quantity = mr_quantity r,
     mv_reference_type = (case mr_reference_type r of None \<Rightarrow> '''' | Some s \<Rightarrow> s),
     mv_reference_id = (case mr_reference_id r of None \<Rightarrow> '''' | Some s \<Rightarrow> s),
     mv_created_at = mr_created_at r\<rparr>"

definition select_movements :: "pg_types \<Rightarrow> string \<Rightarrow> inv_db \<Rightarrow> movementRow list result" where
  "select_movements pg productID d =
     (case pg_uuid pg productID of
        None \<Rightarrow> Inl pq_invalid
      | Some p \<Rightarrow> Inr (sort_key (\<lambda>r. - mr_created_at r) (filter (\<lambda>r. mr_product_id r = p) (t_movements d))))"

definition movementRepository_GetByProductID :: "inv_db env \<Rightarrow> string \<Rightarrow> (inv_db, InventoryMovement list) ioe" where
  "movementRepository_GetByProductID env productID =
     bindE (SelectContext env (select_movements (e_pg env) productID)) (\<lambda>rows. ok (map rowToMovement rows))"

subsection \<open>The PostgreSQL implementations\<close>

definition NewInventoryRepository :: "inv_db env \<Rightarrow> InventoryRepository" where
  "NewInventoryRepository env =
     \<lparr>InventoryRepository_Create = inventoryRepository_Create env,
      InventoryRepository_CreateInTx = inventoryRepository_CreateInTx env,
      InventoryRepository_GetByProductAndWarehouse = inventoryRepository_GetByProductAndWarehouse env,
      InventoryRepository_GetByProductID = inventoryRepository_GetByProductID env,
      InventoryRepository_UpdateStock = inventoryRepository_UpdateStock env,
      InventoryRepository_ReserveQuantity = inventoryRepository_ReserveQuantity env,
      InventoryRepository_ReleaseQuantity = inventoryRepository_ReleaseQuantity env,
      InventoryRepository_GetWarehouseByCode = inventoryRepository_GetWarehouseByCode env\<rparr>"

definition NewReservationRepository :: "inv_db env \<Rightarrow> ReservationRepository" where
  "NewReservationRepository env =
     \<lparr>ReservationRepository_Create = reservationRepository_Create env,
      ReservationRepository_CreateInTx = reservationRepository_CreateInTx env,
      ReservationRepository_GetByID = reservationRepository_GetByID env,
      ReservationRepository_GetByOrderID = reservationRepository_GetByOrderID env,
      ReservationRepository_UpdateStatus = reservationRepository_UpdateStatus env\<rparr>"

definition NewMovementRepository :: "inv_db env \<Rightarrow> MovementRepository" where
  "NewMovementRepository env =
     \<lparr>MovementRepository_Create = movementRepository_Create env,
      MovementRepository_CreateInTx = movementRepository_CreateInTx env,
      MovementRepository_GetByProductID = movementRepository_GetByProductID env\<rparr>"

end
