(* ===== verification/Inventory_Cache.thy ===== *)
theory Inventory_Cache
  imports Inventory_Repo Redis_Cache
begin

text \<open>
  The caching decorator of the inventory repository (\<^verbatim>\<open>internal/inventory/adapter/cache\<close>): stock
  levels and warehouses are read through two caches, and every write that succeeds removes
  the entries of the stock level it may have changed.
\<close>

definition inventoryByProductWarehouseKey :: "string \<Rightarrow> string \<Rightarrow> string" where
  "inventoryByProductWarehouseKey productID warehouseID =
     ''stock:warehouse:'' @ productID @ '':'' @ warehouseID"

definition inventoryByProductKey :: "string \<Rightarrow> string" where
  "inventoryByProductKey productID = ''stock:'' @ productID"

definition warehouseCodeKey :: "string \<Rightarrow> string" where
  "warehouseCodeKey code = ''warehouse:code:'' @ code"

text \<open>\<open>if err == nil { c.stockCache.Delete(...) }\<close> after a write.\<close>

definition invalidating ::
  "inv_db env \<Rightarrow> Cache \<Rightarrow> string \<Rightarrow> string \<Rightarrow> (inv_db, unit) ioe \<Rightarrow> (inv_db, unit) ioe" where
  "invalidating env c productID warehouseID write = do {
     r \<leftarrow> write;
     case r of
       Inl e \<Rightarrow> fail e
     | Inr u \<Rightarrow> do {
         _ \<leftarrow> Cache_Delete env c [inventoryByProductWarehouseKey productID warehouseID,
                                   inventoryByProductKey productID];
         ok u
       }
   }"

text \<open>A read through a cache: a hit is returned, a miss is read from the inner repository and stored.\<close>

definition read_through ::
  "inv_db env \<Rightarrow> Cache \<Rightarrow> string \<Rightarrow> 'a decoder \<Rightarrow> 'a \<Rightarrow> ('a \<Rightarrow> json) \<Rightarrow> (inv_db, 'a) ioe \<Rightarrow> (inv_db, 'a) ioe" where
  "read_through env c key dec dest enc load = do {
     hit \<leftarrow> Cache_Get env c key dec dest;
     case hit of
       Some x \<Rightarrow> ok x
     | None \<Rightarrow>
         bindE load (\<lambda>x. do {
           _ \<leftarrow> Cache_Set env c key (Some (enc x));
           ok x
         })
   }"

definition InventoryCache_GetByProductAndWarehouse ::
  "inv_db env \<Rightarrow> InventoryRepository \<Rightarrow> Cache \<Rightarrow> string \<Rightarrow> string \<Rightarrow> (inv_db, Inventory) ioe" where
  "InventoryCache_GetByProductAndWarehouse env inner c productID warehouseID =
     read_through env c (inventoryByProductWarehouseKey productID warehouseID)
       dec_Inventory zero_Inventory enc_Inventory
       (InventoryRepository_GetByProductAndWarehouse inner productID warehouseID)"

definition InventoryCache_GetByProductID ::
  "inv_db env \<Rightarrow> InventoryRepository \<Rightarrow> Cache \<Rightarrow> string \<Rightarrow> (inv_db, Inventory list) ioe" where
  "InventoryCache_GetByProductID env inner c productID =
     read_through env c (inventoryByProductKey productID) dec_inventories [] enc_inventories
       (InventoryRepository_GetByProductID inner productID)"

definition InventoryCache_GetWarehouseByCode ::
  "inv_db env \<Rightarrow> InventoryRepository \<Rightarrow> Cache \<Rightarrow> string \<Rightarrow> (inv_db, Warehouse) ioe" where
  "InventoryCache_GetWarehouseByCode env inner c code =
     read_through env c (warehouseCodeKey code) dec_Warehouse zero_Warehouse enc_Warehouse
       (InventoryRepository_GetWarehouseByCode inner code)"

definition NewInventoryCache ::
  "inv_db env \<Rightarrow> InventoryRepository \<Rightarrow> Cache \<Rightarrow> Cache \<Rightarrow> InventoryRepository" where
  "NewInventoryCache env inner stockCache warehouseCache =
     \<lparr>InventoryRepository_Create = (\<lambda>i.
        invalidating env stockCache (iv_product_id i) (iv_warehouse_id i) (InventoryRepository_Create inner i)),
      InventoryRepository_CreateInTx = InventoryRepository_CreateInTx inner,
      InventoryRepository_GetByProductAndWarehouse =
        InventoryCache_GetByProductAndWarehouse env inner stockCache,
      InventoryRepository_GetByProductID = InventoryCache_GetByProductID env inner stockCache,
      InventoryRepository_UpdateStock = (\<lambda>p wh q v.
        invalidating env stockCache p wh (InventoryRepository_UpdateStock inner p wh q v)),
      InventoryRepository_ReserveQuantity = (\<lambda>p wh q v.
        invalidating env stockCache p wh (InventoryRepository_ReserveQuantity inner p wh q v)),
      InventoryRepository_ReleaseQuantity = (\<lambda>p wh q.
        invalidating env stockCache p wh (InventoryRepository_ReleaseQuantity inner p wh q)),
      InventoryRepository_GetWarehouseByCode =
        InventoryCache_GetWarehouseByCode env inner warehouseCache\<rparr>"

end
