(* ===== verification/Inventory_UseCase.thy ===== *)
theory Inventory_UseCase
  imports Inventory_Cache
begin

text \<open>
  The inventory use cases (\<^verbatim>\<open>internal/inventory/usecase\<close>): the stock of a product, reserving and
  releasing units, changing the stock. As in the source, \<open>ReserveStock\<close> and
  \<open>ReleaseReservation\<close> open a transaction, but change the stock level (and the status of the
  reservation) outside it; only the reservation and the movement are written in it.
\<close>

subsection \<open>Requests and responses (usecase.go)\<close>

record WarehouseStock =
  ws_warehouse_id :: string
  ws_quantity :: int
  ws_reserved :: int
  ws_available :: int

record StockResponse =
  sr_product_id :: string
  sr_warehouses :: "WarehouseStock list"

record ReserveStockRequest =
  rq_order_id :: string
  rq_product_id :: string
  rq_warehouse_id :: string
  rq_warehouse_code :: string
  rq_sku :: string
  rq_quantity :: int

record UpdateStockRequest =
  us_product_id :: string
  us_warehouse_id :: string
  us_warehouse_code :: string
  us_sku :: string
  us_quantity :: int

record inventoryUseCase =
  uc_inventoryRepo :: InventoryRepository
  uc_reservationRepo :: ReservationRepository
  uc_movementRepo :: MovementRepository

subsection \<open>GetStock\<close>

definition warehouse_stock :: "Inventory \<Rightarrow> WarehouseStock" where
  "warehouse_stock i = \<lparr>ws_warehouse_id = iv_warehouse_id i, ws_quantity = iv_quantity_on_hand i,
     ws_reserved = iv_quantity_reserved i, ws_available = Available i\<rparr>"

definition GetStock :: "inventoryUseCase \<Rightarrow> string \<Rightarrow> (inv_db, StockResponse) ioe" where
  "GetStock uc productID =
     bindE (InventoryRepository_GetByProductID (uc_inventoryRepo uc) productID) (\<lambda>inventories.
     ok \<lparr>sr_product_id = productID, sr_warehouses = map warehouse_stock inventories\<rparr>)"

subsection \<open>ReserveStock\<close>

text \<open>The warehouse of a request: its id, or the id of the warehouse with its code.\<close>

definition resolve_warehouse :: "inventoryUseCase \<Rightarrow> string \<Rightarrow> string \<Rightarrow> (inv_db, string) ioe" where
  "resolve_warehouse uc warehouseID code =
     (if warehouseID = '''' \<and> code \<noteq> ''''
      then bindE (InventoryRepository_GetWarehouseByCode (uc_inventoryRepo uc) code) (\<lambda>wh. ok (wh_id wh))
      else ok warehouseID)"

definition new_reservation :: "inv_db env \<Rightarrow> ReserveStockRequest \<Rightarrow> string \<Rightarrow> (inv_db, Reservation) io" where
  "new_reservation env req warehouseID = do {
     i \<leftarrow> new_uuid env;
     created \<leftarrow> time_now env;
     updated \<leftarrow> time_now env;
     ret \<lparr>rs_id = i, rs_order_id = rq_order_id req, rs_order_item_id = '''', rs_product_id = rq_product_id req,
          rs_sku = rq_sku req, rs_warehouse_id = warehouseID, rs_quantity = rq_quantity req,
          rs_status = ''reserved'', rs_expires_at = None, rs_created_at = created, rs_updated_at = updated\<rparr>
   }"

definition new_movement ::
  "inv_db env \<Rightarrow> string \<Rightarrow> string \<Rightarrow> string \<Rightarrow> MovementType \<Rightarrow> int \<Rightarrow> string \<Rightarrow> string
   \<Rightarrow> (inv_db, InventoryMovement) io" where
  "new_movement env productID sku warehouseID ty quantity refType refID = do {
     i \<leftarrow> new_uuid env;
     now \<leftarrow> time_now env;
     ret \<lparr>mv_id = i, mv_product_id = productID, mv_sku = sku, mv_warehouse_id = warehouseID,
          mv_movement_type = ty, mv_quantity = quantity, mv_reference_type = refType,
          mv_reference_id = refID, mv_created_at = now\<rparr>
   }"

text \<open>Lines 75 to 124: the quantity is reserved on the database, the rest in the transaction.\<close>

definition reserve_at ::
  "inv_db env \<Rightarrow> inventoryUseCase \<Rightarrow> ReserveStockRequest \<Rightarrow> string \<Rightarrow> int \<Rightarrow> (inv_db, Reservation) ioe" where
  "reserve_at env uc req warehouseID version =
     bindE (wrapE ''failed to begin transaction'' (BeginTxx env)) (\<lambda>tx.
     deferred (Rollback tx) (
       bindE (InventoryRepository_ReserveQuantity (uc_inventoryRepo uc) (rq_product_id req) warehouseID
                (rq_quantity req) version) (\<lambda>_. do {
       rs \<leftarrow> new_reservation env req warehouseID;
       bindE (ReservationRepository_CreateInTx (uc_reservationRepo uc) (Some tx) rs) (\<lambda>_. do {
       mv \<leftarrow> new_movement env (rq_product_id req) (rq_sku req) warehouseID MovementReserve
               (- rq_quantity req) ''order'' (rq_order_id req);
       _ \<leftarrow> MovementRepository_CreateInTx (uc_movementRepo uc) (Some tx) mv;
       bindE (wrapE ''failed to commit transaction'' (Commit env tx)) (\<lambda>_.
       ok rs)})})))"

definition ReserveStock ::
  "inv_db env \<Rightarrow> inventoryUseCase \<Rightarrow> ReserveStockRequest \<Rightarrow> (inv_db, Reservation) ioe" where
  "ReserveStock env uc req =
     (if rq_quantity req \<le> 0 then fail ErrInvalidStockQuantity
      else
        bindE (resolve_warehouse uc (rq_warehouse_id req) (rq_warehouse_code req)) (\<lambda>warehouseID.
        bindE (InventoryRepository_GetByProductAndWarehouse (uc_inventoryRepo uc) (rq_product_id req) warehouseID)
          (\<lambda>i. if Available i < rq_quantity req then fail ErrInsufficientStock
               else reserve_at env uc req warehouseID (iv_version i))))"

subsection \<open>ReleaseReservation\<close>

definition release_reserved ::
  "inv_db env \<Rightarrow> inventoryUseCase \<Rightarrow> string \<Rightarrow> Reservation \<Rightarrow> (inv_db, unit) ioe" where
  "release_reserved env uc reservationID rs =
     bindE (wrapE ''failed to begin transaction'' (BeginTxx env)) (\<lambda>tx.
     deferred (Rollback tx) (
       bindE (wrapE ''failed to update reservation status''
                (ReservationRepository_UpdateStatus (uc_reservationRepo uc) reservationID ''released'')) (\<lambda>_.
       bindE (wrapE ''failed to release quantity''
                (InventoryRepository_ReleaseQuantity (uc_inventoryRepo uc) (rs_product_id rs) (rs_warehouse_id rs)
                   (rs_quantity rs))) (\<lambda>_. do {
       mv \<leftarrow> new_movement env (rs_product_id rs) '''' (rs_warehouse_id rs) MovementRelease
               (rs_quantity rs) ''order'' (rs_order_id rs);
       _ \<leftarrow> MovementRepository_CreateInTx (uc_movementRepo uc) (Some tx) mv;
       wrapE ''failed to commit transaction'' (Commit env tx)}))))"

definition ReleaseReservation :: "inv_db env \<Rightarrow> inventoryUseCase \<Rightarrow> string \<Rightarrow> (inv_db, unit) ioe" where
  "ReleaseReservation env uc reservationID =
     bindE (ReservationRepository_GetByID (uc_reservationRepo uc) reservationID) (\<lambda>rs.
     if rs_status rs \<noteq> ''reserved'' then ok ()
     else release_reserved env uc reservationID rs)"

subsection \<open>UpdateStock\<close>

text \<open>Lines 186 to 211: the first stock of a product in a warehouse.\<close>

definition create_stock ::
  "inv_db env \<Rightarrow> inventoryUseCase \<Rightarrow> UpdateStockRequest \<Rightarrow> string \<Rightarrow> (inv_db, unit) ioe" where
  "create_stock env uc req warehouseID = do {
     i \<leftarrow> new_uuid env;
     now \<leftarrow> time_now env;
     bindE (InventoryRepository_Create (uc_inventoryRepo uc)
              \<lparr>iv_id = i, iv_product_id = us_product_id req, iv_sku = us_sku req, iv_warehouse_id = warehouseID,
               iv_quantity_on_hand = us_quantity req, iv_quantity_reserved = 0, iv_version = 0,
               iv_updated_at = now\<rparr>) (\<lambda>_. do {
     mv \<leftarrow> new_movement env (us_product_id req) (us_sku req) warehouseID MovementIn (us_quantity req)
             ''manual'' '''';
     _ \<leftarrow> MovementRepository_Create (uc_movementRepo uc) mv;
     ok ()})}"

definition change_stock ::
  "inv_db env \<Rightarrow> inventoryUseCase \<Rightarrow> UpdateStockRequest \<Rightarrow> string \<Rightarrow> int \<Rightarrow> (inv_db, unit) ioe" where
  "change_stock env uc req warehouseID version =
     bindE (InventoryRepository_UpdateStock (uc_inventoryRepo uc) (us_product_id req) warehouseID
              (us_quantity req) version) (\<lambda>_. do {
     mv \<leftarrow> new_movement env (us_product_id req) (us_sku req) warehouseID
             (if us_quantity req < 0 then MovementOut else MovementIn) (us_quantity req) ''manual'' '''';
     _ \<leftarrow> MovementRepository_Create (uc_movementRepo uc) mv;
     ok ()})"

definition UpdateStock :: "inv_db env \<Rightarrow> inventoryUseCase \<Rightarrow> UpdateStockRequest \<Rightarrow> (inv_db, unit) ioe" where
  "UpdateStock env uc req =
     bindE (resolve_warehouse uc (us_warehouse_id req) (us_warehouse_code req)) (\<lambda>warehouseID. do {
       r \<leftarrow> InventoryRepository_GetByProductAndWarehouse (uc_inventoryRepo uc) (us_product_id req) warehouseID;
       case r of
         Inl e \<Rightarrow> if err_text e = ''inventory not found'' then create_stock env uc req warehouseID else fail e
       | Inr i \<Rightarrow> change_stock env uc req warehouseID (iv_version i)
     })"

subsection \<open>The deployed use case (cmd/inventory-service/main.go)\<close>

definition stock_cache :: Cache where
  "stock_cache = \<lparr>c_prefix = ''inventory'', c_ttl = 30 * 1000000000\<rparr>"

definition warehouse_cache :: Cache where
  "warehouse_cache = \<lparr>c_prefix = ''inventory'', c_ttl = 10 * 60 * 1000000000\<rparr>"

definition inventoryUC :: "inv_db env \<Rightarrow> inventoryUseCase" where
  "inventoryUC env =
     \<lparr>uc_inventoryRepo = NewInventoryCache env (NewInventoryRepository env) stock_cache warehouse_cache,
      uc_reservationRepo = NewReservationRepository env,
      uc_movementRepo = NewMovementRepository env\<rparr>"

definition plain_inventoryUC :: "inv_db env \<Rightarrow> inventoryUseCase" where
  "plain_inventoryUC env =
     \<lparr>uc_inventoryRepo = NewInventoryRepository env, uc_reservationRepo = NewReservationRepository env,
      uc_movementRepo = NewMovementRepository env\<rparr>"

end
