(* ===== verification/Inventory_Service.thy ===== *)
theory Inventory_Service
  imports Inventory_UseCase Kafka_Kit
begin

text \<open>
  What the inventory use cases guarantee in every environment: the integrity of the tables
  and that no more units are reserved than there are. The contract between the use cases and
  the repositories is the locale \<open>stock_store\<close>; it holds for the PostgreSQL repositories and for
  the cached ones the service is deployed with.
\<close>

subsection \<open>Requests to the service\<close>

datatype inv_call =
    DoGetStock string
  | DoReserve ReserveStockRequest
  | DoRelease string
  | DoUpdate UpdateStockRequest

fun serve_inv :: "inv_db env \<Rightarrow> inventoryUseCase \<Rightarrow> inv_call \<Rightarrow> (inv_db, unit) io" where
  "serve_inv env uc (DoGetStock p) = do { _ \<leftarrow> GetStock uc p; ret () }"
| "serve_inv env uc (DoReserve req) = do { _ \<leftarrow> ReserveStock env uc req; ret () }"
| "serve_inv env uc (DoRelease rid) = do { _ \<leftarrow> ReleaseReservation env uc rid; ret () }"
| "serve_inv env uc (DoUpdate req) = do { _ \<leftarrow> UpdateStock env uc req; ret () }"

subsection \<open>The contract of the repositories\<close>

text \<open>
  For every invariant \<open>I\<close> that the other clients keep: the reads keep it, and each write keeps
  it when the statement behind it does.
\<close>

locale stock_store =
  fixes env :: "inv_db env" and uc :: inventoryUseCase
  assumes get_one: "rely (preserves I) env \<Longrightarrow>
      safe (preserves I) (InventoryRepository_GetByProductAndWarehouse (uc_inventoryRepo uc) p wh)"
    and get_all: "rely (preserves I) env \<Longrightarrow>
      safe (preserves I) (InventoryRepository_GetByProductID (uc_inventoryRepo uc) p)"
    and get_warehouse: "rely (preserves I) env \<Longrightarrow>
      safe (preserves I) (InventoryRepository_GetWarehouseByCode (uc_inventoryRepo uc) code)"
    and create: "rely (preserves I) env \<Longrightarrow> stmt_in (preserves I) (insert_inventory (e_pg env) i) \<Longrightarrow>
      safe (preserves I) (InventoryRepository_Create (uc_inventoryRepo uc) i)"
    and update: "rely (preserves I) env \<Longrightarrow>
      (\<And>now. stmt_in (preserves I) (update_stock (e_pg env) p wh q v now)) \<Longrightarrow>
      safe (preserves I) (InventoryRepository_UpdateStock (uc_inventoryRepo uc) p wh q v)"
    and reserve: "rely (preserves I) env \<Longrightarrow>
      (\<And>now. stmt_in (preserves I) (reserve_quantity (e_pg env) p wh q v now)) \<Longrightarrow>
      safe (preserves I) (InventoryRepository_ReserveQuantity (uc_inventoryRepo uc) p wh q v)"
    and release: "rely (preserves I) env \<Longrightarrow>
      (\<And>now. stmt_in (preserves I) (release_quantity (e_pg env) p wh q now)) \<Longrightarrow>
      safe (preserves I) (InventoryRepository_ReleaseQuantity (uc_inventoryRepo uc) p wh q)"
    and reservations: "uc_reservationRepo uc = NewReservationRepository env"
    and movements: "uc_movementRepo uc = NewMovementRepository env"
begin

lemmas reservation_repo = reservations NewReservationRepository_def reservationRepository_CreateInTx_def
  reservationRepository_GetByID_def reservationRepository_UpdateStatus_def

lemmas movement_repo = movements NewMovementRepository_def movementRepository_CreateInTx_def
  movementRepository_Create_def

end

interpretation invariants: db_guarantee "preserves I" for I :: "'db \<Rightarrow> bool"
  by (rule db_guarantee_preserves)

lemmas guarantee_intros = invariants.safe_bind invariants.safe_bindE invariants.safe_ret invariants.safe_wrapE
  invariants.safe_deferred safe_if safe_case_sum safe_case_option invariants.safe_GetContext
  invariants.safe_SelectContext invariants.safe_exec_db invariants.safe_execute invariants.safe_BeginTxx
  invariants.safe_Rollback invariants.safe_Commit invariants.safe_time_now invariants.safe_new_uuid
  invariants.safe_Cache_Get invariants.safe_Cache_Set invariants.safe_Cache_Delete

lemma plain_inventory_safe:
  assumes "rely (preserves I) env"
  shows "safe (preserves I) (inventoryRepository_GetByProductAndWarehouse env p wh)"
    and "safe (preserves I) (inventoryRepository_GetByProductID env p)"
    and "safe (preserves I) (inventoryRepository_GetWarehouseByCode env code)"
    and "stmt_in (preserves I) (insert_inventory (e_pg env) i) \<Longrightarrow>
      safe (preserves I) (inventoryRepository_Create env i)"
    and "(\<And>now. stmt_in (preserves I) (update_stock (e_pg env) p wh q v now)) \<Longrightarrow>
      safe (preserves I) (inventoryRepository_UpdateStock env p wh q v)"
    and "(\<And>now. stmt_in (preserves I) (reserve_quantity (e_pg env) p wh q v now)) \<Longrightarrow>
      safe (preserves I) (inventoryRepository_ReserveQuantity env p wh q v)"
    and "(\<And>now. stmt_in (preserves I) (release_quantity (e_pg env) p wh q now)) \<Longrightarrow>
      safe (preserves I) (inventoryRepository_ReleaseQuantity env p wh q)"
  using assms
  unfolding inventoryRepository_GetByProductAndWarehouse_def inventoryRepository_GetByProductID_def
    inventoryRepository_GetWarehouseByCode_def inventoryRepository_Create_def inventoryRepository_CreateInTx_def
    inventoryRepository_UpdateStock_def inventoryRepository_ReserveQuantity_def inventoryRepository_ReleaseQuantity_def
  by (auto intro!: guarantee_intros)

interpretation plain_stock: stock_store env "plain_inventoryUC env" for env
  by unfold_locales
    (auto simp: plain_inventoryUC_def NewInventoryRepository_def intro!: plain_inventory_safe)

interpretation cached_stock: stock_store env "inventoryUC env" for env
  by unfold_locales
    (auto simp: inventoryUC_def NewInventoryCache_def NewInventoryRepository_def read_through_def invalidating_def
      InventoryCache_GetByProductAndWarehouse_def InventoryCache_GetByProductID_def
      InventoryCache_GetWarehouseByCode_def
      intro!: guarantee_intros plain_inventory_safe)

subsection \<open>Invariants of the service from invariants of its statements\<close>

text \<open>
  The statements the service executes keep \<open>I\<close>: quantities are reserved and released in
  positive numbers, the quantities of stock changes satisfy \<open>P\<close>, and \<open>I\<close> implies that stored
  reservations have positive quantities.
\<close>

definition inv_stmts_in :: "pg_types \<Rightarrow> (int \<Rightarrow> bool) \<Rightarrow> (inv_db \<Rightarrow> bool) \<Rightarrow> bool" where
  "inv_stmts_in pg P I \<longleftrightarrow>
     (\<forall>i. P (iv_quantity_on_hand i) \<longrightarrow> iv_quantity_reserved i = 0 \<longrightarrow> stmt_in (preserves I) (insert_inventory pg i)) \<and>
     (\<forall>p wh q v now. P q \<longrightarrow> stmt_in (preserves I) (update_stock pg p wh q v now)) \<and>
     (\<forall>p wh q v now. 0 < q \<longrightarrow> stmt_in (preserves I) (reserve_quantity pg p wh q v now)) \<and>
     (\<forall>p wh q now. 0 < q \<longrightarrow> stmt_in (preserves I) (release_quantity pg p wh q now)) \<and>
     (\<forall>rs. 0 < rs_quantity rs \<longrightarrow> stmt_in (preserves I) (insert_reservation pg rs)) \<and>
     (\<forall>rid s now. stmt_in (preserves I) (update_reservation_status pg rid s now)) \<and>
     (\<forall>mv. stmt_in (preserves I) (insert_movement pg mv)) \<and>
     (\<forall>d. I d \<longrightarrow> list_all (\<lambda>r. 0 < rr_quantity r) (t_reservations d))"

lemma inv_stmts_inD:
  assumes "inv_stmts_in pg P I"
  shows "P (iv_quantity_on_hand i) \<Longrightarrow> iv_quantity_reserved i = 0 \<Longrightarrow> stmt_in (preserves I) (insert_inventory pg i)"
    and "P q \<Longrightarrow> stmt_in (preserves I) (update_stock pg p wh q v now)"
    and "0 < q \<Longrightarrow> stmt_in (preserves I) (reserve_quantity pg p wh q v now)"
    and "0 < q \<Longrightarrow> stmt_in (preserves I) (release_quantity pg p wh q now)"
    and "0 < rs_quantity rs \<Longrightarrow> stmt_in (preserves I) (insert_reservation pg rs)"
    and "stmt_in (preserves I) (update_reservation_status pg rid s now)"
    and "stmt_in (preserves I) (insert_movement pg mv)"
    and "I d \<Longrightarrow> list_all (\<lambda>r. 0 < rr_quantity r) (t_reservations d)"
  using assms by (simp_all add: inv_stmts_in_def)

fun call_ok :: "(int \<Rightarrow> bool) \<Rightarrow> inv_call \<Rightarrow> bool" where
  "call_ok P (DoUpdate req) = P (us_quantity req)"
| "call_ok P _ = True"

context stock_store
begin

lemma safe_resolve: "rely (preserves I) env \<Longrightarrow> safe (preserves I) (resolve_warehouse uc wid code)"
  unfolding resolve_warehouse_def by (auto intro!: guarantee_intros get_warehouse)

lemma safe_new_movement: "safe (preserves I) (new_movement env p s wh ty q rt ri)"
  unfolding new_movement_def by (intro guarantee_intros)

lemma safe_reserve_at:
  assumes "rely (preserves I) env" and st: "inv_stmts_in (e_pg env) P I" and q: "0 < rq_quantity req"
  shows "safe (preserves I) (reserve_at env uc req wid v)"
proof -
  have rs: "safe (preserves I) (State_Monad.bind (new_reservation env req wid) k)"
    if "\<And>rs. rs_quantity rs = rq_quantity req \<Longrightarrow> safe (preserves I) (k rs)" for k :: "Reservation \<Rightarrow> (inv_db, 'b) io"
    unfolding new_reservation_def using that by (auto intro!: guarantee_intros)
  show ?thesis
    unfolding reserve_at_def
    by (intro guarantee_intros assms(1) reserve inv_stmts_inD(3) [OF st q] rs safe_new_movement)
      (auto simp: reservation_repo movement_repo q intro!: guarantee_intros assms(1) inv_stmts_inD [OF st] safe_new_movement)
qed

lemma triple_ReserveStock:
  assumes "rely (preserves I) env" and "inv_stmts_in (e_pg env) P I"
  shows "triple (held I) (ReserveStock env uc req) (\<lambda>_. held I)"
  unfolding ReserveStock_def
  by (cases "rq_quantity req \<le> 0")
    (auto intro!: triple_safe guarantee_intros safe_resolve safe_reserve_at get_one assms simp: triple_ret)

lemma safe_release_reserved:
  assumes "rely (preserves I) env" and st: "inv_stmts_in (e_pg env) P I" and "0 < rs_quantity rs"
  shows "safe (preserves I) (release_reserved env uc rid rs)"
  unfolding release_reserved_def
  by (auto simp: reservation_repo movement_repo
      intro!: guarantee_intros release inv_stmts_inD [OF st] safe_new_movement assms(1,3))

lemma triple_ReleaseReservation:
  assumes rely: "rely (preserves I) env" and st: "inv_stmts_in (e_pg env) P I"
  shows "triple (held I) (ReleaseReservation env uc rid) (\<lambda>_. held I)"
proof -
  have get: "triple (held I) (ReservationRepository_GetByID (uc_reservationRepo uc) rid)
      (\<lambda>r w. case r of Inl _ \<Rightarrow> held I w | Inr rs \<Rightarrow> held I w \<and> 0 < rs_quantity rs)"
  proof -
    have "triple (held I) (GetContext env (select_reservations (e_pg env) rr_id rid))
        (\<lambda>r w. held I w \<and> (\<forall>x. r = Inr x \<longrightarrow> 0 < rr_quantity x))"
    proof (rule triple_query [OF rely])
      fix d x assume "I d" and row: "first_row (select_reservations (e_pg env) rr_id rid d) = Inr x"
      then have "list_all (\<lambda>r. 0 < rr_quantity r) (t_reservations d)" using inv_stmts_inD(8) [OF st] by blast
      moreover from row have "x \<in> set (t_reservations d)"
        by (auto simp: select_reservations_def split: option.splits elim!: first_row.elims dest!: filter_eq_ConsD)
      ultimately show "0 < rr_quantity x" by (simp add: list_all_iff)
    qed
    moreover have "ReservationRepository_GetByID (uc_reservationRepo uc) rid =
        State_Monad.bind (GetContext env (select_reservations (e_pg env) rr_id rid))
          (\<lambda>r. ret (map_sum id rowToReservation (not_found_as ErrReservationNotFound r)))"
      by (simp add: reservation_repo)
    moreover have "0 < rs_quantity x" if "map_sum id rowToReservation (not_found_as ErrReservationNotFound r) = Inr x"
      "\<forall>x. r = Inr x \<longrightarrow> 0 < rr_quantity x" for r x
      using that by (cases r) (auto simp: rowToReservation_def)
    ultimately show ?thesis
      by (auto intro!: triple_bind triple_ret split: sum.splits)
  qed
  show ?thesis
    unfolding ReleaseReservation_def
  proof (rule triple_bindE [OF get])
    fix rs
    show "triple (\<lambda>w. held I w \<and> 0 < rs_quantity rs)
        (if rs_status rs \<noteq> ''reserved'' then ok () else release_reserved env uc rid rs) (\<lambda>_. held I)"
    proof (cases "0 < rs_quantity rs")
      case True
      have "safe (preserves I) (if rs_status rs \<noteq> ''reserved'' then ok () else release_reserved env uc rid rs)"
        by (intro guarantee_intros safe_release_reserved [OF rely st True])
      from triple_safe [OF this] show ?thesis by (rule triple_conseq) auto
    qed (simp add: triple_def)
  qed
qed

lemma triple_UpdateStock:
  assumes "rely (preserves I) env" and st: "inv_stmts_in (e_pg env) P I" and "P (us_quantity req)"
  shows "triple (held I) (UpdateStock env uc req) (\<lambda>_. held I)"
  unfolding UpdateStock_def create_stock_def change_stock_def
  by (rule triple_safe)
    (auto simp: movement_repo intro!: guarantee_intros safe_resolve get_one create update safe_new_movement
      inv_stmts_inD [OF st] assms(1,3))

lemma triple_GetStock: "rely (preserves I) env \<Longrightarrow> triple (held I) (GetStock uc p) (\<lambda>_. held I)"
  unfolding GetStock_def by (intro triple_safe guarantee_intros get_all)

lemma triple_serve_inv:
  assumes "rely (preserves I) env" and "inv_stmts_in (e_pg env) P I" and "call_ok P call"
  shows "triple (held I) (serve_inv env uc call) (\<lambda>_. held I)"
  using assms
  by (cases call)
    (auto intro!: triple_bind [where R = "\<lambda>_. held I"] triple_ret triple_GetStock triple_ReserveStock
      triple_ReleaseReservation triple_UpdateStock)

lemma serve_inv_all:
  assumes "rely (preserves I) env" and "inv_stmts_in (e_pg env) P I" and "list_all (call_ok P) calls"
    and "held I w"
  shows "I (w_db (snd (run_state (for_each (serve_inv env uc) calls) w)))"
proof -
  have "triple (held I) (for_each (serve_inv env uc) calls) (\<lambda>_. held I)"
    using assms by (intro triple_loop triple_serve_inv) (auto simp: list_all_iff)
  with assms(4) show ?thesis by (fastforce simp: triple_def held_def)
qed

end

end
