(* ===== verification/Inventory_Props.thy ===== *)
theory Inventory_Props
  imports Inventory_Service
begin

text \<open>
  Properties of the inventory service in every environment: the integrity of its tables, that
  it never oversells, and the optimistic lock of a reservation.
\<close>

subsection \<open>Invariants of the tables\<close>

text \<open>
  The constraints of the schema, and that reserved quantities are not negative and reservations
  are of at least one unit.
\<close>

definition inv_wf :: "inv_db \<Rightarrow> bool" where
  "inv_wf d \<longleftrightarrow>
     distinct (map iv_id (t_inventory d)) \<and>
     distinct (map (\<lambda>i. (iv_product_id i, iv_warehouse_id i)) (t_inventory d)) \<and>
     list_all (\<lambda>i. stock_ok i \<and> 0 \<le> iv_quantity_reserved i) (t_inventory d) \<and>
     iv_warehouse_id ` set (t_inventory d) \<subseteq> wh_id ` set (t_warehouses d) \<and>
     distinct (map rr_id (t_reservations d)) \<and> list_all (\<lambda>r. 0 < rr_quantity r) (t_reservations d) \<and>
     distinct (map mr_id (t_movements d))"

text \<open>No stock level has more units reserved than it has.\<close>

definition no_oversell :: "inv_db \<Rightarrow> bool" where
  "no_oversell d \<longleftrightarrow> list_all (\<lambda>i. iv_quantity_reserved i \<le> iv_quantity_on_hand i) (t_inventory d)"

text \<open>An \<open>UPDATE\<close> that keeps the identity of the rows and a property \<open>K\<close> of each.\<close>

lemma update_at_cases:
  assumes "update_at pg p wh q cond upd d = Inr (d', n)"
  obtains p' wh' where "pg_uuid pg p = Some p'" "pg_uuid pg wh = Some wh'" "int4_ok q"
    "update_rows (\<lambda>i. at_place p' wh' i \<and> cond i) upd d = Inr (d', n)"
  using assms by (auto simp: update_at_def split: option.splits if_splits)

lemma update_rows_eq:
  "update_rows hit upd d = Inr (d', n) \<Longrightarrow>
     d' = d\<lparr>t_inventory := map (\<lambda>i. if hit i then upd i else i) (t_inventory d)\<rparr> \<and>
     n = length (filter hit (t_inventory d)) \<and> (\<forall>i \<in> set (t_inventory d). hit i \<longrightarrow> stock_ok (upd i))"
  by (auto simp: update_rows_def list_all_iff split: if_splits)

lemma update_rows_elem:
  assumes "update_rows hit upd d = Inr (d', n)" and "j' \<in> set (t_inventory d')"
  shows "\<exists>j \<in> set (t_inventory d). j' = (if hit j then upd j else j)"
  using assms by (auto simp: update_rows_def split: if_splits)

lemma update_rows_wf:
  assumes "update_rows hit upd d = Inr (d', n)"
    and "\<And>i. iv_id (upd i) = iv_id i" "\<And>i. iv_product_id (upd i) = iv_product_id i"
      "\<And>i. iv_warehouse_id (upd i) = iv_warehouse_id i"
    and "\<And>i. hit i \<Longrightarrow> 0 \<le> iv_quantity_reserved i \<Longrightarrow> 0 \<le> iv_quantity_reserved (upd i)"
    and "inv_wf d"
  shows "inv_wf d'"
proof -
  let ?f = "\<lambda>i. if hit i then upd i else i"
  note d' = update_rows_eq [OF assms(1)]
  have f: "iv_id (?f i) = iv_id i" "iv_product_id (?f i) = iv_product_id i" "iv_warehouse_id (?f i) = iv_warehouse_id i" for i
    using assms(2-4) by simp_all
  have "list_all (\<lambda>i. stock_ok i \<and> 0 \<le> iv_quantity_reserved i) (map ?f (t_inventory d))"
    using d' assms(5,6) by (auto simp: inv_wf_def list_all_iff)
  moreover have eqs: "map iv_id (map ?f (t_inventory d)) = map iv_id (t_inventory d)"
    "map (\<lambda>i. (iv_product_id i, iv_warehouse_id i)) (map ?f (t_inventory d)) =
       map (\<lambda>i. (iv_product_id i, iv_warehouse_id i)) (t_inventory d)"
    "iv_warehouse_id ` set (map ?f (t_inventory d)) = iv_warehouse_id ` set (t_inventory d)"
    by (simp_all only: set_map image_image list.map_comp comp_def f)
  moreover have sel: "t_inventory d' = map ?f (t_inventory d)" "t_warehouses d' = t_warehouses d"
    "t_reservations d' = t_reservations d" "t_movements d' = t_movements d"
    using d' by simp_all
  ultimately show ?thesis
    using assms(6) unfolding inv_wf_def sel by (simp only: eqs)
qed

lemma update_rows_oversell:
  assumes "update_rows hit upd d = Inr (d', n)"
    and "\<And>i. hit i \<Longrightarrow> iv_quantity_reserved i \<le> iv_quantity_on_hand i \<Longrightarrow>
      iv_quantity_reserved (upd i) \<le> iv_quantity_on_hand (upd i)"
    and "no_oversell d"
  shows "no_oversell d'"
  using update_rows_eq [OF assms(1)] assms(2,3) by (auto simp: no_oversell_def list_all_iff)

lemma stock_stmts_wf:
  shows "stmt_in (preserves inv_wf) (update_stock pg p wh q v now)"
    and "0 < q \<Longrightarrow> stmt_in (preserves inv_wf) (reserve_quantity pg p wh q v now)"
    and "0 < q \<Longrightarrow> stmt_in (preserves inv_wf) (release_quantity pg p wh q now)"
  unfolding update_stock_def reserve_quantity_def release_quantity_def
  by (rule stmt_inI, auto simp: preserves_def elim!: update_at_cases update_rows_wf)+

lemma stock_stmts_oversell:
  shows "0 \<le> q \<Longrightarrow> stmt_in (preserves no_oversell) (update_stock pg p wh q v now)"
    and "0 < q \<Longrightarrow> stmt_in (preserves no_oversell) (reserve_quantity pg p wh q v now)"
    and "0 < q \<Longrightarrow> stmt_in (preserves no_oversell) (release_quantity pg p wh q now)"
  unfolding update_stock_def reserve_quantity_def release_quantity_def
  by (rule stmt_inI, auto simp: preserves_def elim!: update_at_cases update_rows_oversell)+

lemma inventory_row_keeps:
  "inventory_row pg i = Some r \<Longrightarrow> iv_quantity_on_hand r = iv_quantity_on_hand i \<and>
     iv_quantity_reserved r = iv_quantity_reserved i"
  by (auto simp: inventory_row_def bind_eq_Some_conv)

lemma reservation_row_keeps: "reservation_row pg rs = Some r \<Longrightarrow> rr_quantity r = rs_quantity rs"
  by (auto simp: reservation_row_def bind_eq_Some_conv int4_def split: if_splits)

lemma insert_inventory_cases:
  assumes "insert_inventory pg i d = Inr (d', x)"
  obtains r where "inventory_row pg i = Some r" "stock_ok r" "iv_id r \<notin> iv_id ` set (t_inventory d)"
    "(iv_product_id r, iv_warehouse_id r) \<notin> (\<lambda>i. (iv_product_id i, iv_warehouse_id i)) ` set (t_inventory d)"
    "iv_warehouse_id r \<in> wh_id ` set (t_warehouses d)" "d' = d\<lparr>t_inventory := t_inventory d @ [r]\<rparr>"
proof -
  from assms obtain r where r: "inventory_row pg i = Some r" "stock_ok r"
      "\<not> list_ex (\<lambda>q. iv_id q = iv_id r) (t_inventory d)"
      "\<not> list_ex (at_place (iv_product_id r) (iv_warehouse_id r)) (t_inventory d)"
      "list_ex (\<lambda>wh. wh_id wh = iv_warehouse_id r) (t_warehouses d)"
      "d' = d\<lparr>t_inventory := t_inventory d @ [r]\<rparr>"
    by (auto simp: insert_inventory_def split: option.splits if_splits)
  moreover have "(iv_product_id r, iv_warehouse_id r) \<notin> (\<lambda>i. (iv_product_id i, iv_warehouse_id i)) ` set (t_inventory d)"
    using r(4) by (force simp: list_ex_iff at_place_def)
  ultimately show thesis using that by (simp add: list_ex_key)
qed

lemma insert_reservation_cases:
  assumes "insert_reservation pg rs d = Inr (d', x)"
  obtains r where "reservation_row pg rs = Some r" "rr_id r \<notin> rr_id ` set (t_reservations d)"
    "d' = d\<lparr>t_reservations := t_reservations d @ [r]\<rparr>"
  using assms by (auto simp: insert_reservation_def list_ex_key split: option.splits if_splits)

lemma insert_movement_cases:
  assumes "insert_movement pg mv d = Inr (d', x)"
  obtains r where "movement_row pg mv = Some r" "mr_id r \<notin> mr_id ` set (t_movements d)"
    "d' = d\<lparr>t_movements := t_movements d @ [r]\<rparr>"
  using assms by (auto simp: insert_movement_def list_ex_key split: option.splits if_splits)

lemma other_stmts_wf:
  shows "iv_quantity_reserved i = 0 \<Longrightarrow> stmt_in (preserves inv_wf) (insert_inventory pg i)"
    and "0 < rs_quantity rs \<Longrightarrow> stmt_in (preserves inv_wf) (insert_reservation pg rs)"
    and "stmt_in (preserves inv_wf) (update_reservation_status pg rid s now)"
    and "stmt_in (preserves inv_wf) (insert_movement pg mv)"
proof -
  show "stmt_in (preserves inv_wf) (insert_inventory pg i)" if "iv_quantity_reserved i = 0"
    using that by (intro stmt_inI, elim insert_inventory_cases)
      (auto simp: preserves_def inv_wf_def dest: inventory_row_keeps)
  show "stmt_in (preserves inv_wf) (insert_reservation pg rs)" if "0 < rs_quantity rs"
    using that by (intro stmt_inI, elim insert_reservation_cases)
      (simp add: preserves_def inv_wf_def reservation_row_keeps)
  show "stmt_in (preserves inv_wf) (update_reservation_status pg rid s now)"
    by (intro stmt_inI) (auto simp: update_reservation_status_def preserves_def inv_wf_def list_all_iff
        image_subset_iff comp_def if_distrib cong: if_cong split: option.splits)
  show "stmt_in (preserves inv_wf) (insert_movement pg mv)"
    by (intro stmt_inI, elim insert_movement_cases) (simp add: preserves_def inv_wf_def)
qed

lemma other_stmts_oversell:
  shows "0 \<le> iv_quantity_on_hand i \<Longrightarrow> iv_quantity_reserved i = 0 \<Longrightarrow>
      stmt_in (preserves no_oversell) (insert_inventory pg i)"
    and "stmt_in (preserves no_oversell) (insert_reservation pg rs)"
    and "stmt_in (preserves no_oversell) (update_reservation_status pg rid s now)"
    and "stmt_in (preserves no_oversell) (insert_movement pg mv)"
proof -
  show "stmt_in (preserves no_oversell) (insert_inventory pg i)"
    if "0 \<le> iv_quantity_on_hand i" "iv_quantity_reserved i = 0"
    using that by (intro stmt_inI, elim insert_inventory_cases)
      (auto simp: preserves_def no_oversell_def dest: inventory_row_keeps)
  show "stmt_in (preserves no_oversell) (insert_reservation pg rs)"
    "stmt_in (preserves no_oversell) (update_reservation_status pg rid s now)"
    "stmt_in (preserves no_oversell) (insert_movement pg mv)"
    by (rule stmt_inI, auto simp: insert_reservation_def update_reservation_status_def insert_movement_def
        preserves_def no_oversell_def split: option.splits if_splits)+
qed

lemma call_ok_any [simp]: "call_ok (\<lambda>_. True) c"
  by (cases c) auto

lemma stmt_in_conj:
  "stmt_in (preserves I) st \<Longrightarrow> stmt_in (preserves J) st \<Longrightarrow> stmt_in (preserves (\<lambda>d. I d \<and> J d)) st"
  by (auto simp: stmt_in_def preserves_def)

lemma inv_stmts_wf: "inv_stmts_in pg (\<lambda>_. True) inv_wf"
  unfolding inv_stmts_in_def by (simp add: stock_stmts_wf other_stmts_wf) (simp add: inv_wf_def)

definition stock_sound :: "inv_db \<Rightarrow> bool" where
  "stock_sound d \<longleftrightarrow> inv_wf d \<and> no_oversell d"

lemma inv_stmts_sound: "inv_stmts_in pg (\<lambda>q. 0 \<le> q) stock_sound"
  unfolding inv_stmts_in_def stock_sound_def [abs_def]
  by (simp add: stmt_in_conj stock_stmts_wf other_stmts_wf stock_stmts_oversell other_stmts_oversell)
    (simp add: inv_wf_def)

subsection \<open>Integrity and no overselling\<close>

text \<open>
  C14: whatever calls the inventory service serves, in whatever environment whose other clients
  keep the tables sound, the tables keep their integrity: one stock level per product and
  warehouse, in an existing warehouse, with quantities in range and reserved quantities that
  are not negative; reservations of at least one unit; unique ids.
\<close>

theorem inventory_integrity:
  assumes "rely (preserves inv_wf) env" and "w_txs w = (\<lambda>_. None)" and "inv_wf (w_db w)"
  shows "inv_wf (w_db (snd (run_state (for_each (serve_inv env (inventoryUC env)) calls) w)))"
  using assms
  by (intro cached_stock.serve_inv_all [OF _ inv_stmts_wf]) (auto simp: held_def list_all_iff)

text \<open>
  C2: the service never oversells. Whatever calls it serves, as long as no stock update takes
  units away, in whatever environment whose other clients do the same, every stock level keeps
  its reserved quantity between 0 and the quantity on hand, however reservations of other
  clients interleave with its own and whatever the caches return.
\<close>

theorem inventory_never_oversold:
  assumes "rely (preserves stock_sound) env" and "w_txs w = (\<lambda>_. None)" and "stock_sound (w_db w)"
    and "list_all (call_ok (\<lambda>q. 0 \<le> q)) calls"
  shows "stock_sound (w_db (snd (run_state (for_each (serve_inv env (inventoryUC env)) calls) w)))"
  using assms by (intro cached_stock.serve_inv_all [OF _ inv_stmts_sound]) (auto simp: held_def)

definition demo_stock :: Inventory where
  "demo_stock = \<lparr>iv_id = ''s1'', iv_product_id = ''p1'', iv_sku = ''sku'', iv_warehouse_id = ''w1'',
     iv_quantity_on_hand = 10, iv_quantity_reserved = 3, iv_version = 7, iv_updated_at = 0\<rparr>"

definition demo_reservation :: reservationRow where
  "demo_reservation = \<lparr>rr_id = ''r1'', rr_order_id = ''o1'', rr_order_item_id = None, rr_product_id = ''p1'',
     rr_sku = ''sku'', rr_warehouse_id = ''w1'', rr_quantity = 3, rr_status = ''reserved'', rr_expires_at = None,
     rr_created_at = 0, rr_updated_at = 0\<rparr>"

definition demo_inventory :: inv_db where
  "demo_inventory = \<lparr>t_warehouses = [\<lparr>wh_id = ''w1'', wh_code = ''WH-001'', wh_name = ''Main Warehouse'',
       wh_status = ''active'', wh_created_at = 0\<rparr>],
     t_inventory = [demo_stock], t_reservations = [demo_reservation], t_movements = [], s_item_required = False\<rparr>"

definition demo_reserve :: ReserveStockRequest where
  "demo_reserve = \<lparr>rq_order_id = ''o2'', rq_product_id = ''p1'', rq_warehouse_id = ''w1'', rq_warehouse_code = '''',
     rq_sku = ''sku'', rq_quantity = 5\<rparr>"

lemma demo_sound: "stock_sound demo_inventory" "inv_wf demo_inventory"
  by (simp_all add: stock_sound_def inv_wf_def no_oversell_def demo_inventory_def demo_stock_def demo_reservation_def
      stock_ok_def int4_ok_def int64_ok_def)

theorem inventory_integrity_witness:
  "inv_wf (w_db (snd (run_state (for_each (serve_inv ideal_env (inventoryUC ideal_env))
     [DoReserve demo_reserve, DoRelease ''r1'']) (idle demo_inventory))))"
  by (rule inventory_integrity) (simp_all add: rely_calm db_guarantee_preserves demo_sound)

theorem inventory_never_oversold_witness:
  "stock_sound (w_db (snd (run_state (for_each (serve_inv ideal_env (inventoryUC ideal_env))
     [DoReserve demo_reserve, DoReserve demo_reserve, DoRelease ''r1'']) (idle demo_inventory))))"
  by (rule inventory_never_oversold) (simp_all add: rely_calm db_guarantee_preserves demo_sound)

subsection \<open>The optimistic lock\<close>

text \<open>Every stock level at this place has a version above \<open>v\<close>.\<close>

definition version_past :: "pg_types \<Rightarrow> string \<Rightarrow> string \<Rightarrow> int \<Rightarrow> inv_db \<Rightarrow> bool" where
  "version_past pg p wh v d \<longleftrightarrow>
     (\<forall>p' wh' i. pg_uuid pg p = Some p' \<longrightarrow> pg_uuid pg wh = Some wh' \<longrightarrow> i \<in> set (t_inventory d) \<longrightarrow>
        at_place p' wh' i \<longrightarrow> v < iv_version i)"

lemma reserve_quantity_past:
  assumes "reserve_quantity pg p wh q v now d = Inr (d', n)" and "n \<noteq> 0" and "inv_wf d"
  shows "version_past pg p wh v d'"
proof -
  from assms(1) obtain p' wh' where pw: "pg_uuid pg p = Some p'" "pg_uuid pg wh = Some wh'"
    and upd: "update_rows (\<lambda>i. at_place p' wh' i \<and> (iv_version i = v \<and> q \<le> iv_quantity_on_hand i - iv_quantity_reserved i))
      (\<lambda>i. i\<lparr>iv_quantity_reserved := iv_quantity_reserved i + q, iv_version := iv_version i + 1,
             iv_updated_at := pg_timestamptz pg now\<rparr>) d = Inr (d', n)"
    unfolding reserve_quantity_def by (elim update_at_cases) auto
  note d' = update_rows_eq [OF upd]
  obtain i where i: "i \<in> set (t_inventory d)" "at_place p' wh' i" "iv_version i = v"
      "q \<le> iv_quantity_on_hand i - iv_quantity_reserved i"
    using d' assms(2) by (auto simp: filter_empty_conv)
  have uniq: "j = i" if "j \<in> set (t_inventory d)" "at_place p' wh' j" for j
    using that i(1,2) assms(3) by (auto simp: inv_wf_def distinct_map inj_on_def at_place_def)
  have "v < iv_version j'" if mem: "j' \<in> set (t_inventory d')" and at: "at_place p' wh' j'" for j'
  proof -
    let ?hit = "\<lambda>i. at_place p' wh' i \<and> iv_version i = v \<and> q \<le> iv_quantity_on_hand i - iv_quantity_reserved i"
    let ?upd = "\<lambda>i. i\<lparr>iv_quantity_reserved := iv_quantity_reserved i + q, iv_version := iv_version i + 1,
             iv_updated_at := pg_timestamptz pg now\<rparr>"
    obtain j where j: "j \<in> set (t_inventory d)" "j' = (if ?hit j then ?upd j else j)"
      using update_rows_elem [OF upd mem] by blast
    then have "at_place p' wh' j" using at by (simp add: at_place_def split: if_splits)
    with uniq j(1) have "j = i" by blast
    with i j(2) show ?thesis by simp
  qed
  then show ?thesis unfolding version_past_def using pw by simp
qed

lemma reserve_quantity_stale:
  assumes "version_past pg p wh v d" and "reserve_quantity pg p wh q v now d = Inr (d', n)"
  shows "n = 0"
  using assms unfolding reserve_quantity_def
  by (elim update_at_cases) (auto simp: version_past_def filter_empty_conv dest!: update_rows_eq)

lemma ReserveQuantity_ok:
  assumes "run_state (inventoryRepository_ReserveQuantity env p wh q v) w = (Inr (), w')"
  shows "\<exists>n now k. k \<noteq> 0 \<and> reserve_quantity (e_pg env) p wh q v now (e_others env n (w_db w)) = Inr (w_db w', k)"
proof -
  let ?w = "w\<lparr>w_tick := Suc (w_tick w)\<rparr>" and ?now = "e_now env (w_tick w)"
  obtain r w1 where run: "run_state (exec_db env (reserve_quantity (e_pg env) p wh q v ?now)) ?w = (r, w1)" by force
  with assms have r: "none_is_conflict r = Inr ()" "w1 = w'"
    by (simp_all add: inventoryRepository_ReserveQuantity_def run_time_now)
  then obtain k where "r = Inr k" "k \<noteq> 0" by (cases r) (auto split: if_splits)
  with exec_db_ok [of env "reserve_quantity (e_pg env) p wh q v ?now" ?w k w1] run r(2) show ?thesis by auto
qed

text \<open>
  C22: the optimistic lock. Of two reservations of units of the same stock level that were
  decided on the same version, at most one succeeds: once \<open>ReserveQuantity\<close> has succeeded with an
  expected version, a later call with that version fails, in every environment whose other
  clients keep the integrity of the tables and never set the version of the stock level back.
\<close>

theorem reserve_optimistic_lock:
  assumes "rely (preserves inv_wf) env" and "rely (preserves (version_past (e_pg env) p wh v)) env"
    and "inv_wf (w_db w)"
    and "run_state (inventoryRepository_ReserveQuantity env p wh q v) w = (Inr (), w1)"
    and "run_state (inventoryRepository_ReserveQuantity env p wh q' v) w1 = (r, w2)"
  shows "\<not> is_ok r"
proof -
  have wf: "inv_wf (e_others env n (w_db w))" for n
    using assms(3) rely_preservesD [OF assms(1)] by blast
  have "version_past (e_pg env) p wh v (w_db w1)"
    using ReserveQuantity_ok [OF assms(4)] wf reserve_quantity_past by blast
  then have past: "version_past (e_pg env) p wh v (e_others env n (w_db w1))" for n
    using rely_preservesD [OF assms(2)] by blast
  show ?thesis
  proof (cases r)
    case (Inr u)
    with assms(5) have "run_state (inventoryRepository_ReserveQuantity env p wh q' v) w1 = (Inr (), w2)" by simp
    from ReserveQuantity_ok [OF this] past reserve_quantity_stale show ?thesis by blast
  qed simp
qed

lemma run_reserve_demo:
  "run_state (inventoryRepository_ReserveQuantity ideal_env ''p1'' ''w1'' 5 7) (idle demo_inventory) =
     (Inr (), (idle (demo_inventory\<lparr>t_inventory := [demo_stock\<lparr>iv_quantity_reserved := 8, iv_version := 8\<rparr>]\<rparr>))
        \<lparr>w_tick := 2\<rparr>)"
  by (simp add: inventoryRepository_ReserveQuantity_def run_time_now run_exec_db_calm reserve_quantity_def update_at_def
      update_rows_def demo_inventory_def demo_stock_def at_place_def int4_ok_def stock_ok_def int64_ok_def idle_def)

theorem reserve_optimistic_lock_witness:
  "\<not> is_ok (fst (run_state (inventoryRepository_ReserveQuantity ideal_env ''p1'' ''w1'' 2 7)
     (snd (run_state (inventoryRepository_ReserveQuantity ideal_env ''p1'' ''w1'' 5 7) (idle demo_inventory)))))"
proof -
  obtain r w2 where second: "run_state (inventoryRepository_ReserveQuantity ideal_env ''p1'' ''w1'' 2 7)
     (snd (run_state (inventoryRepository_ReserveQuantity ideal_env ''p1'' ''w1'' 5 7) (idle demo_inventory))) = (r, w2)"
    by force
  obtain w1 where first: "run_state (inventoryRepository_ReserveQuantity ideal_env ''p1'' ''w1'' 5 7) (idle demo_inventory) = (Inr (), w1)"
    using run_reserve_demo by blast
  have "\<not> is_ok r"
    by (rule reserve_optimistic_lock [OF _ _ _ first, of 2 r w2])
      (use second first in \<open>simp_all add: rely_calm db_guarantee_preserves demo_sound\<close>)
  with second show ?thesis by simp
qed

end
