(* ===== verification/Inventory_Stock.thy ===== *)
theory Inventory_Stock
  imports Inventory_Props
begin

text \<open>
  \<open>ReserveStock\<close> against its specification on the tables (\<open>reserve_spec\<close>) in a calm environment:
  every refusal, a reservation, and the units that are lost when it cannot be stored; and the
  parts of \<open>ReleaseReservation\<close> that the theory \<open>Inventory_Ledger\<close> continues.
\<close>

subsection \<open>The effect of the statements\<close>

definition find_stock :: "string \<Rightarrow> string \<Rightarrow> inv_db \<Rightarrow> Inventory option" where
  "find_stock p wh d = find (at_place p wh) (t_inventory d)"

text \<open>The stock level at a place, changed.\<close>

definition at_stock :: "string \<Rightarrow> string \<Rightarrow> (Inventory \<Rightarrow> Inventory) \<Rightarrow> inv_db \<Rightarrow> inv_db" where
  "at_stock p wh f d = d\<lparr>t_inventory := map (\<lambda>i. if at_place p wh i then f i else i) (t_inventory d)\<rparr>"

definition take_units :: "int \<Rightarrow> int \<Rightarrow> Inventory \<Rightarrow> Inventory" where
  "take_units q t i = i\<lparr>iv_quantity_reserved := iv_quantity_reserved i + q, iv_version := iv_version i + 1,
     iv_updated_at := t\<rparr>"

definition return_units :: "int \<Rightarrow> int \<Rightarrow> Inventory \<Rightarrow> Inventory" where
  "return_units q t i = i\<lparr>iv_quantity_reserved := iv_quantity_reserved i - q, iv_updated_at := t\<rparr>"

lemma find_stock_unique:
  assumes "inv_wf d" and "find_stock p wh d = Some i" and "j \<in> set (t_inventory d)" and "at_place p wh j"
  shows "j = i"
proof -
  from assms(2) have "i \<in> set (t_inventory d)" "at_place p wh i"
    by (auto simp: find_stock_def find_Some_iff)
  with assms(1,3,4) show ?thesis by (auto simp: inv_wf_def distinct_map inj_on_def at_place_def)
qed

lemma find_stock_in: "find_stock p wh d = Some i \<Longrightarrow> i \<in> set (t_inventory d) \<and> at_place p wh i"
  by (auto simp: find_stock_def find_Some_iff)

text \<open>Changing the one row at a place, when its condition holds.\<close>

lemma update_rows_at:
  assumes "inv_wf d" and "find_stock p wh d = Some i" and "cond i" and "stock_ok (upd i)"
  shows "\<exists>n. n \<noteq> 0 \<and> update_rows (\<lambda>j. at_place p wh j \<and> cond j) upd d = Inr (at_stock p wh upd d, n)"
proof -
  have uniq: "at_place p wh j \<longleftrightarrow> j = i" if "j \<in> set (t_inventory d)" for j
    using that find_stock_unique [OF assms(1,2)] find_stock_in [OF assms(2)] by blast
  have "map (\<lambda>j. if at_place p wh j \<and> cond j then upd j else j) (t_inventory d) =
      map (\<lambda>j. if at_place p wh j then upd j else j) (t_inventory d)"
    using uniq assms(3) by (intro map_cong) auto
  moreover have "filter (\<lambda>j. at_place p wh j \<and> cond j) (t_inventory d) \<noteq> []"
    using find_stock_in [OF assms(2)] assms(3) by (auto simp: filter_empty_conv)
  moreover have "list_all (\<lambda>j. at_place p wh j \<and> cond j \<longrightarrow> stock_ok (upd j)) (t_inventory d)"
    using uniq assms(4) by (auto simp: list_all_iff)
  ultimately show ?thesis by (simp add: update_rows_def at_stock_def)
qed

text \<open>Ids of products and warehouses are given as they are stored.\<close>

definition stored_id :: "pg_types \<Rightarrow> string \<Rightarrow> bool" where
  "stored_id pg i \<longleftrightarrow> pg_uuid pg i = Some i"

text \<open>A SKU the server stores as it is given, and the literals the inventory service stores.\<close>

definition stored_sku :: "pg_types \<Rightarrow> string \<Rightarrow> bool" where
  "stored_sku pg sku \<longleftrightarrow> pg_varchar pg 100 sku = Some sku"

lemma inventory_literals:
  assumes "varchar_keeps pg"
  shows "pg_varchar pg 30 ''reserved'' = Some ''reserved''" "pg_varchar pg 30 ''released'' = Some ''released''"
    "pg_varchar pg 50 ''order'' = Some ''order''" "pg_varchar pg 50 ''manual'' = Some ''manual''"
    "pg_varchar pg 30 MovementReserve = Some MovementReserve" "pg_varchar pg 30 MovementRelease = Some MovementRelease"
    "pg_varchar pg 30 MovementIn = Some MovementIn" "pg_varchar pg 30 MovementOut = Some MovementOut"
    "stored_sku pg ''''"
  unfolding stored_sku_def
  by (rule varchar_plain [OF assms];
      simp add: plain_text_def MovementReserve_def MovementRelease_def MovementIn_def MovementOut_def)+

lemma reserve_quantity_at:
  assumes "inv_wf d" and "find_stock p wh d = Some i" and "stored_id pg p" and "stored_id pg wh"
    and "0 < q" and "q \<le> iv_quantity_on_hand i - iv_quantity_reserved i" and "iv_version i < 2 ^ 63 - 1"
  shows "\<exists>n. n \<noteq> 0 \<and> reserve_quantity pg p wh q (iv_version i) now d =
           Inr (at_stock p wh (take_units q (pg_timestamptz pg now)) d, n)"
proof -
  have i: "stock_ok i" "0 \<le> iv_quantity_reserved i"
    using assms(1) find_stock_in [OF assms(2)] by (auto simp: inv_wf_def list_all_iff)
  have q: "int4_ok q" using i assms(5,6) by (auto simp: stock_ok_def int4_ok_def)
  have "stock_ok (take_units q (pg_timestamptz pg now) i)"
    using i assms(5-7) by (auto simp: stock_ok_def take_units_def int4_ok_def int64_ok_def)
  from update_rows_at [OF assms(1,2), where upd = "take_units q (pg_timestamptz pg now)"
      and cond = "\<lambda>j. iv_version j = iv_version i \<and> q \<le> iv_quantity_on_hand j - iv_quantity_reserved j", OF _ this]
  show ?thesis
    using assms(3,4,6) q by (simp add: reserve_quantity_def update_at_def stored_id_def take_units_def [abs_def])
qed

text \<open>Releasing more units than are reserved, or where there is no stock level, changes nothing.\<close>

definition give_back :: "string \<Rightarrow> string \<Rightarrow> int \<Rightarrow> int \<Rightarrow> inv_db \<Rightarrow> inv_db" where
  "give_back p wh q t d =
     (case find_stock p wh d of
        None \<Rightarrow> d
      | Some i \<Rightarrow> if q \<le> iv_quantity_reserved i then at_stock p wh (return_units q t) d else d)"

lemma update_rows_none:
  assumes "\<And>j. j \<in> set (t_inventory d) \<Longrightarrow> \<not> hit j"
  shows "update_rows hit upd d = Inr (d, 0)"
proof -
  have "map (\<lambda>j. if hit j then upd j else j) (t_inventory d) = t_inventory d"
    using assms by (intro map_idI) simp
  moreover have "filter hit (t_inventory d) = []" using assms by (simp add: filter_empty_conv)
  ultimately show ?thesis using assms by (simp add: update_rows_def list_all_iff)
qed

lemma release_quantity_at:
  assumes "inv_wf d" and "stored_id pg p" and "stored_id pg wh" and "0 < q" and "int4_ok q"
  shows "\<exists>n. release_quantity pg p wh q now d = Inr (give_back p wh q (pg_timestamptz pg now) d, n)"
proof (cases "\<exists>i. find_stock p wh d = Some i \<and> q \<le> iv_quantity_reserved i")
  case True
  then obtain i where i: "find_stock p wh d = Some i" "q \<le> iv_quantity_reserved i" by blast
  have "stock_ok i" using assms(1) find_stock_in [OF i(1)] by (auto simp: inv_wf_def list_all_iff)
  then have "stock_ok (return_units q (pg_timestamptz pg now) i)"
    using i(2) assms(4) by (auto simp: stock_ok_def return_units_def int4_ok_def)
  from update_rows_at [OF assms(1) i(1), where upd = "return_units q (pg_timestamptz pg now)"
      and cond = "\<lambda>j. q \<le> iv_quantity_reserved j", OF _ this]
  show ?thesis
    using assms(2,3,5) i
    by (auto simp: release_quantity_def update_at_def stored_id_def return_units_def [abs_def] give_back_def)
next
  case False
  have "\<not> (at_place p wh j \<and> q \<le> iv_quantity_reserved j)" if "j \<in> set (t_inventory d)" for j
  proof (cases "find_stock p wh d")
    case None
    with that show ?thesis by (auto simp: find_stock_def find_None_iff)
  next
    case (Some i)
    with False that find_stock_unique [OF assms(1) Some] show ?thesis by auto
  qed
  note none = update_rows_none [of d "\<lambda>j. at_place p wh j \<and> q \<le> iv_quantity_reserved j", OF this]
  moreover have "give_back p wh q t d = d" for t using False by (auto simp: give_back_def split: option.splits)
  ultimately show ?thesis
    using assms(2,3,5) by (auto simp: release_quantity_def update_at_def stored_id_def)
qed

subsection \<open>Reserving in a calm environment\<close>

text \<open>The ids \<open>uuid.New\<close> returns from the interaction \<open>t\<close> on are new to the tables.\<close>

definition fresh_ids :: "inv_db env \<Rightarrow> inv_db \<Rightarrow> nat \<Rightarrow> bool" where
  "fresh_ids env d t \<longleftrightarrow> (\<forall>n \<ge> t. stored_id (e_pg env) (e_uuid env n) \<and>
     e_uuid env n \<notin> rr_id ` set (t_reservations d) \<and> e_uuid env n \<notin> mr_id ` set (t_movements d))"

lemma at_stock_sel [simp]:
  "t_reservations (at_stock p wh f d) = t_reservations d" "t_movements (at_stock p wh f d) = t_movements d"
  "s_item_required (at_stock p wh f d) = s_item_required d" "t_warehouses (at_stock p wh f d) = t_warehouses d"
  by (simp_all add: at_stock_def)

text \<open>The reservation and the movement of a request.\<close>

definition reservation_for :: "ReserveStockRequest \<Rightarrow> string \<Rightarrow> Reservation \<Rightarrow> bool" where
  "reservation_for req wid rs \<longleftrightarrow>
     rs_order_id rs = rq_order_id req \<and> rs_order_item_id rs = '''' \<and> rs_product_id rs = rq_product_id req \<and>
     rs_sku rs = rq_sku req \<and> rs_warehouse_id rs = wid \<and> rs_quantity rs = rq_quantity req \<and>
     rs_status rs = ''reserved'' \<and> rs_expires_at rs = None"

definition movement_of ::
  "string \<Rightarrow> string \<Rightarrow> string \<Rightarrow> MovementType \<Rightarrow> int \<Rightarrow> string \<Rightarrow> string \<Rightarrow> InventoryMovement \<Rightarrow> bool" where
  "movement_of p sku wid ty q rt ri mv \<longleftrightarrow>
     mv_product_id mv = p \<and> mv_sku mv = sku \<and> mv_warehouse_id mv = wid \<and> mv_movement_type mv = ty \<and>
     mv_quantity mv = q \<and> mv_reference_type mv = rt \<and> mv_reference_id mv = ri"

lemma run_new_reservation:
  "\<exists>rs. run_state (new_reservation env req wid) w = (rs, w\<lparr>w_tick := w_tick w + 3\<rparr>) \<and>
     reservation_for req wid rs \<and> rs_id rs = e_uuid env (w_tick w)"
  by (simp add: new_reservation_def run_new_uuid run_time_now reservation_for_def numeral_3_eq_3)

lemma run_new_movement:
  "\<exists>mv. run_state (new_movement env p sku wid ty q rt ri) w = (mv, w\<lparr>w_tick := w_tick w + 2\<rparr>) \<and>
     movement_of p sku wid ty q rt ri mv \<and> mv_id mv = e_uuid env (w_tick w)"
  by (simp add: new_movement_def run_new_uuid run_time_now movement_of_def)

lemma reservation_convertible:
  assumes "varchar_keeps pg" and "reservation_for req wid rs" and "stored_id pg (rs_id rs)"
    and "stored_id pg (rq_order_id req)" and "stored_id pg (rq_product_id req)" and "stored_id pg wid"
    and "stored_sku pg (rq_sku req)" and "int4_ok (rq_quantity req)"
  shows "\<exists>row. reservation_row pg rs = Some row \<and> rr_id row = rs_id rs \<and> rr_order_item_id row = None \<and>
           rr_product_id row = rq_product_id req \<and> rr_warehouse_id row = wid \<and>
           rr_quantity row = rq_quantity req \<and> rr_status row = ''reserved''"
  using assms inventory_literals [OF assms(1)]
  by (simp add: reservation_row_def reservation_for_def stored_id_def stored_sku_def null_if_empty_def int4_def)

lemma movement_convertible:
  assumes "varchar_keeps pg" and "movement_of p sku wid ty q ''order'' ri mv" and "stored_id pg (mv_id mv)"
    and "stored_id pg p" and "stored_id pg wid" and "stored_id pg ri" and "stored_sku pg sku" and "int4_ok q"
    and "pg_varchar pg 30 ty = Some ty"
  shows "\<exists>row. movement_row pg mv = Some row \<and> mr_id row = mv_id mv"
  using assms inventory_literals [OF assms(1)]
  by (cases "ri = ''''") (simp_all add: movement_row_def movement_of_def stored_id_def stored_sku_def null_if_empty_def int4_def)

lemma cached_reserve_calm:
  assumes calm: "calm env" and wf: "inv_wf (w_db w)" and found: "find_stock p wh (w_db w) = Some i"
    and ids: "stored_id (e_pg env) p" "stored_id (e_pg env) wh"
    and q: "0 < q" "q \<le> iv_quantity_on_hand i - iv_quantity_reserved i" and v: "iv_version i < 2 ^ 63 - 1"
  shows "\<exists>t w'. run_state (InventoryRepository_ReserveQuantity (uc_inventoryRepo (inventoryUC env)) p wh q (iv_version i)) w
      = (Inr (), w') \<and> w_db w' = at_stock p wh (take_units q t) (w_db w) \<and> w_txs w' = w_txs w \<and> w_tick w \<le> w_tick w'"
proof -
  let ?now = "e_now env (w_tick w)"
  obtain n where n: "n \<noteq> 0" "reserve_quantity (e_pg env) p wh q (iv_version i) ?now (w_db w) =
      Inr (at_stock p wh (take_units q (pg_timestamptz (e_pg env) ?now)) (w_db w), n)"
    using reserve_quantity_at [OF wf found ids q v] by blast
  then show ?thesis
    using calm
    by (auto simp: inventoryUC_def NewInventoryCache_def NewInventoryRepository_def invalidating_def
        inventoryRepository_ReserveQuantity_def run_time_now run_exec_db_calm run_Cache_Delete_calm
        intro!: exI [of _ "pg_timestamptz (e_pg env) ?now"])
qed

text \<open>What a successful reservation leaves behind.\<close>

definition reserved_state ::
  "pg_types \<Rightarrow> ReserveStockRequest \<Rightarrow> string \<Rightarrow> Reservation \<Rightarrow> inv_db \<Rightarrow> inv_db \<Rightarrow> bool" where
  "reserved_state pg req wid rs d d' \<longleftrightarrow> reservation_for req wid rs \<and>
     (\<exists>t row mv mrow. reservation_row pg rs = Some row \<and> movement_row pg mv = Some mrow \<and>
        movement_of (rq_product_id req) (rq_sku req) wid MovementReserve (- rq_quantity req) ''order'' (rq_order_id req) mv \<and>
        d' = (at_stock (rq_product_id req) wid (take_units (rq_quantity req) t) d)
               \<lparr>t_reservations := t_reservations d @ [row], t_movements := t_movements d @ [mrow]\<rparr>)"

lemma inventoryUC_repos [simp]:
  "ReservationRepository_CreateInTx (uc_reservationRepo (inventoryUC env)) (Some h) rs = exec_tx env h (insert_reservation (e_pg env) rs)"
  "MovementRepository_CreateInTx (uc_movementRepo (inventoryUC env)) (Some h) mv = exec_tx env h (insert_movement (e_pg env) mv)"
  by (simp_all add: inventoryUC_def NewReservationRepository_def NewMovementRepository_def
      reservationRepository_CreateInTx_def movementRepository_CreateInTx_def execute_def)

text \<open>The transaction after the quantity has been reserved.\<close>

definition store_reservation ::
  "inv_db env \<Rightarrow> ReserveStockRequest \<Rightarrow> string \<Rightarrow> nat \<Rightarrow> (inv_db, Reservation) ioe" where
  "store_reservation env req wid h = do {
     rs \<leftarrow> new_reservation env req wid;
     bindE (exec_tx env h (insert_reservation (e_pg env) rs)) (\<lambda>_. do {
     mv \<leftarrow> new_movement env (rq_product_id req) (rq_sku req) wid MovementReserve (- rq_quantity req) ''order'' (rq_order_id req);
     _ \<leftarrow> exec_tx env h (insert_movement (e_pg env) mv);
     bindE (wrapE ''failed to commit transaction'' (Commit env h)) (\<lambda>_. ok rs)})}"

lemma store_reservation_calm:
  assumes calm: "calm env" and vc: "varchar_keeps (e_pg env)" and fresh: "fresh_ids env d (w_tick w)"
    and ids: "stored_id (e_pg env) (rq_order_id req)" "stored_id (e_pg env) (rq_product_id req)" "stored_id (e_pg env) wid"
    and req: "stored_sku (e_pg env) (rq_sku req)" "int4_ok (rq_quantity req)" "0 < rq_quantity req"
    and w: "fresh_tx h d w"
  shows "case run_state (store_reservation env req wid h) w of (r, w') \<Rightarrow>
     if s_item_required d then r = Inl pq_not_null \<and> w_db w' = d
     else \<exists>rs row mv mrow. r = Inr rs \<and> reservation_for req wid rs \<and> reservation_row (e_pg env) rs = Some row \<and>
       movement_row (e_pg env) mv = Some mrow \<and>
       movement_of (rq_product_id req) (rq_sku req) wid MovementReserve (- rq_quantity req) ''order'' (rq_order_id req) mv \<and>
       w_db w' = d\<lparr>t_reservations := t_reservations d @ [row], t_movements := t_movements d @ [mrow]\<rparr>"
proof -
  let ?pg = "e_pg env"
  obtain rs where rs: "run_state (new_reservation env req wid) w = (rs, w\<lparr>w_tick := w_tick w + 3\<rparr>)"
      "reservation_for req wid rs" "rs_id rs = e_uuid env (w_tick w)"
    using run_new_reservation by blast
  obtain row where row: "reservation_row ?pg rs = Some row" "rr_id row = rs_id rs" "rr_order_item_id row = None"
    using reservation_convertible [OF vc rs(2) _ ids req(1,2)] fresh rs(3) by (auto simp: fresh_ids_def)
  have new_row: "rr_id row \<notin> rr_id ` set (t_reservations d)" using fresh row(2) rs(3) by (simp add: fresh_ids_def)
  have tx: "w_txs w h = Some \<lparr>tx_log = [], tx_aborted = False\<rparr>" "w_db w = d"
    using w by (auto simp: fresh_tx_def tx_at_def)
  show ?thesis
  proof (cases "s_item_required d")
    case True
    then have "insert_reservation ?pg rs d = Inl pq_not_null" by (simp add: insert_reservation_def row)
    with True rs(1) tx calm show ?thesis by (simp add: store_reservation_def run_exec_tx_calm)
  next
    case False
    let ?d1 = "d\<lparr>t_reservations := t_reservations d @ [row]\<rparr>"
    have ins: "insert_reservation ?pg rs d = Inr (?d1, ())"
      using False new_row by (simp add: insert_reservation_def row list_ex_key)
    let ?w1 = "set_tx h (Some \<lparr>tx_log = [apply_stmt (insert_reservation ?pg rs)], tx_aborted = False\<rparr>)
        (w\<lparr>w_tick := w_tick w + 4\<rparr>)"
    obtain mv where mv: "run_state (new_movement env (rq_product_id req) (rq_sku req) wid MovementReserve (- rq_quantity req)
          ''order'' (rq_order_id req)) ?w1 = (mv, ?w1\<lparr>w_tick := w_tick w + 6\<rparr>)"
        "movement_of (rq_product_id req) (rq_sku req) wid MovementReserve (- rq_quantity req) ''order'' (rq_order_id req) mv"
        "mv_id mv = e_uuid env (w_tick w + 4)"
      using run_new_movement [of env "rq_product_id req" "rq_sku req" wid MovementReserve "- rq_quantity req"
          "''order''" "rq_order_id req" ?w1] by auto
    have "int4_ok (- rq_quantity req)" using req(2,3) by (auto simp: int4_ok_def)
    then obtain mrow where mrow: "movement_row ?pg mv = Some mrow" "mr_id mrow = mv_id mv"
      using movement_convertible [OF vc mv(2) _ ids(2,3,1) req(1) _ inventory_literals(5) [OF vc]] fresh mv(3) by (auto simp: fresh_ids_def)
    have "mr_id mrow \<notin> mr_id ` set (t_movements d)" using fresh mrow(2) mv(3) by (simp add: fresh_ids_def)
    then have insm: "insert_movement ?pg mv ?d1 = Inr (?d1\<lparr>t_movements := t_movements d @ [mrow]\<rparr>, ())"
      by (simp add: insert_movement_def mrow list_ex_key)
    have four: "Suc (w_tick w + 3) = w_tick w + 4" by simp
    have nil: "apply_log [] d = Some d" by simp
    have log: "apply_log [apply_stmt (insert_reservation ?pg rs)] d = Some ?d1" by (simp add: ins)
    have log2: "apply_log [apply_stmt (insert_reservation ?pg rs), apply_stmt (insert_movement ?pg mv)] d =
        Some (?d1\<lparr>t_movements := t_movements d @ [mrow]\<rparr>)" by (simp add: ins insm)
    have "\<exists>w'. run_state (store_reservation env req wid h) w = (Inr rs, w') \<and>
        w_db w' = ?d1\<lparr>t_movements := t_movements d @ [mrow]\<rparr>"
      using calm tx mv(1) log log2 nil
      by (simp add: store_reservation_def rs(1) run_exec_tx_calm [where d = d] ins four run_exec_tx_calm [where d = ?d1] insm
          run_Commit_calm [where d = "?d1\<lparr>t_movements := t_movements d @ [mrow]\<rparr>"] del: apply_log.simps apply_stmt.simps)
    with False rs(2) row(1) mrow(1) mv(2) show ?thesis by (force split: prod.splits)
  qed
qed

lemma fresh_ids_later:
  "fresh_ids env d t \<Longrightarrow> t \<le> t' \<Longrightarrow> t_reservations d' = t_reservations d \<Longrightarrow> t_movements d' = t_movements d \<Longrightarrow>
     fresh_ids env d' t'"
  by (simp add: fresh_ids_def)

lemma reserve_at_calm:
  assumes calm: "calm env" and vc: "varchar_keeps (e_pg env)" and wf: "inv_wf (w_db w)"
    and fresh: "fresh_ids env (w_db w) (w_tick w)"
    and ids: "stored_id (e_pg env) (rq_order_id req)" "stored_id (e_pg env) (rq_product_id req)" "stored_id (e_pg env) wid"
    and sku: "stored_sku (e_pg env) (rq_sku req)" and found: "find_stock (rq_product_id req) wid (w_db w) = Some i"
    and q: "0 < rq_quantity req" "rq_quantity req \<le> iv_quantity_on_hand i - iv_quantity_reserved i"
    and v: "iv_version i < 2 ^ 63 - 1"
  shows "case run_state (reserve_at env (inventoryUC env) req wid (iv_version i)) w of (r, w') \<Rightarrow>
     if s_item_required (w_db w)
     then r = Inl pq_not_null \<and> (\<exists>t. w_db w' = at_stock (rq_product_id req) wid (take_units (rq_quantity req) t) (w_db w))
     else \<exists>rs. r = Inr rs \<and> reserved_state (e_pg env) req wid rs (w_db w) (w_db w')"
proof -
  let ?h = "w_tick w"
  let ?w1 = "set_tx ?h (Some \<lparr>tx_log = [], tx_aborted = False\<rparr>) (w\<lparr>w_tick := Suc (w_tick w)\<rparr>)"
  have "inv_wf (w_db ?w1)" "find_stock (rq_product_id req) wid (w_db ?w1) = Some i"
    using wf found by simp_all
  from cached_reserve_calm [OF calm this ids(2,3) q v] obtain t w2 where
    res: "run_state (InventoryRepository_ReserveQuantity (uc_inventoryRepo (inventoryUC env)) (rq_product_id req) wid
        (rq_quantity req) (iv_version i)) ?w1 = (Inr (), w2)"
    and w2: "w_db w2 = at_stock (rq_product_id req) wid (take_units (rq_quantity req) t) (w_db w)"
      "w_txs w2 = w_txs ?w1" "w_tick ?w1 \<le> w_tick w2" by auto
  let ?d = "w_db w2"
  have F: "fresh_ids env ?d (w_tick w2)" using fresh_ids_later [OF fresh] w2 by simp
  have I: "int4_ok (rq_quantity req)"
    using q wf find_stock_in [OF found] by (auto simp: inv_wf_def list_all_iff stock_ok_def int4_ok_def)
  have T: "fresh_tx ?h ?d w2" using w2(2) by (simp add: fresh_tx_def tx_at_def)
  note st = store_reservation_calm [OF calm vc F ids sku I q(1) T]
  obtain r w3 where run: "run_state (store_reservation env req wid ?h) w2 = (r, w3)" by force
  have "run_state (reserve_at env (inventoryUC env) req wid (iv_version i)) w = (r, set_tx ?h None w3)"
    using run calm by (simp add: reserve_at_def run_BeginTxx_calm res store_reservation_def run_Rollback)
  with st run w2(1) show ?thesis
    by (cases "s_item_required (w_db w)") (simp, blast, auto simp: reserved_state_def, blast)
qed

text \<open>Stock is read through the cache; without an entry the stored level is returned.\<close>

definition cold_stock :: "inv_db env \<Rightarrow> inv_db world \<Rightarrow> string \<Rightarrow> string \<Rightarrow> bool" where
  "cold_stock env w p wh \<longleftrightarrow>
     redis_live (w_redis w) (e_now env (w_tick w)) (cache_key stock_cache (inventoryByProductWarehouseKey p wh)) = None"

lemma cached_stock_cold:
  assumes "calm env" and "cold_stock env w p wh" and "stored_id (e_pg env) p" "stored_id (e_pg env) wh"
  shows "\<exists>w'. run_state (InventoryRepository_GetByProductAndWarehouse (uc_inventoryRepo (inventoryUC env)) p wh) w =
       (case find_stock p wh (w_db w) of None \<Rightarrow> Inl ErrInventoryNotFound | Some i \<Rightarrow> Inr i, w') \<and>
     w_db w' = w_db w \<and> w_txs w' = w_txs w \<and> w_tick w \<le> w_tick w'"
  using assms
  by (auto simp: inventoryUC_def NewInventoryCache_def InventoryCache_GetByProductAndWarehouse_def read_through_def
      run_Cache_Get cold_stock_def unmarshal_def NewInventoryRepository_def run_GetContext_calm select_stock_def
      inventoryRepository_GetByProductAndWarehouse_def stored_id_def find_stock_def run_Cache_Set_calm
      first_row_filter split: option.splits)

subsection \<open>The branches of ReserveStock\<close>

text \<open>
  What \<open>ReserveStock\<close> promises for a request that names its warehouse: the outcome \<open>r\<close> and the
  new state \<open>d'\<close> on every branch.
\<close>

definition reserve_spec ::
  "pg_types \<Rightarrow> ReserveStockRequest \<Rightarrow> inv_db \<Rightarrow> Reservation result \<Rightarrow> inv_db \<Rightarrow> bool" where
  "reserve_spec pg req d r d' \<longleftrightarrow>
     (if rq_quantity req \<le> 0 then r = Inl ErrInvalidStockQuantity \<and> d' = d
      else (case find_stock (rq_product_id req) (rq_warehouse_id req) d of
         None \<Rightarrow> r = Inl ErrInventoryNotFound \<and> d' = d
       | Some i \<Rightarrow>
           if iv_quantity_on_hand i - iv_quantity_reserved i < rq_quantity req
           then r = Inl ErrInsufficientStock \<and> d' = d
           else if s_item_required d
           then r = Inl pq_not_null \<and>
             (\<exists>t. d' = at_stock (rq_product_id req) (rq_warehouse_id req) (take_units (rq_quantity req) t) d)
           else \<exists>rs. r = Inr rs \<and> reserved_state pg req (rq_warehouse_id req) rs d d'))"

text \<open>The requests and states for which it is proved.\<close>

definition reserve_ready :: "inv_db env \<Rightarrow> ReserveStockRequest \<Rightarrow> inv_db world \<Rightarrow> bool" where
  "reserve_ready env req w \<longleftrightarrow>
     inv_wf (w_db w) \<and> fresh_ids env (w_db w) (w_tick w) \<and>
     stored_id (e_pg env) (rq_order_id req) \<and> stored_id (e_pg env) (rq_product_id req) \<and>
     stored_id (e_pg env) (rq_warehouse_id req) \<and> rq_warehouse_id req \<noteq> '''' \<and>
     stored_sku (e_pg env) (rq_sku req) \<and> cold_stock env w (rq_product_id req) (rq_warehouse_id req) \<and>
     list_all (\<lambda>i. iv_version i < 2 ^ 63 - 1) (t_inventory (w_db w))"

lemma ReserveStock_calm:
  assumes "calm env" and "varchar_keeps (e_pg env)" and "reserve_ready env req w"
  shows "case run_state (ReserveStock env (inventoryUC env) req) w of (r, w') \<Rightarrow>
     reserve_spec (e_pg env) req (w_db w) r (w_db w')"
proof -
  have ready: "inv_wf (w_db w)" "fresh_ids env (w_db w) (w_tick w)"
      "stored_id (e_pg env) (rq_order_id req)" "stored_id (e_pg env) (rq_product_id req)"
      "stored_id (e_pg env) (rq_warehouse_id req)" "rq_warehouse_id req \<noteq> ''''"
      "stored_sku (e_pg env) (rq_sku req)" "cold_stock env w (rq_product_id req) (rq_warehouse_id req)"
      "list_all (\<lambda>i. iv_version i < 2 ^ 63 - 1) (t_inventory (w_db w))"
    using assms(3) by (simp_all add: reserve_ready_def)
  let ?p = "rq_product_id req" and ?wh = "rq_warehouse_id req"
  obtain w1 where get: "run_state (InventoryRepository_GetByProductAndWarehouse (uc_inventoryRepo (inventoryUC env)) ?p ?wh) w =
       (case find_stock ?p ?wh (w_db w) of None \<Rightarrow> Inl ErrInventoryNotFound | Some i \<Rightarrow> Inr i, w1)"
     and w1: "w_db w1 = w_db w" "w_tick w \<le> w_tick w1"
    using cached_stock_cold [OF assms(1) ready(8,4,5)] by blast
  note run = ReserveStock_def resolve_warehouse_def reserve_spec_def ready(6)
  show ?thesis
  proof (cases "find_stock ?p ?wh (w_db w)")
    case None
    with get w1 show ?thesis by (simp add: run)
  next
    case (Some i)
    have i: "iv_version i < 2 ^ 63 - 1" "Available i = iv_quantity_on_hand i - iv_quantity_reserved i"
      using ready(1,9) find_stock_in [OF Some]
      by (auto simp: inv_wf_def list_all_iff stock_ok_def int4_ok_def Available_def int64_ok_def)
    have at: "inv_wf (w_db w1)" "fresh_ids env (w_db w1) (w_tick w1)" "find_stock ?p ?wh (w_db w1) = Some i"
      using ready(1) Some w1(1) fresh_ids_later [OF ready(2) w1(2)] by simp_all
    show ?thesis
    proof (cases "0 < rq_quantity req \<and> rq_quantity req \<le> iv_quantity_on_hand i - iv_quantity_reserved i")
      case True
      with reserve_at_calm [OF assms(1,2) at(1,2) ready(3-5,7) at(3) _ _ i(1)] get Some w1(1) i(2)
      show ?thesis by (cases "s_item_required (w_db w)") (auto simp: run split: prod.splits)
    next
      case False
      with get Some w1 i(2) show ?thesis by (auto simp: run)
    qed
  qed
qed

text \<open>
  C4: every branch of \<open>ReserveStock\<close> for a request that names its warehouse, in a calm
  environment and with no cached entry for the stock level. A quantity below one, an unknown
  stock level and too few available units give their error and change nothing. Otherwise, with
  the nullable column, it returns a reservation of the requested units, and the new state is
  the old one with these units reserved at this place and at no other, the reservation and one
  movement added. With the column of the schema in \<^verbatim>\<open>01-init.sql\<close> it fails on the reservation,
  and the units stay reserved: the quantity is changed outside the transaction.
\<close>

theorem ReserveStock_branches:
  assumes "calm env" and "varchar_keeps (e_pg env)" and "reserve_ready env req w"
  shows "case run_state (ReserveStock env (inventoryUC env) req) w of (r, w') \<Rightarrow>
     reserve_spec (e_pg env) req (w_db w) r (w_db w')"
  by (rule ReserveStock_calm [OF assms])

lemma demo_fresh: "fresh_ids ideal_env demo_inventory t"
  by (auto simp: fresh_ids_def stored_id_def demo_inventory_def demo_reservation_def
      dest!: arg_cong [where f = "\<lambda>s. CHR ''r'' \<in> set s"])

lemma demo_reserve_sel:
  "rq_order_id demo_reserve = ''o2''" "rq_product_id demo_reserve = ''p1''" "rq_warehouse_id demo_reserve = ''w1''"
  "rq_sku demo_reserve = ''sku''" "rq_quantity demo_reserve = 5"
  by (simp_all add: demo_reserve_def)

lemma demo_ready: "reserve_ready ideal_env demo_reserve (idle demo_inventory)"
  using demo_sound(2) demo_fresh
  by (simp add: reserve_ready_def stored_id_def stored_sku_def cold_stock_def redis_live_def demo_reserve_sel)
    (simp add: demo_inventory_def demo_stock_def)

lemma demo_found: "find_stock ''p1'' ''w1'' demo_inventory = Some demo_stock"
  by (simp add: find_stock_def at_place_def demo_inventory_def demo_stock_def)

theorem ReserveStock_branches_witness:
  "case run_state (ReserveStock ideal_env (inventoryUC ideal_env) demo_reserve) (idle demo_inventory) of (r, w') \<Rightarrow>
     \<exists>rs. r = Inr rs \<and> reserved_state ideal_pg demo_reserve ''w1'' rs demo_inventory (w_db w')"
proof -
  have "iv_quantity_on_hand demo_stock = 10" "iv_quantity_reserved demo_stock = 3" "\<not> s_item_required demo_inventory"
    by (simp_all add: demo_stock_def demo_inventory_def)
  with ReserveStock_branches [of ideal_env demo_reserve "idle demo_inventory"] demo_ready show ?thesis
    by (simp add: reserve_spec_def demo_reserve_sel demo_found split: prod.splits)
qed

subsection \<open>Releasing in a calm environment\<close>

definition find_reservation :: "string \<Rightarrow> inv_db \<Rightarrow> reservationRow option" where
  "find_reservation rid d = find (\<lambda>r. rr_id r = rid) (t_reservations d)"

definition close_reservation :: "string \<Rightarrow> int \<Rightarrow> inv_db \<Rightarrow> inv_db" where
  "close_reservation rid t d = d\<lparr>t_reservations := map (\<lambda>r. if rr_id r = rid
     then r\<lparr>rr_status := ''released'', rr_updated_at := t\<rparr> else r) (t_reservations d)\<rparr>"

text \<open>What releasing the reservation \<open>row\<close> leaves behind.\<close>

definition released_state :: "pg_types \<Rightarrow> reservationRow \<Rightarrow> inv_db \<Rightarrow> inv_db \<Rightarrow> bool" where
  "released_state pg row d d' \<longleftrightarrow>
     (\<exists>t t' mv mrow. movement_row pg mv = Some mrow \<and>
        movement_of (rr_product_id row) '''' (rr_warehouse_id row) MovementRelease (rr_quantity row) ''order''
          (rr_order_id row) mv \<and>
        d' = (give_back (rr_product_id row) (rr_warehouse_id row) (rr_quantity row) t'
               (close_reservation (rr_id row) t d))\<lparr>t_movements := t_movements d @ [mrow]\<rparr>)"

lemma close_reservation_sel [simp]:
  "t_inventory (close_reservation rid t d) = t_inventory d" "t_movements (close_reservation rid t d) = t_movements d"
  "t_warehouses (close_reservation rid t d) = t_warehouses d" "s_item_required (close_reservation rid t d) = s_item_required d"
  "find_stock p wh (close_reservation rid t d) = find_stock p wh d"
  by (simp_all add: close_reservation_def find_stock_def)

lemma close_reservation_wf: "inv_wf d \<Longrightarrow> inv_wf (close_reservation rid t d)"
  by (auto simp: close_reservation_def inv_wf_def list_all_iff comp_def if_distrib cong: if_cong)

lemma close_statement:
  assumes "varchar_keeps pg" and "stored_id pg rid"
  shows "update_reservation_status pg rid ''released'' now d = Inr (close_reservation rid (pg_timestamptz pg now) d, ())"
  using assms(2) inventory_literals [OF assms(1)]
  by (simp add: update_reservation_status_def stored_id_def close_reservation_def)

lemma give_back_sel [simp]:
  "t_reservations (give_back p wh q t d) = t_reservations d" "t_movements (give_back p wh q t d) = t_movements d"
  by (simp_all add: give_back_def split: option.splits)

lemma cached_release_calm:
  assumes calm: "calm env" and wf: "inv_wf (w_db w)"
    and ids: "stored_id (e_pg env) p" "stored_id (e_pg env) wh" and q: "0 < q" "int4_ok q"
  shows "\<exists>t w'. run_state (InventoryRepository_ReleaseQuantity (uc_inventoryRepo (inventoryUC env)) p wh q) w
      = (Inr (), w') \<and> w_db w' = give_back p wh q t (w_db w) \<and> w_txs w' = w_txs w \<and> w_tick w \<le> w_tick w'"
proof -
  let ?now = "e_now env (w_tick w)"
  obtain n where n: "release_quantity (e_pg env) p wh q ?now (w_db w) =
      Inr (give_back p wh q (pg_timestamptz (e_pg env) ?now) (w_db w), n)"
    using release_quantity_at [OF wf ids q] by blast
  then show ?thesis
    using calm
    by (auto simp: inventoryUC_def NewInventoryCache_def NewInventoryRepository_def invalidating_def
        inventoryRepository_ReleaseQuantity_def run_time_now run_exec_db_calm run_Cache_Delete_calm
        intro!: exI [of _ "pg_timestamptz (e_pg env) ?now"])
qed

text \<open>The movement and the commit at the end of a release.\<close>

lemma store_release_calm:
  assumes calm: "calm env" and vc: "varchar_keeps (e_pg env)" and fresh: "fresh_ids env d (w_tick w)"
    and ids: "stored_id (e_pg env) p" "stored_id (e_pg env) wid" "stored_id (e_pg env) oid" and q: "int4_ok q"
    and w: "fresh_tx h d w"
  shows "\<exists>mv mrow w'. run_state (do {
       mv \<leftarrow> new_movement env p '''' wid MovementRelease q ''order'' oid;
       _ \<leftarrow> exec_tx env h (insert_movement (e_pg env) mv);
       wrapE ''failed to commit transaction'' (Commit env h)}) w = (Inr (), w') \<and>
     movement_row (e_pg env) mv = Some mrow \<and> movement_of p '''' wid MovementRelease q ''order'' oid mv \<and>
     w_db w' = d\<lparr>t_movements := t_movements d @ [mrow]\<rparr>"
proof -
  obtain mv where mv: "run_state (new_movement env p '''' wid MovementRelease q ''order'' oid) w =
        (mv, w\<lparr>w_tick := w_tick w + 2\<rparr>)" "movement_of p '''' wid MovementRelease q ''order'' oid mv"
      "mv_id mv = e_uuid env (w_tick w)"
    using run_new_movement [of env p "''''" wid MovementRelease q "''order''" oid w] by blast
  obtain mrow where mrow: "movement_row (e_pg env) mv = Some mrow" "mr_id mrow = mv_id mv"
    using movement_convertible [OF vc mv(2) _ ids inventory_literals(9) [OF vc] q inventory_literals(6) [OF vc]] fresh mv(3) by (auto simp: fresh_ids_def)
  have "mr_id mrow \<notin> mr_id ` set (t_movements d)" using fresh mrow(2) mv(3) by (simp add: fresh_ids_def)
  then have ins: "insert_movement (e_pg env) mv d = Inr (d\<lparr>t_movements := t_movements d @ [mrow]\<rparr>, ())"
    by (simp add: insert_movement_def mrow list_ex_key)
  have nil: "apply_log [] d = Some d" by simp
  have log: "apply_log [apply_stmt (insert_movement (e_pg env) mv)] d = Some (d\<lparr>t_movements := t_movements d @ [mrow]\<rparr>)"
    by (simp add: ins)
  from mrow mv(2) show ?thesis
    using calm w nil log
    by (intro exI [of _ mv] exI [of _ mrow])
      (simp add: mv(1) run_exec_tx_calm [where d = d] ins fresh_tx_def tx_at_def
        run_Commit_calm [where d = "d\<lparr>t_movements := t_movements d @ [mrow]\<rparr>"] del: apply_log.simps apply_stmt.simps)
qed

text \<open>The ids and quantities of stored reservations are values of their columns.\<close>

definition stored_reservation :: "pg_types \<Rightarrow> reservationRow \<Rightarrow> bool" where
  "stored_reservation pg r \<longleftrightarrow> stored_id pg (rr_order_id r) \<and> stored_id pg (rr_product_id r) \<and>
     stored_id pg (rr_warehouse_id r) \<and> int4_ok (rr_quantity r)"

lemma find_reservation_in: "find_reservation rid d = Some r \<Longrightarrow> r \<in> set (t_reservations d) \<and> rr_id r = rid"
  by (auto simp: find_reservation_def find_Some_iff)

lemma fresh_ids_close: "fresh_ids env (close_reservation rid t d) n = fresh_ids env d n"
proof -
  have "map rr_id (t_reservations (close_reservation rid t d)) = map rr_id (t_reservations d)"
    by (simp add: close_reservation_def comp_def if_distrib cong: if_cong)
  then have "rr_id ` set (t_reservations (close_reservation rid t d)) = rr_id ` set (t_reservations d)"
    by (metis list.set_map)
  then show ?thesis by (simp add: fresh_ids_def)
qed

lemma release_reserved_calm:
  assumes calm: "calm env" and vc: "varchar_keeps (e_pg env)" and wf: "inv_wf (w_db w)"
    and fresh: "fresh_ids env (w_db w) (w_tick w)" and rid: "stored_id (e_pg env) rid"
    and row: "find_reservation rid (w_db w) = Some row" "stored_reservation (e_pg env) row"
  shows "\<exists>w'. run_state (release_reserved env (inventoryUC env) rid (rowToReservation row)) w = (Inr (), w') \<and>
           released_state (e_pg env) row (w_db w) (w_db w')"
proof -
  let ?pg = "e_pg env" and ?h = "w_tick w"
  let ?t = "pg_timestamptz ?pg (e_now env (Suc (w_tick w)))"
  let ?d1 = "close_reservation rid ?t (w_db w)"
  let ?w1 = "set_tx ?h (Some \<lparr>tx_log = [], tx_aborted = False\<rparr>) (w\<lparr>w_tick := w_tick w + 3, w_db := ?d1\<rparr>)"
  have r: "rr_id row = rid" "0 < rr_quantity row"
    using find_reservation_in [OF row(1)] wf by (auto simp: inv_wf_def list_all_iff)
  have ids: "stored_id ?pg (rr_product_id row)" "stored_id ?pg (rr_warehouse_id row)" "stored_id ?pg (rr_order_id row)"
      "int4_ok (rr_quantity row)"
    using row(2) by (simp_all add: stored_reservation_def)
  have "inv_wf (w_db ?w1)" using close_reservation_wf [OF wf] by simp
  from cached_release_calm [OF calm this ids(1,2) r(2) ids(4)] obtain t w2 where
    rel: "run_state (InventoryRepository_ReleaseQuantity (uc_inventoryRepo (inventoryUC env)) (rr_product_id row)
        (rr_warehouse_id row) (rr_quantity row)) ?w1 = (Inr (), w2)"
    and w2: "w_db w2 = give_back (rr_product_id row) (rr_warehouse_id row) (rr_quantity row) t ?d1"
      "w_txs w2 = w_txs ?w1" "w_tick ?w1 \<le> w_tick w2" by auto
  have F: "fresh_ids env (w_db w2) (w_tick w2)"
    using fresh_ids_later [of env ?d1 "w_tick w" "w_tick w2"] fresh w2 by (simp add: fresh_ids_close)
  have T: "fresh_tx ?h (w_db w2) w2" using w2(2) by (simp add: fresh_tx_def tx_at_def)
  obtain mv mrow w3 where st: "run_state (do {
       mv \<leftarrow> new_movement env (rr_product_id row) '''' (rr_warehouse_id row) MovementRelease (rr_quantity row) ''order''
               (rr_order_id row);
       _ \<leftarrow> exec_tx env ?h (insert_movement ?pg mv);
       wrapE ''failed to commit transaction'' (Commit env ?h)}) w2 = (Inr (), w3)"
      "movement_row ?pg mv = Some mrow"
      "movement_of (rr_product_id row) '''' (rr_warehouse_id row) MovementRelease (rr_quantity row) ''order'' (rr_order_id row) mv"
      "w_db w3 = (w_db w2)\<lparr>t_movements := t_movements (w_db w2) @ [mrow]\<rparr>"
    using store_release_calm [OF calm vc F ids T] by blast
  have "run_state (ReservationRepository_UpdateStatus (uc_reservationRepo (inventoryUC env)) rid ''released'')
      (set_tx ?h (Some \<lparr>tx_log = [], tx_aborted = False\<rparr>) (w\<lparr>w_tick := Suc (w_tick w)\<rparr>)) = (Inr (), ?w1)"
    using calm by (simp add: inventoryUC_def NewReservationRepository_def reservationRepository_UpdateStatus_def
        run_time_now run_exec_db_calm close_statement [OF vc rid] set_tx_def numeral_3_eq_3)
  then have "run_state (release_reserved env (inventoryUC env) rid (rowToReservation row)) w = (Inr (), set_tx ?h None w3)"
    using calm st(1) by (simp add: release_reserved_def run_BeginTxx_calm rowToReservation_def rel run_Rollback)
  with st(2-4) w2(1) r(1) show ?thesis by (auto simp: released_state_def)
qed

end
