(* ===== verification/Inventory_Ledger.thy ===== *)
theory Inventory_Ledger
  imports Inventory_Stock
begin

text \<open>
  The branches of \<open>ReleaseReservation\<close> in a calm environment, and the ledger: the units a stock
  level has reserved are the units of the open reservations at its place. \<open>ReleaseReservation\<close>
  keeps it and under it gives the units of its reservation back; \<open>ReserveStock\<close> keeps it unless the
  schema requires the item of a reservation, which the service never sets.
\<close>

subsection \<open>The branches of ReleaseReservation\<close>

text \<open>What \<open>ReleaseReservation\<close> promises: the outcome \<open>r\<close> and the new state \<open>d'\<close> on every branch.\<close>

definition release_spec :: "pg_types \<Rightarrow> string \<Rightarrow> inv_db \<Rightarrow> unit result \<Rightarrow> inv_db \<Rightarrow> bool" where
  "release_spec pg rid d r d' \<longleftrightarrow>
     (case find_reservation rid d of
        None \<Rightarrow> r = Inl ErrReservationNotFound \<and> d' = d
      | Some row \<Rightarrow>
          if rr_status row \<noteq> ''reserved'' then r = Inr () \<and> d' = d
          else r = Inr () \<and> released_state pg row d d')"

definition release_ready :: "inv_db env \<Rightarrow> string \<Rightarrow> inv_db world \<Rightarrow> bool" where
  "release_ready env rid w \<longleftrightarrow>
     inv_wf (w_db w) \<and> fresh_ids env (w_db w) (w_tick w) \<and> stored_id (e_pg env) rid \<and>
     list_all (stored_reservation (e_pg env)) (t_reservations (w_db w))"

lemma get_reservation_calm:
  assumes "calm env" and "stored_id (e_pg env) rid"
  shows "run_state (ReservationRepository_GetByID (uc_reservationRepo (inventoryUC env)) rid) w =
     (case find_reservation rid (w_db w) of None \<Rightarrow> Inl ErrReservationNotFound | Some r \<Rightarrow> Inr (rowToReservation r),
      w\<lparr>w_tick := Suc (w_tick w)\<rparr>)"
  using assms
  by (simp add: inventoryUC_def NewReservationRepository_def reservationRepository_GetByID_def run_GetContext_calm
      select_reservations_def stored_id_def find_reservation_def first_row_filter split: option.splits)

lemma ReleaseReservation_calm:
  assumes "calm env" and "varchar_keeps (e_pg env)" and "release_ready env rid w"
  shows "case run_state (ReleaseReservation env (inventoryUC env) rid) w of (r, w') \<Rightarrow>
     release_spec (e_pg env) rid (w_db w) r (w_db w')"
proof (cases "find_reservation rid (w_db w)")
  case None
  with assms show ?thesis
    by (simp add: ReleaseReservation_def release_ready_def get_reservation_calm release_spec_def)
next
  case (Some row)
  let ?w = "w\<lparr>w_tick := Suc (w_tick w)\<rparr>"
  have ready: "inv_wf (w_db ?w)" "stored_id (e_pg env) rid" "stored_reservation (e_pg env) row"
      "fresh_ids env (w_db ?w) (w_tick ?w)"
    using assms(3) find_reservation_in [OF Some] fresh_ids_later [of env "w_db w" "w_tick w" "Suc (w_tick w)"]
    by (auto simp: release_ready_def list_all_iff)
  have "find_reservation rid (w_db ?w) = Some row" using Some by simp
  from release_reserved_calm [OF assms(1,2) ready(1,4,2) this ready(3)] Some ready(2) assms(1) show ?thesis
    by (auto simp: ReleaseReservation_def get_reservation_calm release_spec_def rowToReservation_def)
qed

text \<open>
  C7: every branch of \<open>ReleaseReservation\<close> in a calm environment. An unknown reservation gives
  \<open>ErrReservationNotFound\<close>; one that is not open is left as it is without an error, so that
  releasing twice is releasing once (\<^verbatim>\<open>docs/error_handling.md\<close> documents an error
  \<open>ErrReservationAlreadyReleased\<close> with status 409 for this case, which the code does not have); an open one is set to released, its units are given back
  to the stock level at its place when that level has as many reserved, and one movement is
  added. Nothing else changes.
\<close>

theorem ReleaseReservation_branches:
  assumes "calm env" and "varchar_keeps (e_pg env)" and "release_ready env rid w"
  shows "case run_state (ReleaseReservation env (inventoryUC env) rid) w of (r, w') \<Rightarrow>
     release_spec (e_pg env) rid (w_db w) r (w_db w')"
  by (rule ReleaseReservation_calm [OF assms])

lemma demo_release_ready: "release_ready ideal_env rid (idle demo_inventory)"
  using demo_sound(2) demo_fresh
  by (simp add: release_ready_def stored_id_def)
    (simp add: demo_inventory_def demo_reservation_def stored_reservation_def stored_id_def int4_ok_def)

lemma demo_find: "find_reservation ''r1'' demo_inventory = Some demo_reservation"
  "rr_status demo_reservation = ''reserved''"
  by (simp_all add: find_reservation_def demo_inventory_def demo_reservation_def)

theorem ReleaseReservation_branches_witness:
  "case run_state (ReleaseReservation ideal_env (inventoryUC ideal_env) ''r1'') (idle demo_inventory) of (r, w') \<Rightarrow>
     r = Inr () \<and> released_state ideal_pg demo_reservation demo_inventory (w_db w')"
  using ReleaseReservation_branches [of ideal_env "''r1''" "idle demo_inventory"] demo_release_ready
  by (simp add: release_spec_def demo_find split: prod.splits)

subsection \<open>The ledger of reserved units\<close>

definition open_at :: "string \<Rightarrow> string \<Rightarrow> reservationRow \<Rightarrow> bool" where
  "open_at p wh r \<longleftrightarrow> rr_status r = ''reserved'' \<and> rr_product_id r = p \<and> rr_warehouse_id r = wh"

definition units_open :: "string \<Rightarrow> string \<Rightarrow> reservationRow list \<Rightarrow> int" where
  "units_open p wh rs = sum_list (map rr_quantity (filter (open_at p wh) rs))"

definition ledger :: "inv_db \<Rightarrow> bool" where
  "ledger d \<longleftrightarrow> list_all (\<lambda>i. iv_quantity_reserved i =
     units_open (iv_product_id i) (iv_warehouse_id i) (t_reservations d)) (t_inventory d)"

lemma units_open_append [simp]: "units_open p wh (xs @ ys) = units_open p wh xs + units_open p wh ys"
  by (simp add: units_open_def)

lemma units_open_at_least:
  assumes "list_all (\<lambda>r. 0 < rr_quantity r) rs" and "r \<in> set rs" and "open_at p wh r"
  shows "rr_quantity r \<le> units_open p wh rs"
proof -
  have pos: "0 \<le> rr_quantity x" if "x \<in> set rs" for x
    using that assms(1) by (auto simp: list_all_iff less_imp_le)
  have "rr_quantity r \<in> set (map rr_quantity (filter (open_at p wh) rs))"
    using assms(2,3) by simp
  then show ?thesis
    unfolding units_open_def by (rule member_le_sum_list) (auto dest: pos)
qed

text \<open>Closing one open reservation takes its units out of the sum at its place only.\<close>

lemma units_open_close:
  assumes "distinct (map rr_id rs)" and "row \<in> set rs" and "rr_status row = ''reserved''"
  shows "units_open p wh (map (\<lambda>r. if rr_id r = rr_id row then r\<lparr>rr_status := ''released'', rr_updated_at := t\<rparr> else r) rs) =
     units_open p wh rs - (if rr_product_id row = p \<and> rr_warehouse_id row = wh then rr_quantity row else 0)"
  using assms
proof (induction rs)
  case (Cons r rs)
  let ?f = "\<lambda>r. if rr_id r = rr_id row then r\<lparr>rr_status := ''released'', rr_updated_at := t\<rparr> else r"
  show ?case
  proof (cases "row = r")
    case True
    with Cons.prems(1) have "map ?f rs = rs" by (intro map_idI) (auto simp: image_iff)
    with True Cons.prems(3) show ?thesis by (simp add: units_open_def open_at_def)
  next
    case False
    with Cons.prems have "row \<in> set rs" "rr_id r \<noteq> rr_id row" by auto
    with Cons.IH Cons.prems show ?thesis by (simp add: units_open_def open_at_def)
  qed
qed simp

lemma at_stock_reserved:
  assumes "ledger d" and "\<And>i. iv_product_id (f i) = iv_product_id i" "\<And>i. iv_warehouse_id (f i) = iv_warehouse_id i"
    and "\<And>i. iv_quantity_reserved (f i) = iv_quantity_reserved i + q"
    and "\<And>a b. units_open a b rs = units_open a b (t_reservations d) + (if a = p \<and> b = wh then q else 0)"
    and "t_inventory d' = map (\<lambda>i. if at_place p wh i then f i else i) (t_inventory d)" and "t_reservations d' = rs"
  shows "ledger d'"
  using assms(1) by (auto simp: ledger_def list_all_iff assms(2-7) at_place_def)

lemma reserved_ledger:
  assumes "ledger d" and "reserved_state pg req wid rs d d'" and "varchar_keeps pg"
    and "stored_id pg (rq_product_id req)" and "stored_id pg wid"
  shows "ledger d'"
proof -
  from assms(2) obtain t row mv mrow where row: "reservation_row pg rs = Some row" "reservation_for req wid rs"
    and d': "d' = (at_stock (rq_product_id req) wid (take_units (rq_quantity req) t) d)
               \<lparr>t_reservations := t_reservations d @ [row], t_movements := t_movements d @ [mrow]\<rparr>"
    by (auto simp: reserved_state_def)
  from row assms(4,5) inventory_literals(1) [OF assms(3)] have "rr_product_id row = rq_product_id req" "rr_warehouse_id row = wid"
    "rr_quantity row = rq_quantity req" "rr_status row = ''reserved''"
    by (auto simp: reservation_row_def bind_eq_Some_conv reservation_for_def stored_id_def int4_def
        split: if_splits)
  then have "units_open a b [row] = (if a = rq_product_id req \<and> b = wid then rq_quantity req else 0)" for a b
    by (simp add: units_open_def open_at_def)
  then show ?thesis
    by (intro at_stock_reserved [OF assms(1), where f = "take_units (rq_quantity req) t" and q = "rq_quantity req"
          and rs = "t_reservations d @ [row]" and p = "rq_product_id req" and wh = wid])
      (simp_all add: d' at_stock_def take_units_def)
qed

lemma released_ledger:
  assumes "ledger d" and "inv_wf d" and "row \<in> set (t_reservations d)" and "rr_status row = ''reserved''"
    and "released_state pg row d d'"
  shows "ledger d' \<and> (\<forall>i. find_stock (rr_product_id row) (rr_warehouse_id row) d = Some i \<longrightarrow>
     (\<exists>t. return_units (rr_quantity row) t i \<in> set (t_inventory d')))"
proof -
  let ?p = "rr_product_id row" and ?wh = "rr_warehouse_id row" and ?q = "rr_quantity row"
  from assms(5) obtain t t' mrow where
    d': "d' = (give_back ?p ?wh ?q t' (close_reservation (rr_id row) t d))\<lparr>t_movements := t_movements d @ [mrow]\<rparr>"
    by (auto simp: released_state_def)
  have le: "?q \<le> iv_quantity_reserved i" if "find_stock ?p ?wh d = Some i" for i
    using units_open_at_least [OF _ assms(3), of ?p ?wh] find_stock_in [OF that] assms(1,2,4)
    by (auto simp: ledger_def inv_wf_def list_all_iff open_at_def at_place_def)
  have inv': "t_inventory d' = map (\<lambda>i. if at_place ?p ?wh i then return_units ?q t' i else i) (t_inventory d)"
  proof (cases "find_stock ?p ?wh d")
    case None
    then have "map (\<lambda>i. if at_place ?p ?wh i then return_units ?q t' i else i) (t_inventory d) = t_inventory d"
      by (intro map_idI) (auto simp: find_stock_def find_None_iff)
    with None show ?thesis by (simp add: d' give_back_def)
  next
    case (Some i)
    with le [OF Some] show ?thesis by (simp add: d' give_back_def at_stock_def)
  qed
  have "ledger d'"
    by (rule at_stock_reserved [OF assms(1) _ _ _ _ inv', where q = "- ?q"])
      (use units_open_close [OF _ assms(3,4)] assms(2) in
        \<open>auto simp: return_units_def d' close_reservation_def inv_wf_def\<close>)
  moreover have "\<exists>t. return_units ?q t i \<in> set (t_inventory d')" if "find_stock ?p ?wh d = Some i" for i
    using find_stock_in [OF that] by (auto simp: inv')
  ultimately show ?thesis by blast
qed

text \<open>The units of a request are available, so that \<open>ReserveStock\<close> takes them.\<close>

definition takes_units :: "ReserveStockRequest \<Rightarrow> inv_db \<Rightarrow> bool" where
  "takes_units req d \<longleftrightarrow> 0 < rq_quantity req \<and>
     (case find_stock (rq_product_id req) (rq_warehouse_id req) d of
        None \<Rightarrow> False
      | Some i \<Rightarrow> rq_quantity req \<le> iv_quantity_on_hand i - iv_quantity_reserved i)"

text \<open>Units that are taken without a reservation are in nobody's account.\<close>

lemma leaked_units_break_ledger:
  assumes "ledger d" and "find_stock p wh d = Some i" and "0 < q" and "d' = at_stock p wh (take_units q t) d"
  shows "\<not> ledger d'"
proof
  assume "ledger d'"
  have "take_units q t i \<in> set (t_inventory d')"
    using find_stock_in [OF assms(2)] by (auto simp: assms(4) at_stock_def)
  with \<open>ledger d'\<close> find_stock_in [OF assms(2)] assms(1,3) show False
    by (auto simp: ledger_def list_all_iff assms(4) take_units_def)
qed

text \<open>
  In a calm environment \<open>ReserveStock\<close> keeps the ledger on every branch but one: with the column
  of the schema, which must not be null, it takes available units and then fails.
\<close>

lemma ReserveStock_ledger:
  assumes "calm env" and "varchar_keeps (e_pg env)" and "reserve_ready env req w" and "ledger (w_db w)"
  shows "ledger (w_db (snd (run_state (ReserveStock env (inventoryUC env) req) w))) \<longleftrightarrow>
    \<not> (s_item_required (w_db w) \<and> takes_units req (w_db w))"
proof -
  obtain r w' where run: "run_state (ReserveStock env (inventoryUC env) req) w = (r, w')" by force
  with ReserveStock_calm [OF assms(1-3)] have spec: "reserve_spec (e_pg env) req (w_db w) r (w_db w')" by simp
  have ids: "stored_id (e_pg env) (rq_product_id req)" "stored_id (e_pg env) (rq_warehouse_id req)"
    using assms(3) by (simp_all add: reserve_ready_def)
  have "ledger (w_db w') \<longleftrightarrow> \<not> (s_item_required (w_db w) \<and> takes_units req (w_db w))"
    using spec assms(4) reserved_ledger [OF assms(4) _ assms(2) ids] leaked_units_break_ledger [OF assms(4)]
    by (auto simp: reserve_spec_def takes_units_def split: option.splits if_splits)
  with run show ?thesis by simp
qed

text \<open>
  Under the ledger a release gives every unit of its reservation back. In a calm environment
  \<open>ReleaseReservation\<close> keeps the ledger on every branch, and releasing an open reservation lowers
  the reserved quantity of the stock level at its place by the quantity of the reservation.
\<close>

lemma ReleaseReservation_ledger:
  assumes "calm env" and "varchar_keeps (e_pg env)" and "release_ready env rid w" and "ledger (w_db w)"
  shows "case run_state (ReleaseReservation env (inventoryUC env) rid) w of (r, w') \<Rightarrow>
     ledger (w_db w') \<and>
     (\<forall>row i. find_reservation rid (w_db w) = Some row \<longrightarrow> rr_status row = ''reserved'' \<longrightarrow>
        find_stock (rr_product_id row) (rr_warehouse_id row) (w_db w) = Some i \<longrightarrow>
        (\<exists>t. return_units (rr_quantity row) t i \<in> set (t_inventory (w_db w'))))"
proof -
  obtain r w' where run: "run_state (ReleaseReservation env (inventoryUC env) rid) w = (r, w')" by force
  with ReleaseReservation_calm [OF assms(1-3)] have "release_spec (e_pg env) rid (w_db w) r (w_db w')" by simp
  moreover have "inv_wf (w_db w)" using assms(3) by (simp add: release_ready_def)
  moreover have "row \<in> set (t_reservations (w_db w))" if "find_reservation rid (w_db w) = Some row" for row
    using find_reservation_in [OF that] by simp
  ultimately show ?thesis
    using run assms(4) released_ledger [OF assms(4), where pg = "e_pg env" and d' = "w_db w'"]
    by (auto simp: release_spec_def split: option.splits if_splits)
qed

lemma demo_ledger: "ledger demo_inventory"
  by (simp add: ledger_def demo_inventory_def demo_stock_def demo_reservation_def units_open_def open_at_def)

text \<open>
  C21: when reservations balance. In a calm environment, let the ledger hold: what each stock
  level has reserved is the sum of the open reservations at its place. \<open>ReserveStock\<close> keeps the
  ledger, refusals included, exactly if the column \<open>order_item_id\<close> may be null or the units are
  not available; with the column of the migrations, which must not be null, every request whose
  units are available takes them, fails on the reservation and leaves a ledger that does not
  balance. \<open>ReleaseReservation\<close> keeps the ledger on every branch, and gives back exactly the units
  of its reservation, at the place where they were reserved.
\<close>

theorem reservations_balance:
  assumes "calm env" and "varchar_keeps (e_pg env)" and "ledger (w_db w)"
  shows "(reserve_ready env req w \<longrightarrow>
      (ledger (w_db (snd (run_state (ReserveStock env (inventoryUC env) req) w))) \<longleftrightarrow>
         \<not> (s_item_required (w_db w) \<and> takes_units req (w_db w)))) \<and>
    (release_ready env rid w \<longrightarrow> (case run_state (ReleaseReservation env (inventoryUC env) rid) w of (r, w') \<Rightarrow>
      ledger (w_db w') \<and>
      (\<forall>row i. find_reservation rid (w_db w) = Some row \<longrightarrow> rr_status row = ''reserved'' \<longrightarrow>
         find_stock (rr_product_id row) (rr_warehouse_id row) (w_db w) = Some i \<longrightarrow>
         (\<exists>t. return_units (rr_quantity row) t i \<in> set (t_inventory (w_db w'))))))"
  by (intro conjI impI ReserveStock_ledger [OF assms(1,2) _ assms(3)] ReleaseReservation_ledger [OF assms(1,2) _ assms(3)])

text \<open>The same tables under the schema of the migrations.\<close>

definition strict_inventory :: inv_db where
  "strict_inventory = demo_inventory\<lparr>s_item_required := True\<rparr>"

lemma strict_inventory_ok:
  "ledger strict_inventory" "reserve_ready ideal_env demo_reserve (idle strict_inventory)" "takes_units demo_reserve strict_inventory"
proof -
  show "ledger strict_inventory" using demo_ledger by (simp add: strict_inventory_def ledger_def)
  show "reserve_ready ideal_env demo_reserve (idle strict_inventory)"
    using demo_ready by (simp add: reserve_ready_def strict_inventory_def inv_wf_def fresh_ids_def cold_stock_def redis_live_def)
  have "find_stock ''p1'' ''w1'' strict_inventory = Some demo_stock"
    using demo_found by (simp add: find_stock_def strict_inventory_def)
  then show "takes_units demo_reserve strict_inventory" by (simp add: takes_units_def demo_reserve_sel demo_stock_def)
qed

theorem reservations_balance_witness:
  "ledger (w_db (snd (run_state (ReserveStock ideal_env (inventoryUC ideal_env) demo_reserve) (idle demo_inventory)))) \<and>
   \<not> ledger (w_db (snd (run_state (ReserveStock ideal_env (inventoryUC ideal_env) demo_reserve) (idle strict_inventory)))) \<and>
   (case run_state (ReleaseReservation ideal_env (inventoryUC ideal_env) ''r1'') (idle demo_inventory) of (r, w') \<Rightarrow>
     ledger (w_db w') \<and> (\<exists>t. return_units 3 t demo_stock \<in> set (t_inventory (w_db w'))))"
proof -
  have r: "rr_quantity demo_reservation = 3" "rr_product_id demo_reservation = ''p1''" "rr_warehouse_id demo_reservation = ''w1''"
    by (simp_all add: demo_reservation_def)
  have "\<not> s_item_required demo_inventory" by (simp add: demo_inventory_def)
  with r reservations_balance [of ideal_env "idle demo_inventory" demo_reserve "''r1''"] demo_ready demo_release_ready demo_ledger
    demo_find demo_found
  have "ledger (w_db (snd (run_state (ReserveStock ideal_env (inventoryUC ideal_env) demo_reserve) (idle demo_inventory))))"
    "case run_state (ReleaseReservation ideal_env (inventoryUC ideal_env) ''r1'') (idle demo_inventory) of (r, w') \<Rightarrow>
       ledger (w_db w') \<and> (\<exists>t. return_units 3 t demo_stock \<in> set (t_inventory (w_db w')))"
    by (simp_all split: prod.splits)
  moreover have "\<not> ledger (w_db (snd (run_state (ReserveStock ideal_env (inventoryUC ideal_env) demo_reserve) (idle strict_inventory))))"
    using reservations_balance [of ideal_env "idle strict_inventory" demo_reserve "''r1''"] strict_inventory_ok
    by (simp add: strict_inventory_def)
  ultimately show ?thesis by blast
qed

end
