(* ===== verification/Inventory_Events.thy ===== *)
theory Inventory_Events
  imports Inventory_Ledger
begin

text \<open>
  The inventory service as a consumer of order events
  (\<^verbatim>\<open>internal/inventory/adapter/kafka/order_event_handler.go\<close>) and the adapter that connects it
  to the use cases (\<^verbatim>\<open>cmd/inventory-service/main.go\<close>). The theory shows what the handler does
  with a well-formed event, and that whatever messages the consumer reads, retries included,
  the tables stay sound.
\<close>

subsection \<open>Events\<close>

record EventReserveRequest =
  kr_order_id :: string
  kr_product_id :: string
  kr_sku :: string
  kr_warehouse_id :: string
  kr_quantity :: int

record CreatedItem =
  ci_order_item_id :: string
  ci_product_id :: string
  ci_sku :: string
  ci_product_name :: string
  ci_quantity :: int
  ci_unit_price :: float64
  ci_total_price :: float64

record CreatedData =
  cd_order_id :: string
  cd_customer_id :: string
  cd_status :: string
  cd_currency :: string
  cd_total_amount :: float64
  cd_items :: "CreatedItem list"

record OrderCreatedEvent =
  ce_event_id :: string
  ce_event_type :: string
  ce_data :: CreatedData

record CancelledData =
  xd_order_id :: string
  xd_reservation_ids :: "string list"

record OrderCancelledEvent =
  xe_event_id :: string
  xe_event_type :: string
  xe_data :: CancelledData

definition zero_CreatedItem :: CreatedItem where
  "zero_CreatedItem = \<lparr>ci_order_item_id = '''', ci_product_id = '''', ci_sku = '''', ci_product_name = '''',
     ci_quantity = 0, ci_unit_price = Fin 0, ci_total_price = Fin 0\<rparr>"

definition zero_CreatedData :: CreatedData where
  "zero_CreatedData = \<lparr>cd_order_id = '''', cd_customer_id = '''', cd_status = '''', cd_currency = '''',
     cd_total_amount = Fin 0, cd_items = []\<rparr>"

definition zero_OrderCreatedEvent :: OrderCreatedEvent where
  "zero_OrderCreatedEvent = \<lparr>ce_event_id = '''', ce_event_type = '''', ce_data = zero_CreatedData\<rparr>"

definition zero_OrderCancelledEvent :: OrderCancelledEvent where
  "zero_OrderCancelledEvent = \<lparr>xe_event_id = '''', xe_event_type = '''',
     xe_data = \<lparr>xd_order_id = '''', xd_reservation_ids = []\<rparr>\<rparr>"

definition dec_CreatedItem :: "CreatedItem decoder" where
  "dec_CreatedItem = dec_struct
     [(''order_item_id'', fld ci_order_item_id ci_order_item_id_update dec_string),
      (''product_id'', fld ci_product_id ci_product_id_update dec_string),
      (''sku'', fld ci_sku ci_sku_update dec_string),
      (''product_name'', fld ci_product_name ci_product_name_update dec_string),
      (''quantity'', fld ci_quantity ci_quantity_update dec_int),
      (''unit_price'', fld ci_unit_price ci_unit_price_update dec_float),
      (''total_price'', fld ci_total_price ci_total_price_update dec_float)]"

definition dec_CreatedData :: "CreatedData decoder" where
  "dec_CreatedData = dec_struct
     [(''order_id'', fld cd_order_id cd_order_id_update dec_string),
      (''customer_id'', fld cd_customer_id cd_customer_id_update dec_string),
      (''status'', fld cd_status cd_status_update dec_string),
      (''currency'', fld cd_currency cd_currency_update dec_string),
      (''total_amount'', fld cd_total_amount cd_total_amount_update dec_float),
      (''items'', fld cd_items cd_items_update (dec_slice dec_CreatedItem zero_CreatedItem))]"

definition OrderCreatedEvent_fields :: "(string \<times> OrderCreatedEvent decoder) list" where
  "OrderCreatedEvent_fields =
     [(''event_id'', fld ce_event_id ce_event_id_update dec_string),
      (''event_type'', fld ce_event_type ce_event_type_update dec_string),
      (''data'', fld ce_data ce_data_update dec_CreatedData)]"

definition dec_OrderCreatedEvent :: "OrderCreatedEvent decoder" where
  "dec_OrderCreatedEvent = dec_struct OrderCreatedEvent_fields"

definition dec_CancelledData :: "CancelledData decoder" where
  "dec_CancelledData = dec_struct
     [(''order_id'', fld xd_order_id xd_order_id_update dec_string),
      (''reservation_ids'', fld xd_reservation_ids xd_reservation_ids_update (dec_slice dec_string ''''))]"

definition OrderCancelledEvent_fields :: "(string \<times> OrderCancelledEvent decoder) list" where
  "OrderCancelledEvent_fields =
     [(''event_id'', fld xe_event_id xe_event_id_update dec_string),
      (''event_type'', fld xe_event_type xe_event_type_update dec_string),
      (''data'', fld xe_data xe_data_update dec_CancelledData)]"

definition dec_OrderCancelledEvent :: "OrderCancelledEvent decoder" where
  "dec_OrderCancelledEvent = dec_struct OrderCancelledEvent_fields"

subsection \<open>The handler\<close>

text \<open>The interface \<open>InventoryUseCase\<close> of the handler's package, and the handler.\<close>

record OrderEventHandler =
  oh_ReserveStock :: "EventReserveRequest \<Rightarrow> (inv_db, unit) ioe"
  oh_ReleaseReservation :: "string \<Rightarrow> (inv_db, unit) ioe"
  oh_producer :: "inv_db MessageWriter"

fun getEventType :: "(string \<times> string) list \<Rightarrow> string" where
  "getEventType [] = ''''"
| "getEventType ((k, v) # hs) = (if k = ''event_type'' then v else getEventType hs)"

text \<open>The members of the two Go maps, in key order.\<close>

definition failed_payload :: "string \<Rightarrow> string \<Rightarrow> string \<Rightarrow> json" where
  "failed_payload orderID productID reason =
     JObj [(''data'', JObj [(''order_id'', JStr orderID), (''product_id'', JStr productID), (''reason'', JStr reason)]),
           (''event_type'', JStr ''inventory.reservation_failed'')]"

definition failed_message :: "string \<Rightarrow> string \<Rightarrow> string \<Rightarrow> Message" where
  "failed_message orderID productID reason =
     \<lparr>m_topic = ''inventory.reservation_failed'', m_key = orderID,
      m_value = Some (failed_payload orderID productID reason),
      m_headers = [(''event_type'', ''inventory.reservation_failed'')], m_offset = 0\<rparr>"

definition publishInventoryReservationFailed ::
  "inv_db env \<Rightarrow> OrderEventHandler \<Rightarrow> string \<Rightarrow> string \<Rightarrow> string \<Rightarrow> (inv_db, unit) ioe" where
  "publishInventoryReservationFailed env h orderID productID reason = do {
     msg \<leftarrow> InjectTraceHeaders env (failed_message orderID productID reason);
     oh_producer h msg
   }"

text \<open>
  The body of the loop over the items: on an error the failure is announced (an error of the
  announcement is logged) and the error of the reservation is returned.
\<close>

definition reserve_item ::
  "inv_db env \<Rightarrow> OrderEventHandler \<Rightarrow> string \<Rightarrow> CreatedItem \<Rightarrow> (inv_db, unit) ioe" where
  "reserve_item env h orderID item = do {
     r \<leftarrow> oh_ReserveStock h \<lparr>kr_order_id = orderID, kr_product_id = ci_product_id item, kr_sku = ci_sku item,
            kr_warehouse_id = '''', kr_quantity = ci_quantity item\<rparr>;
     case r of
       Inr _ \<Rightarrow> ok ()
     | Inl e \<Rightarrow> do {
         _ \<leftarrow> publishInventoryReservationFailed env h orderID (ci_product_id item) (err_text e);
         fail e
       }
   }"

definition handleOrderCreated :: "inv_db env \<Rightarrow> OrderEventHandler \<Rightarrow> Message \<Rightarrow> (inv_db, unit) ioe" where
  "handleOrderCreated env h msg =
     (case unmarshal dec_OrderCreatedEvent zero_OrderCreatedEvent (m_value msg) of
        None \<Rightarrow> fail (Wrapped ''failed to unmarshal order.created event'' ErrUnmarshal)
      | Some event \<Rightarrow>
          forE (reserve_item env h (cd_order_id (ce_data event))) (cd_items (ce_data event)))"

definition handleOrderCancelled :: "OrderEventHandler \<Rightarrow> Message \<Rightarrow> (inv_db, unit) ioe" where
  "handleOrderCancelled h msg =
     (case unmarshal dec_OrderCancelledEvent zero_OrderCancelledEvent (m_value msg) of
        None \<Rightarrow> fail (Wrapped ''failed to unmarshal order.cancelled event'' ErrUnmarshal)
      | Some event \<Rightarrow> oh_ReleaseReservation h (xd_order_id (xe_data event)))"

definition OrderEventHandler_Handle :: "inv_db env \<Rightarrow> OrderEventHandler \<Rightarrow> Message \<Rightarrow> (inv_db, unit) ioe" where
  "OrderEventHandler_Handle env h msg =
     (if getEventType (m_headers msg) = ''order.created'' then handleOrderCreated env h msg
      else if getEventType (m_headers msg) = ''order.cancelled'' then handleOrderCancelled h msg
      else ok ())"

subsection \<open>The deployed consumer (cmd/inventory-service/main.go)\<close>

definition adapter_ReserveStock ::
  "inv_db env \<Rightarrow> inventoryUseCase \<Rightarrow> EventReserveRequest \<Rightarrow> (inv_db, unit) ioe" where
  "adapter_ReserveStock env uc req =
     bindE (ReserveStock env uc \<lparr>rq_order_id = kr_order_id req, rq_product_id = kr_product_id req,
              rq_warehouse_id = kr_warehouse_id req, rq_warehouse_code = '''', rq_sku = '''',
              rq_quantity = kr_quantity req\<rparr>) (\<lambda>_. ok ())"

definition adapter_ReleaseReservation :: "inv_db env \<Rightarrow> inventoryUseCase \<Rightarrow> string \<Rightarrow> (inv_db, unit) ioe" where
  "adapter_ReleaseReservation env uc orderID = ReleaseReservation env uc orderID"

text \<open>\<open>failedEventWriter\<close> has a topic of its own.\<close>

definition order_event_handler :: "inv_db env \<Rightarrow> OrderEventHandler" where
  "order_event_handler env =
     \<lparr>oh_ReserveStock = adapter_ReserveStock env (inventoryUC env),
      oh_ReleaseReservation = adapter_ReleaseReservation env (inventoryUC env),
      oh_producer = kafka_WriteMessages env ''inventory.reservation_failed''\<rparr>"

definition orderConsumer :: "inv_db env \<Rightarrow> inv_db Consumer" where
  "orderConsumer env = NewConsumer
     \<lparr>cc_topic = ''order.created'', cc_group_id = ''inventory-service-orders'', cc_max_retries = 0,
      cc_retry_delay = 0, cc_dlq_topic = '''', cc_service = ''inventory-service''\<rparr>
     (OrderEventHandler_Handle env (order_event_handler env))"

lemmas event_decoders = unmarshal_def dec_OrderCreatedEvent_def OrderCreatedEvent_fields_def dec_CreatedData_def
  dec_CreatedItem_def dec_OrderCancelledEvent_def OrderCancelledEvent_fields_def dec_CancelledData_def fld_def field_for_def
  zero_OrderCreatedEvent_def zero_CreatedData_def zero_CreatedItem_def zero_OrderCancelledEvent_def

subsection \<open>Whatever messages arrive, the tables stay sound\<close>

lemma triple_held_retry:
  "triple (held I) (c_handler c msg) (\<lambda>_. held I) \<Longrightarrow>
     triple (held I) (retry_loop env ctx c msg attempt lastErr) (\<lambda>_. held I)"
proof (induction env ctx c msg attempt lastErr rule: retry_loop.induct)
  case (1 env ctx c msg attempt lastErr)
  have IH: "triple (held I) (retry_loop env ctx c msg (attempt + 1) (Some e)) (\<lambda>_. held I)"
    if "attempt \<le> cc_max_retries (c_config c)" for e
    using "1.IH" [of False e] that "1.prems" by simp
  have wait: "triple (held I) (wait_done env ctx) (\<lambda>_. held I)"
    by (rule triple_safe [OF invariants.safe_wait_done])
  show ?case
    by (subst retry_loop.simps)
      (auto intro!: triple_held_bind triple_ret "1.prems" IH wait split: sum.splits)
qed

lemma triple_held_consumer:
  assumes "\<And>msg. triple (held I) (c_handler c msg) (\<lambda>_. held I)"
  shows "triple (held I) (Consumer_Start env c reads) (\<lambda>_. held I)"
proof (induction reads)
  case (Cons r reads)
  have safe: "triple (held I) (metric_add m i) (\<lambda>_. held I)" "triple (held I) (sendToDLQ env c msg e) (\<lambda>_. held I)"
    "triple (held I) (CommitMessages env) (\<lambda>_. held I)" "triple (held I) (ctx_done env) (\<lambda>_. held I)" for m i msg e
    by (intro triple_safe invariants.safe_metric_add invariants.safe_sendToDLQ invariants.safe_CommitMessages
        invariants.safe_ctx_done)+
  show ?case
    by (cases r) (auto simp: consume_def handleWithRetry_def intro!: triple_held_bind triple_ret safe Cons.IH
        triple_held_retry assms split: option.splits)
qed (auto intro: triple_ret)

context stock_store
begin

lemma triple_Handle:
  assumes "rely (preserves I) env" and "inv_stmts_in (e_pg env) P I"
    and "oh_ReserveStock h = adapter_ReserveStock env uc" and "oh_ReleaseReservation h = adapter_ReleaseReservation env uc"
    and "\<And>msg. safe (preserves I) (oh_producer h msg)"
  shows "triple (held I) (OrderEventHandler_Handle env h msg) (\<lambda>_. held I)"
proof -
  have kafka: "triple (held I) (InjectTraceHeaders env m) (\<lambda>_. held I)" "triple (held I) (oh_producer h m) (\<lambda>_. held I)" for m
    by (intro triple_safe invariants.safe_InjectTraceHeaders assms(5))+
  have item: "triple (held I) (reserve_item env h oid item) (\<lambda>_. held I)" for oid item
    unfolding reserve_item_def publishInventoryReservationFailed_def assms(3) adapter_ReserveStock_def
    by (auto intro!: triple_held_bind triple_held_bindE triple_ReserveStock [OF assms(1,2)] triple_ret kafka
        split: sum.splits)
  show ?thesis
    unfolding OrderEventHandler_Handle_def handleOrderCreated_def handleOrderCancelled_def assms(4)
      adapter_ReleaseReservation_def
    by (auto intro!: triple_ret triple_held_forE item triple_ReleaseReservation [OF assms(1,2)] split: option.splits)
qed

end

lemma consumer_held:
  assumes "rely (preserves I) env" and "inv_stmts_in (e_pg env) P I" and "held I w"
  shows "I (w_db (snd (run_state (Consumer_Start env (orderConsumer env) reads) w)))"
proof -
  have "triple (held I) (Consumer_Start env (orderConsumer env) reads) (\<lambda>_. held I)"
    by (rule triple_held_consumer)
      (auto simp: orderConsumer_def NewConsumer_def order_event_handler_def
        intro!: cached_stock.triple_Handle [OF assms(1,2)] invariants.safe_kafka_WriteMessages)
  with assms(3) show ?thesis by (fastforce simp: triple_def held_def)
qed

text \<open>
  The consumer of the inventory service never oversells either. Whatever messages it reads,
  well-formed or not, with every retry of a failed one, in whatever environment whose other
  clients keep the tables sound, the tables keep their integrity and every stock level keeps
  its reserved quantity between 0 and the quantity on hand.
\<close>

theorem order_events_keep_stock_sound:
  assumes "rely (preserves stock_sound) env" and "w_txs w = (\<lambda>_. None)" and "stock_sound (w_db w)"
  shows "stock_sound (w_db (snd (run_state (Consumer_Start env (orderConsumer env) reads) w)))"
  using assms by (intro consumer_held [OF _ inv_stmts_sound]) (auto simp: held_def)

definition demo_created_event :: Message where
  "demo_created_event = \<lparr>m_topic = ''order.created'', m_key = ''o2'',
     m_value = Some (JObj [(''data'', JObj [(''order_id'', JStr ''o2''),
       (''items'', JArr [JObj [(''product_id'', JStr ''p1''), (''quantity'', JInt 5)]])])]),
     m_headers = [(''event_type'', ''order.created'')], m_offset = 0\<rparr>"

theorem order_events_keep_stock_sound_witness:
  "stock_sound (w_db (snd (run_state (Consumer_Start ideal_env (orderConsumer ideal_env)
     [Inr demo_created_event, Inl ErrCanceled, Inr demo_created_event]) (idle demo_inventory))))"
  by (rule order_events_keep_stock_sound) (simp_all add: rely_calm db_guarantee_preserves demo_sound)

subsection \<open>Events name no warehouse\<close>

text \<open>
  The handler leaves the warehouse of its requests empty, the adapter has no warehouse code to
  fall back on, and the empty string is no \<open>UUID\<close>.
\<close>

lemma stock_without_warehouse:
  assumes "\<And>n d. e_others env n d = d" and "pg_uuid (e_pg env) '''' = None"
    and "w_redis w (cache_key stock_cache (inventoryByProductWarehouseKey p '''')) = None"
  shows "\<exists>e w'. run_state (InventoryRepository_GetByProductAndWarehouse (uc_inventoryRepo (inventoryUC env)) p '''') w =
     (Inl e, w') \<and> w_db w' = w_db w \<and> w_txs w' = w_txs w"
proof -
  have "unmarshal dec_Inventory zero_Inventory None = None" by (simp add: unmarshal_def)
  with assms show ?thesis
    by (auto simp: inventoryUC_def NewInventoryCache_def InventoryCache_GetByProductAndWarehouse_def read_through_def
        run_Cache_Get redis_live_def NewInventoryRepository_def inventoryRepository_GetByProductAndWarehouse_def
        GetContext_def exec_db_def run_next_tick interfere_def select_stock_def or_same_def
        split: option.splits fault.splits)
qed

lemma reserve_item_without_warehouse:
  assumes "\<And>n d. e_others env n d = d" and "pg_uuid (e_pg env) '''' = None"
    and "w_redis w (cache_key stock_cache (inventoryByProductWarehouseKey (ci_product_id item) '''')) = None"
  shows "\<exists>e w'. run_state (reserve_item env (order_event_handler env) oid item) w = (Inl e, w') \<and> w_db w' = w_db w"
proof -
  let ?req = "\<lparr>rq_order_id = oid, rq_product_id = ci_product_id item, rq_warehouse_id = '''', rq_warehouse_code = '''',
      rq_sku = '''', rq_quantity = ci_quantity item\<rparr>"
  obtain e w1 where res: "run_state (ReserveStock env (inventoryUC env) ?req) w = (Inl e, w1)" and w1: "w_db w1 = w_db w"
  proof (cases "ci_quantity item \<le> 0")
    case False
    with stock_without_warehouse [OF assms] that show thesis
      by (auto simp: ReserveStock_def resolve_warehouse_def)
  qed (use that in \<open>auto simp: ReserveStock_def\<close>)
  obtain r w2 where pub: "run_state (publishInventoryReservationFailed env (order_event_handler env) oid (ci_product_id item)
      (err_text e)) w1 = (r, w2)" by force
  moreover have "w_db w2 = w_db w1"
    using pub by (auto simp: publishInventoryReservationFailed_def InjectTraceHeaders_def run_next_tick
        order_event_handler_def kafka_WriteMessages_def Let_def split: if_splits option.splits fault.splits)
  ultimately show ?thesis
    using res w1 by (simp add: reserve_item_def order_event_handler_def adapter_ReserveStock_def)
qed

text \<open>
  No order event reserves stock. The requests of the deployed handler name no warehouse, so
  every item of every \<open>order.created\<close> event fails: whatever the message and whatever round trips
  fail, the handler leaves the database as it was, and it reports success only for an event
  without items.
\<close>

theorem order_created_event_reserves_nothing:
  assumes "\<And>n d. e_others env n d = d" and "pg_uuid (e_pg env) '''' = None"
    and "\<And>p. w_redis w (cache_key stock_cache (inventoryByProductWarehouseKey p '''')) = None"
    and "getEventType (m_headers msg) = ''order.created''"
  shows "case run_state (OrderEventHandler_Handle env (order_event_handler env) msg) w of (r, w') \<Rightarrow>
     w_db w' = w_db w \<and>
     (r = Inr () \<longleftrightarrow> (\<exists>ev. unmarshal dec_OrderCreatedEvent zero_OrderCreatedEvent (m_value msg) = Some ev \<and>
        cd_items (ce_data ev) = []))"
proof (cases "unmarshal dec_OrderCreatedEvent zero_OrderCreatedEvent (m_value msg)")
  case (Some ev)
  show ?thesis
  proof (cases "cd_items (ce_data ev)")
    case (Cons item items)
    obtain e w' where "run_state (reserve_item env (order_event_handler env) (cd_order_id (ce_data ev)) item) w = (Inl e, w')"
        "w_db w' = w_db w"
      using reserve_item_without_warehouse [OF assms(1-3)] by blast
    with Cons Some assms(4) show ?thesis by (simp add: OrderEventHandler_Handle_def handleOrderCreated_def)
  qed (use Some assms(4) in \<open>simp add: OrderEventHandler_Handle_def handleOrderCreated_def\<close>)
qed (use assms(4) in \<open>simp add: OrderEventHandler_Handle_def handleOrderCreated_def\<close>)

text \<open>PostgreSQL's \<open>UUID\<close> rejects the empty string.\<close>

definition strict_env :: "'db env" where
  "strict_env = ideal_env\<lparr>e_pg := ideal_pg\<lparr>pg_uuid := (\<lambda>s. if s = '''' then None else Some s)\<rparr>\<rparr>"

lemma strict_env_sel [simp]:
  "e_others strict_env n d = d" "e_fault strict_env n = None" "e_uuid strict_env n = e_uuid ideal_env n"
  "e_writer_ok strict_env wt mt \<longleftrightarrow> (wt = '''') \<noteq> (mt = '''')" "e_trace strict_env n = []"
  "pg_uuid (e_pg strict_env) s = (if s = '''' then None else Some s)" "calm strict_env"
  by (simp_all add: strict_env_def calm_def)

theorem order_created_event_reserves_nothing_witness:
  "case run_state (OrderEventHandler_Handle strict_env (order_event_handler strict_env) demo_created_event)
      (idle demo_inventory) of (r, w') \<Rightarrow> w_db w' = demo_inventory \<and> r \<noteq> Inr ()"
proof -
  have "getEventType (m_headers demo_created_event) = ''order.created''"
    by (simp add: demo_created_event_def)
  moreover have "\<exists>ev. unmarshal dec_OrderCreatedEvent zero_OrderCreatedEvent (m_value demo_created_event) = Some ev \<and>
      cd_items (ce_data ev) \<noteq> []"
    by (simp add: demo_created_event_def event_decoders int64_ok_def)
  ultimately show ?thesis
    using order_created_event_reserves_nothing [of strict_env "idle demo_inventory" demo_created_event] by auto
qed

end
