(* ===== verification/Order_Events.thy ===== *)
theory Order_Events
  imports Order_Status Inventory_Events
begin

text \<open>
  The order service as a consumer of inventory events
  (\<^verbatim>\<open>internal/order/adapter/kafka/inventory_event_handler.go\<close>): a reservation confirms the
  order, a failed reservation cancels it. The theory shows which use case each message runs,
  that the consumer keeps the guarantees of the service, and that the two services agree on
  the form of a failure event: what the inventory service writes, the order service cancels.
\<close>

subsection \<open>Events\<close>

record EventReservation =
  vr_id :: string
  vr_order_id :: string
  vr_product_id :: string
  vr_warehouse_id :: string
  vr_quantity :: int

record ReservedData =
  vd_order_id :: string
  vd_reservation :: EventReservation

record InventoryReservedEvent =
  ve_event_id :: string
  ve_event_type :: string
  ve_data :: ReservedData

record FailedData =
  fd_order_id :: string
  fd_product_id :: string
  fd_reason :: string

record InventoryReservationFailedEvent =
  fe_event_id :: string
  fe_event_type :: string
  fe_data :: FailedData

definition zero_InventoryReservedEvent :: InventoryReservedEvent where
  "zero_InventoryReservedEvent = \<lparr>ve_event_id = '''', ve_event_type = '''', ve_data = \<lparr>vd_order_id = '''',
     vd_reservation = \<lparr>vr_id = '''', vr_order_id = '''', vr_product_id = '''', vr_warehouse_id = '''', vr_quantity = 0\<rparr>\<rparr>\<rparr>"

definition zero_ReservationFailedEvent :: InventoryReservationFailedEvent where
  "zero_ReservationFailedEvent = \<lparr>fe_event_id = '''', fe_event_type = '''',
     fe_data = \<lparr>fd_order_id = '''', fd_product_id = '''', fd_reason = ''''\<rparr>\<rparr>"

definition dec_EventReservation :: "EventReservation decoder" where
  "dec_EventReservation = dec_struct
     [(''id'', fld vr_id vr_id_update dec_string), (''order_id'', fld vr_order_id vr_order_id_update dec_string),
      (''product_id'', fld vr_product_id vr_product_id_update dec_string),
      (''warehouse_id'', fld vr_warehouse_id vr_warehouse_id_update dec_string),
      (''quantity'', fld vr_quantity vr_quantity_update dec_int)]"

definition dec_ReservedEvent :: "InventoryReservedEvent decoder" where
  "dec_ReservedEvent = dec_struct
     [(''event_id'', fld ve_event_id ve_event_id_update dec_string),
      (''event_type'', fld ve_event_type ve_event_type_update dec_string),
      (''data'', fld ve_data ve_data_update (dec_struct
         [(''order_id'', fld vd_order_id vd_order_id_update dec_string),
          (''reservation'', fld vd_reservation vd_reservation_update dec_EventReservation)]))]"

definition dec_ReservationFailedEvent :: "InventoryReservationFailedEvent decoder" where
  "dec_ReservationFailedEvent = dec_struct
     [(''event_id'', fld fe_event_id fe_event_id_update dec_string),
      (''event_type'', fld fe_event_type fe_event_type_update dec_string),
      (''data'', fld fe_data fe_data_update (dec_struct
         [(''order_id'', fld fd_order_id fd_order_id_update dec_string),
          (''product_id'', fld fd_product_id fd_product_id_update dec_string),
          (''reason'', fld fd_reason fd_reason_update dec_string)]))]"

text \<open>The anonymous struct of \<open>handleInventoryReleased\<close>: the order id in \<open>data\<close>.\<close>

definition dec_Released :: "string decoder" where
  "dec_Released = dec_struct [(''data'', dec_struct [(''order_id'', dec_string)])]"

subsection \<open>The handler\<close>

text \<open>The interface \<open>OrderUseCase\<close> of the handler's package.\<close>

record InventoryEventHandler =
  ih_ConfirmOrder :: "string \<Rightarrow> (order_db, unit) ioe"
  ih_CancelOrder :: "string \<Rightarrow> string \<Rightarrow> (order_db, unit) ioe"

fun getOrderEventType :: "(string \<times> string) list \<Rightarrow> string" where
  "getOrderEventType [] = ''''"
| "getOrderEventType ((k, v) # hs) = (if k = ''event_type'' then v else getOrderEventType hs)"

definition handleInventoryReserved :: "InventoryEventHandler \<Rightarrow> Message \<Rightarrow> (order_db, unit) ioe" where
  "handleInventoryReserved h msg =
     (case unmarshal dec_ReservedEvent zero_InventoryReservedEvent (m_value msg) of
        None \<Rightarrow> fail (Wrapped ''failed to unmarshal inventory.reserved event'' ErrUnmarshal)
      | Some event \<Rightarrow> ih_ConfirmOrder h (vd_order_id (ve_data event)))"

definition handleReservationFailed :: "InventoryEventHandler \<Rightarrow> Message \<Rightarrow> (order_db, unit) ioe" where
  "handleReservationFailed h msg =
     (case unmarshal dec_ReservationFailedEvent zero_ReservationFailedEvent (m_value msg) of
        None \<Rightarrow> fail (Wrapped ''failed to unmarshal inventory.reservation_failed event'' ErrUnmarshal)
      | Some event \<Rightarrow> ih_CancelOrder h (fd_order_id (fe_data event)) (fd_reason (fe_data event)))"

definition handleInventoryReleased :: "Message \<Rightarrow> (order_db, unit) ioe" where
  "handleInventoryReleased msg =
     (case unmarshal dec_Released '''' (m_value msg) of
        None \<Rightarrow> fail (Wrapped ''failed to unmarshal inventory.released event'' ErrUnmarshal)
      | Some _ \<Rightarrow> ok ())"

definition InventoryEventHandler_Handle :: "InventoryEventHandler \<Rightarrow> Message \<Rightarrow> (order_db, unit) ioe" where
  "InventoryEventHandler_Handle h msg =
     (let eventType = getOrderEventType (m_headers msg)
      in if eventType = ''inventory.reserved'' then handleInventoryReserved h msg
         else if eventType = ''inventory.reservation_failed'' then handleReservationFailed h msg
         else if eventType = ''inventory.released'' then handleInventoryReleased msg
         else ok ())"

subsection \<open>The deployed consumer (cmd/order-service/main.go)\<close>

definition inventory_event_handler :: "order_db env \<Rightarrow> InventoryEventHandler" where
  "inventory_event_handler env =
     \<lparr>ih_ConfirmOrder = ConfirmOrder env (orderUC env), ih_CancelOrder = CancelOrder env (orderUC env)\<rparr>"

definition inventoryConsumer :: "order_db env \<Rightarrow> order_db Consumer" where
  "inventoryConsumer env = NewConsumer
     \<lparr>cc_topic = ''inventory.reserved'', cc_group_id = ''order-service-inventory'', cc_max_retries = 0,
      cc_retry_delay = 0, cc_dlq_topic = '''', cc_service = ''order-service''\<rparr>
     (InventoryEventHandler_Handle (inventory_event_handler env))"

subsection \<open>The two services agree on failure events\<close>

lemma getOrderEventType_carrier: "getOrderEventType hs = KafkaMessageCarrier_Get hs ''event_type''"
  by (induction hs rule: getOrderEventType.induct) auto

lemma foldl_carrier_get:
  "k \<notin> fst ` set kvs \<Longrightarrow>
     KafkaMessageCarrier_Get (foldl (\<lambda>hs (k, v). KafkaMessageCarrier_Set hs k v) hs kvs) k = KafkaMessageCarrier_Get hs k"
  by (induction kvs arbitrary: hs) (auto simp: carrier_get_set)

text \<open>
  C32: the two services agree on failure events. For the message that
  \<open>publishInventoryReservationFailed\<close> builds, trace headers included, the handler of the order
  service runs \<open>CancelOrder\<close> for exactly that order with exactly that reason.
\<close>

theorem failure_event_cancels_order:
  assumes "''event_type'' \<notin> fst ` set (e_trace env (w_tick w))"
    and "run_state (InjectTraceHeaders env (failed_message oid pid reason)) w = (msg, w')"
  shows "InventoryEventHandler_Handle h msg = ih_CancelOrder h oid reason"
proof -
  from assms have "KafkaMessageCarrier_Get (m_headers msg) ''event_type'' = ''inventory.reservation_failed''"
    "m_value msg = Some (failed_payload oid pid reason)"
    by (auto simp: InjectTraceHeaders_def run_next_tick failed_message_def foldl_carrier_get)
  then show ?thesis
    by (simp add: InventoryEventHandler_Handle_def getOrderEventType_carrier handleReservationFailed_def
        failed_payload_def unmarshal_def dec_ReservationFailedEvent_def zero_ReservationFailedEvent_def fld_def field_for_def)
qed

theorem failure_event_cancels_order_witness:
  "InventoryEventHandler_Handle (inventory_event_handler strict_env) (failed_message ''o1'' ''p1'' ''insufficient stock'') =
     ih_CancelOrder (inventory_event_handler strict_env) ''o1'' ''insufficient stock''"
  by (rule failure_event_cancels_order [of "ideal_env :: inv_db env" "idle demo_inventory" "''o1''" "''p1''" "''insufficient stock''"])
    (simp_all add: InjectTraceHeaders_def run_next_tick)

subsection \<open>The consumer keeps the guarantees of the service\<close>

context order_guarantee
begin

lemma safe_inventory_events:
  assumes "order_reader env (orderUC env)" and "rely R env" and "order_stmts_in (e_pg env) R"
  shows "safe R (Consumer_Start env (inventoryConsumer env) reads)"
  by (rule safe_Consumer_Start)
    (auto simp: inventoryConsumer_def NewConsumer_def inventory_event_handler_def InventoryEventHandler_Handle_def
      handleInventoryReserved_def handleReservationFailed_def handleInventoryReleased_def Let_def
      intro!: safe_intros safe_use_cases assms)

end

text \<open>
  Whatever messages the consumer of the order service reads, with every retry of a failed
  one, in whatever environment whose other clients keep the same guarantees, the tables keep
  their integrity, and no order, item or event is lost or changed but for its status.
\<close>

theorem inventory_events_keep_orders:
  assumes "rely (preserves orders_wf) env" and "rely orders_extend env" and "w_txs w = (\<lambda>_. None)" and "orders_wf (w_db w)"
  shows "orders_wf (w_db (snd (run_state (Consumer_Start env (inventoryConsumer env) reads) w))) \<and>
    orders_extend (w_db w) (w_db (snd (run_state (Consumer_Start env (inventoryConsumer env) reads) w)))"
proof -
  have "preserves orders_wf (w_db w) (w_db (snd (run_state (Consumer_Start env (inventoryConsumer env) reads) w)))"
    using integrity.safe_inventory_events [OF cached_reader.order_reader_axioms assms(1) order_stmts_wf] assms(3)
    by (simp add: safe_def)
  moreover have "orders_extend (w_db w) (w_db (snd (run_state (Consumer_Start env (inventoryConsumer env) reads) w)))"
    using durability.safe_inventory_events [OF cached_reader.order_reader_axioms assms(2) order_stmts_extend] assms(3)
    by (simp add: safe_def)
  ultimately show ?thesis using assms(4) by (simp add: preserves_def)
qed

theorem inventory_events_keep_orders_witness:
  "orders_wf (w_db (snd (run_state (Consumer_Start ideal_env (inventoryConsumer ideal_env)
     [Inr (failed_message ''o1'' ''p1'' ''insufficient stock'')]) (idle demo_orders))))"
  using inventory_events_keep_orders [of ideal_env "idle demo_orders" "[Inr (failed_message ''o1'' ''p1'' ''insufficient stock'')]"]
  by (simp add: rely_calm db_guarantee_preserves durability.db_guarantee_axioms demo_orders_wf)

end
