(* ===== verification/Http_Response.thy ===== *)
theory Http_Response
  imports Platform
begin

text \<open>
  What the HTTP handlers of both services share: requests as the handlers read them, the
  response envelope (\<^verbatim>\<open>pkg/response/response.go\<close>), \<open>strconv.Atoi\<close> and the number of pages.
  The router chi resolves the path: a request carries the values of its URL parameters, query
  parameters and headers (the empty string when absent) and the first JSON value of its body.
\<close>

subsection \<open>Requests and responses\<close>

record HttpRequest =
  hq_param :: "string \<Rightarrow> string"
  hq_query :: "string \<Rightarrow> string"
  hq_header :: "string \<Rightarrow> string"
  hq_body :: json_text

text \<open>The body is missing when it could not be encoded: the status has been sent by then.\<close>

record HttpResponse =
  hp_status :: int
  hp_body :: json_text

definition response_JSON :: "int \<Rightarrow> json_text \<Rightarrow> HttpResponse" where
  "response_JSON status data =
     \<lparr>hp_status = status,
      hp_body = enc_object [(''success'', Some (JBool (200 \<le> status \<and> status < 300))), (''data'', data)]\<rparr>"

definition response_Error :: "int \<Rightarrow> string \<Rightarrow> string \<Rightarrow> HttpResponse" where
  "response_Error status code message =
     \<lparr>hp_status = status,
      hp_body = enc_object [(''success'', Some (JBool False)),
        (''error'', Some (JObj [(''code'', JStr code), (''message'', JStr message)]))]\<rparr>"

text \<open>
  \<open>int(math.Ceil(float64(total) / float64(limit)))\<close>; \<open>None\<close> where the language leaves the
  conversion to the implementation.
\<close>

definition totalPages :: "int \<Rightarrow> int \<Rightarrow> int option" where
  "totalPages tot limit = int_of_float (fceil (fdiv (float_of_int tot) (float_of_int limit)))"

definition response_JSONWithPagination :: "int \<Rightarrow> json_text \<Rightarrow> int \<Rightarrow> int \<Rightarrow> int \<Rightarrow> HttpResponse" where
  "response_JSONWithPagination status data tot limit offset =
     \<lparr>hp_status = status,
      hp_body = enc_object [(''success'', Some (JBool True)), (''data'', data),
        (''meta'', enc_object [(''total'', Some (JInt tot)), (''limit'', Some (JInt limit)),
           (''offset'', Some (JInt offset)), (''total_pages'', map_option JInt (totalPages tot limit))])]\<rparr>"

subsection \<open>strconv.Atoi, its error ignored\<close>

text \<open>A text that is no number gives 0, a number out of range the nearest bound.\<close>

definition is_digit :: "char \<Rightarrow> bool" where
  "is_digit c \<longleftrightarrow> 48 \<le> (of_char c :: nat) \<and> (of_char c :: nat) \<le> 57"

definition decimal :: "string \<Rightarrow> int" where
  "decimal s = foldl (\<lambda>n c. n * 10 + (of_char c - 48)) 0 s"

definition clamp64 :: "int \<Rightarrow> int" where
  "clamp64 i = (if i < - (2 ^ 63) then - (2 ^ 63) else if 2 ^ 63 \<le> i then 2 ^ 63 - 1 else i)"

definition unsigned_value :: "string \<Rightarrow> int option" where
  "unsigned_value s = (if s \<noteq> [] \<and> list_all is_digit s then Some (decimal s) else None)"

definition atoi :: "string \<Rightarrow> int" where
  "atoi s =
     (case (case s of c # cs \<Rightarrow> if c = CHR ''-'' then map_option uminus (unsigned_value cs)
                                else if c = CHR ''+'' then unsigned_value cs else unsigned_value s
            | [] \<Rightarrow> None) of
        None \<Rightarrow> 0
      | Some i \<Rightarrow> clamp64 i)"

subsection \<open>Properties\<close>

lemma ceiling_div:
  assumes "0 < b"
  shows "\<lceil>of_int a / (of_int b :: rat)\<rceil> = (a + b - 1) div b"
proof (rule ceiling_unique)
  have b: "(0 :: rat) < of_int b" using assms by simp
  have eq: "a + b - 1 = (a + b - 1) div b * b + (a + b - 1) mod b" by simp
  have m: "0 \<le> (a + b - 1) mod b" "(a + b - 1) mod b < b" using assms by simp_all
  have "((a + b - 1) div b - 1) * b < a" unfolding left_diff_distrib using eq m by linarith
  then have "of_int (((a + b - 1) div b - 1) * b) < (of_int a :: rat)" by (simp only: of_int_less_iff)
  then show "of_int ((a + b - 1) div b) - 1 < (of_int a / of_int b :: rat)"
    unfolding pos_less_divide_eq [OF b] by simp
  have "a \<le> (a + b - 1) div b * b" using eq m by linarith
  then have "of_int a \<le> (of_int ((a + b - 1) div b * b) :: rat)" by (simp only: of_int_le_iff)
  then show "(of_int a / of_int b :: rat) \<le> of_int ((a + b - 1) div b)"
    unfolding pos_divide_le_eq [OF b] by simp
qed

text \<open>
  The number of pages is exact although it is computed in floating point: for totals and
  limits below \<open>2 ^ 53\<close> it is the least number of pages of that size that hold all elements.
\<close>

theorem totalPages_exact:
  assumes "0 \<le> tot" and "tot < 2 ^ 53" and "0 < limit" and "limit < 2 ^ 53"
  shows "totalPages tot limit = Some ((tot + limit - 1) div limit)"
proof -
  let ?p = "(tot + limit - 1) div limit"
  have "fdiv (float_of_int tot) (float_of_int limit) = Fin (round53 (of_int tot / of_int limit))"
    using assms by (simp add: round53_quotient_finite)
  then have ceil: "fceil (fdiv (float_of_int tot) (float_of_int limit)) = Fin (of_int ?p)"
    using assms by (simp add: ceiling_round53_quotient ceiling_div)
  have "0 \<le> ?p" using assms by (intro pos_imp_zdiv_nonneg_iff [THEN iffD2]) auto
  moreover have "?p \<le> tot + limit - 1"
  proof -
    have "?p * limit + (tot + limit - 1) mod limit = tot + limit - 1" by simp
    moreover have "0 \<le> (tot + limit - 1) mod limit" using assms by simp
    moreover have "?p * 1 \<le> ?p * limit" using \<open>0 \<le> ?p\<close> assms by (intro mult_left_mono) auto
    ultimately show ?thesis by linarith
  qed
  ultimately show ?thesis using assms ceil by (simp add: totalPages_def Let_def)
qed

theorem totalPages_exact_witness:
  "totalPages 41 20 = Some 3"
  using totalPages_exact [of 41 20] by simp

end
