(* ===== verification/Order_Http.thy ===== *)
theory Order_Http
  imports Order_Status Http_Response
begin

text \<open>
  The HTTP handlers of the order service (\<^verbatim>\<open>internal/order/adapter/httpd/handler.go\<close>): decoding
  of the request, the use case it runs, and the response for each of its outcomes.
\<close>

subsection \<open>Request bodies\<close>

definition zero_OrderItemRequest :: OrderItemRequest where
  "zero_OrderItemRequest = \<lparr>ri_product_id = '''', ri_sku = '''', ri_product_name = '''', ri_quantity = 0,
     ri_unit_price = Fin 0\<rparr>"

definition zero_CreateOrderRequest :: CreateOrderRequest where
  "zero_CreateOrderRequest = \<lparr>r_customer_id = '''', r_currency = '''', r_items = [],
     r_shipping_address = zero_Address, r_idempotency_key = ''''\<rparr>"

definition dec_OrderItemRequest :: "OrderItemRequest decoder" where
  "dec_OrderItemRequest = dec_struct
     [(''product_id'', fld ri_product_id ri_product_id_update dec_string),
      (''sku'', fld ri_sku ri_sku_update dec_string),
      (''product_name'', fld ri_product_name ri_product_name_update dec_string),
      (''quantity'', fld ri_quantity ri_quantity_update dec_int),
      (''unit_price'', fld ri_unit_price ri_unit_price_update dec_float)]"

definition dec_CreateOrderRequest :: "CreateOrderRequest decoder" where
  "dec_CreateOrderRequest = dec_struct
     [(''customer_id'', fld r_customer_id r_customer_id_update dec_string),
      (''currency'', fld r_currency r_currency_update dec_string),
      (''items'', fld r_items r_items_update (dec_slice dec_OrderItemRequest zero_OrderItemRequest)),
      (''shipping_address'', fld r_shipping_address r_shipping_address_update dec_Address),
      (''idempotency_key'', fld r_idempotency_key r_idempotency_key_update dec_string)]"

text \<open>The anonymous struct of \<open>CancelOrder\<close>.\<close>

definition dec_reason :: "string decoder" where
  "dec_reason = dec_struct [(''reason'', dec_string)]"

subsection \<open>Handlers\<close>

definition invalid_body :: HttpResponse where
  "invalid_body = response_Error 400 ''INVALID_REQUEST'' ''Invalid request body''"

definition order_handleError :: "go_error \<Rightarrow> HttpResponse" where
  "order_handleError e =
     (let s = err_text e
      in if s = ''order not found'' then response_Error 404 ''NOT_FOUND'' ''Order not found''
         else if s = ''order is not cancellable''
         then response_Error 409 ''ORDER_NOT_CANCELLABLE'' ''Order cannot be cancelled''
         else if s = ''order must contain at least one item''
         then response_Error 400 ''EMPTY_CART'' ''Order must contain at least one item''
         else if s = ''quantity must be greater than 0''
         then response_Error 400 ''INVALID_QUANTITY'' ''Quantity must be greater than 0''
         else if s = ''duplicate idempotency key''
         then response_Error 409 ''DUPLICATE_IDEMPOTENCY_KEY'' ''An order with this idempotency key already exists''
         else response_Error 500 ''INTERNAL_ERROR'' ''An internal error occurred'')"

text \<open>A pointer to an order as response data.\<close>

definition order_data :: "Order option \<Rightarrow> json_text" where
  "order_data ord = (case ord of None \<Rightarrow> Some JNull | Some x \<Rightarrow> enc_Order x)"

definition with_header_key :: "HttpRequest \<Rightarrow> CreateOrderRequest \<Rightarrow> CreateOrderRequest" where
  "with_header_key rq req =
     (if hq_header rq ''Idempotency-Key'' = '''' then req
      else req\<lparr>r_idempotency_key := hq_header rq ''Idempotency-Key''\<rparr>)"

definition OrderHandler_CreateOrder ::
  "order_db env \<Rightarrow> createOrderUseCase \<Rightarrow> HttpRequest \<Rightarrow> (order_db, HttpResponse) io" where
  "OrderHandler_CreateOrder env uc rq =
     (case unmarshal dec_CreateOrderRequest zero_CreateOrderRequest (hq_body rq) of
        None \<Rightarrow> ret invalid_body
      | Some req \<Rightarrow> do {
          r \<leftarrow> CreateOrder env uc (with_header_key rq req);
          case snd r of
            Some e \<Rightarrow>
              if e = ErrDuplicateIdempotencyKey then ret (response_JSON 409 (order_data (fst r)))
              else do {
                _ \<leftarrow> metric_add [''orders_failed_total'', ''order-service'', err_text e] 1;
                ret (order_handleError e)
              }
          | None \<Rightarrow> do {
              _ \<leftarrow> metric_add [''orders_created_total'', ''order-service''] 1;
              ret (response_JSON 201 (order_data (fst r)))
            }
        })"

definition OrderHandler_GetOrder ::
  "order_db env \<Rightarrow> createOrderUseCase \<Rightarrow> HttpRequest \<Rightarrow> (order_db, HttpResponse) io" where
  "OrderHandler_GetOrder env uc rq = do {
     r \<leftarrow> GetOrder env uc (hq_param rq ''id'');
     ret (case r of Inl e \<Rightarrow> order_handleError e | Inr ord \<Rightarrow> response_JSON 200 (enc_Order ord))
   }"

definition OrderHandler_ListOrders ::
  "order_db env \<Rightarrow> createOrderUseCase \<Rightarrow> HttpRequest \<Rightarrow> (order_db, HttpResponse) io" where
  "OrderHandler_ListOrders env uc rq =
     (let limit = (if atoi (hq_query rq ''limit'') \<le> 0 then 20 else atoi (hq_query rq ''limit''));
          offset = atoi (hq_query rq ''offset'')
      in do {
        r \<leftarrow> ListOrders env uc (hq_query rq ''customer_id'') limit offset;
        ret (case r of
            Inl e \<Rightarrow> order_handleError e
          | Inr (orders, n) \<Rightarrow>
              response_JSONWithPagination 200 (map_option JArr (enc_list enc_Order orders)) n limit offset)
      })"

definition OrderHandler_CancelOrder ::
  "order_db env \<Rightarrow> createOrderUseCase \<Rightarrow> HttpRequest \<Rightarrow> (order_db, HttpResponse) io" where
  "OrderHandler_CancelOrder env uc rq =
     (case unmarshal dec_reason '''' (hq_body rq) of
        None \<Rightarrow> ret invalid_body
      | Some reason \<Rightarrow> do {
          r \<leftarrow> CancelOrder env uc (hq_param rq ''id'') reason;
          case r of
            Inl e \<Rightarrow> do {
              _ \<leftarrow> metric_add [''orders_failed_total'', ''order-service'', err_text e] 1;
              ret (order_handleError e)
            }
          | Inr _ \<Rightarrow> do {
              _ \<leftarrow> metric_add [''orders_cancelled_total'', ''order-service''] 1;
              ret (response_JSON 200 (Some (JObj [(''status'', JStr ''cancelled'')])))
            }
        })"

text \<open>The routes, under the mount point of the service.\<close>

datatype order_endpoint = EpCreateOrder | EpGetOrder | EpListOrders | EpCancelOrder

definition order_Routes :: "(string \<times> string \<times> order_endpoint) list" where
  "order_Routes = [(''POST'', ''/'', EpCreateOrder), (''GET'', ''/{id}'', EpGetOrder), (''GET'', ''/'', EpListOrders),
     (''POST'', ''/{id}/cancel'', EpCancelOrder)]"

fun order_endpoint_handler ::
  "order_db env \<Rightarrow> createOrderUseCase \<Rightarrow> order_endpoint \<Rightarrow> HttpRequest \<Rightarrow> (order_db, HttpResponse) io" where
  "order_endpoint_handler env uc EpCreateOrder = OrderHandler_CreateOrder env uc"
| "order_endpoint_handler env uc EpGetOrder = OrderHandler_GetOrder env uc"
| "order_endpoint_handler env uc EpListOrders = OrderHandler_ListOrders env uc"
| "order_endpoint_handler env uc EpCancelOrder = OrderHandler_CancelOrder env uc"

lemma response_sel [simp]:
  "hp_status (response_JSON status j) = status" "hp_status (response_Error status c m) = status"
  "hp_status (response_JSONWithPagination status j n l k) = status"
  by (simp_all add: response_JSON_def response_Error_def response_JSONWithPagination_def)

subsection \<open>What a response to a creation says\<close>

definition wrapped_failure :: "go_error \<Rightarrow> bool" where
  "wrapped_failure e \<longleftrightarrow> (\<exists>m e'. e = Wrapped (''failed to '' @ m) e')"

lemma store_order_errors: "run_state (store_order env uc ord ev) w = (Inl e, w') \<Longrightarrow> wrapped_failure e"
  by (auto simp: store_order_def wrapped_failure_def split: prod.splits sum.splits)

lemma wrapped_failure_500: "wrapped_failure e \<Longrightarrow> hp_status (order_handleError e) = 500 \<and> e \<noteq> ErrDuplicateIdempotencyKey"
  by (auto simp: wrapped_failure_def order_handleError_def Let_def ErrDuplicateIdempotencyKey_def)

lemma sentinel_status:
  "hp_status (order_handleError ErrEmptyCart) = 400" "hp_status (order_handleError ErrInvalidQuantity) = 400"
  "hp_status (order_handleError ErrOrderNotFound) = 404" "hp_status (order_handleError ErrOrderNotCancellable) = 409"
  "ErrEmptyCart \<noteq> ErrDuplicateIdempotencyKey" "ErrInvalidQuantity \<noteq> ErrDuplicateIdempotencyKey"
  by (simp_all add: order_handleError_def Let_def ErrEmptyCart_def ErrInvalidQuantity_def ErrOrderNotFound_def
      ErrOrderNotCancellable_def ErrDuplicateIdempotencyKey_def)

text \<open>
  The errors of \<open>CreateOrder\<close>: the sentinels of the domain, returned before anything is written,
  and wrapped ones from the transaction.
\<close>

definition create_refusal :: "(order_db \<Rightarrow> bool) \<Rightarrow> create_result \<Rightarrow> order_db \<Rightarrow> bool" where
  "create_refusal I r d \<longleftrightarrow>
     (case snd r of
        None \<Rightarrow> True
      | Some e \<Rightarrow> wrapped_failure e \<or>
          e \<in> {ErrEmptyCart, ErrInvalidQuantity, ErrDuplicateIdempotencyKey} \<and> I d)"

context order_store
begin

lemma triple_CreateOrder_refusal:
  assumes "rely (preserves I) env"
  shows "triple (\<lambda>w. I (w_db w)) (CreateOrder env uc req) (\<lambda>r w. create_refusal I r (w_db w))"
proof -
  have find: "triple (\<lambda>w. I (w_db w)) (OrderRepository_GetByIDempotencyKey (uc_orderRepo uc) k) (\<lambda>_ w. I (w_db w))" for k
    unfolding find_key using triple_GetContext [OF assms] by (fastforce simp: triple_def split: prod.splits)
  have tail: "triple (\<lambda>w. I (w_db w)) (do {
        ord \<leftarrow> new_order env req k;
        ev \<leftarrow> new_event env (o_id ord) ''order.created'' (created_payload ord);
        r \<leftarrow> store_order env uc ord ev;
        ret (only_result r) }) (\<lambda>r w. create_refusal I r (w_db w))" for k
    using store_order_errors
    by (fastforce simp: triple_def create_refusal_def split: prod.splits elim!: only_result.elims)
  have existing: "triple (\<lambda>w. I (w_db w)) (ret (Some ord, Some ErrDuplicateIdempotencyKey))
      (\<lambda>r w. create_refusal I r (w_db w))" for ord
    by (simp add: triple_def create_refusal_def)
  have "triple (\<lambda>w. I (w_db w)) (ret (None, Some ErrEmptyCart)) (\<lambda>r w. create_refusal I r (w_db w))"
    "triple (\<lambda>w. I (w_db w)) (ret (None, Some ErrInvalidQuantity)) (\<lambda>r w. create_refusal I r (w_db w))"
    by (simp_all add: triple_def create_refusal_def)
  then show ?thesis
    unfolding CreateOrder_def
    by (auto intro!: triple_bind [OF triple_new_uuid] triple_bind [OF find] tail existing split: sum.splits)
qed

end

text \<open>
  C16: the response to \<open>POST /\<close> tells the truth. In every environment whose other clients keep
  \<open>I\<close>: the status is 201, 400, 409 or 500; 201 carries an order as requested that was stored,
  together with its items and its event, in one step after a state with \<open>I\<close>; and after 400 or 409 this
  request has stored nothing.
\<close>

theorem CreateOrder_response:
  assumes "rely (preserves I) env" and "I (w_db w)"
    and "run_state (OrderHandler_CreateOrder env (orderUC env) rq) w = (resp, w')"
  shows "hp_status resp \<in> {201, 400, 409, 500} \<and>
    (hp_status resp = 201 \<longrightarrow> (\<exists>req d ord ev.
       unmarshal dec_CreateOrderRequest zero_CreateOrderRequest (hq_body rq) = Some req \<and>
       I d \<and> requested_order (with_header_key rq req) ord \<and> created_event ord ev \<and>
       order_stored (e_pg env) ord ev d (w_db w') \<and> resp = response_JSON 201 (enc_Order ord))) \<and>
    (hp_status resp \<in> {400, 409} \<longrightarrow> I (w_db w'))"
proof (cases "unmarshal dec_CreateOrderRequest zero_CreateOrderRequest (hq_body rq)")
  case None
  with assms show ?thesis by (auto simp: OrderHandler_CreateOrder_def invalid_body_def)
next
  case (Some req)
  obtain r w1 where run: "run_state (CreateOrder env (orderUC env) (with_header_key rq req)) w = (r, w1)"
    by (meson surj_pair)
  have out: "create_outcome (e_pg env) I (with_header_key rq req) r (w_db w1)"
    by (rule tripleD [OF cached.triple_CreateOrder [OF assms(1)] assms(2) run])
  have ref: "create_refusal I r (w_db w1)"
    by (rule tripleD [OF cached.triple_CreateOrder_refusal [OF assms(1)] assms(2) run])
  show ?thesis
  proof (cases "snd r")
    case None
    with assms(3) run Some have "w_db w' = w_db w1" "resp = response_JSON 201 (order_data (fst r))"
      by (auto simp: OrderHandler_CreateOrder_def run_metric_add)
    with out None Some show ?thesis by (fastforce simp: create_outcome_def order_data_def)
  next
    case (Some e)
    with assms(3) run \<open>unmarshal _ _ _ = Some req\<close> ref show ?thesis
      by (auto simp: OrderHandler_CreateOrder_def run_metric_add create_refusal_def sentinel_status
          dest: wrapped_failure_500 split: if_splits)
  qed
qed

definition demo_empty_cart :: HttpRequest where
  "demo_empty_cart = \<lparr>hq_param = (\<lambda>_. ''''), hq_query = (\<lambda>_. ''''), hq_header = (\<lambda>_. ''''),
     hq_body = Some (JObj [(''customer_id'', JStr ''c1''), (''items'', JArr [])])\<rparr>"

theorem CreateOrder_response_witness:
  "case run_state (OrderHandler_CreateOrder ideal_env (orderUC ideal_env) demo_empty_cart) (idle demo_orders) of (resp, w') \<Rightarrow>
     hp_status resp = 400 \<and> w_db w' = demo_orders"
proof -
  obtain resp w' where run: "run_state (OrderHandler_CreateOrder ideal_env (orderUC ideal_env) demo_empty_cart)
      (idle demo_orders) = (resp, w')" by force
  then have "hp_status resp = 400"
    by (auto simp: OrderHandler_CreateOrder_def demo_empty_cart_def unmarshal_def dec_CreateOrderRequest_def
        fld_def field_for_def CreateOrder_def with_header_key_def zero_CreateOrderRequest_def sentinel_status run_metric_add)
  with CreateOrder_response [of "\<lambda>d. d = demo_orders" ideal_env "idle demo_orders" demo_empty_cart resp w'] run
  show ?thesis by (simp add: rely_calm db_guarantee_preserves)
qed

subsection \<open>Cancelling over HTTP\<close>

lemma rejected_event_status: "hp_status (order_handleError (Wrapped msg pq_invalid)) = 500"
  by (simp add: order_handleError_def Let_def pq_invalid_def ErrEmptyCart_def ErrInvalidQuantity_def ErrOrderNotFound_def
      ErrOrderNotCancellable_def ErrDuplicateIdempotencyKey_def)

text \<open>
  The response to \<open>POST /{id}/cancel\<close> in a calm environment, with no cached entry for the
  order: 400 for a body that does not decode, 404 for an unknown order, 409 for an order that can no longer be
  cancelled, 500 when the server rejects the payload of the event, and the database is as it
  was; otherwise 200, the order is cancelled and one pending \<open>order.cancelled\<close> event with the
  reason of the body is added.
\<close>

theorem CancelOrder_response:
  assumes "calm env" and "varchar_keeps (e_pg env)" and "good_uuids env (w_db w) (w_tick w)"
    and "pg_uuid (e_pg env) (hq_param rq ''id'') = Some (hq_param rq ''id'')" and "cold env w (hq_param rq ''id'')"
  shows "case run_state (OrderHandler_CancelOrder env (orderUC env) rq) w of (resp, w') \<Rightarrow>
     (case unmarshal dec_reason '''' (hq_body rq) of
        None \<Rightarrow> hp_status resp = 400 \<and> w' = w
      | Some reason \<Rightarrow>
          (case find_order (hq_param rq ''id'') (w_db w) of
             None \<Rightarrow> hp_status resp = 404 \<and> w_db w' = w_db w
           | Some row \<Rightarrow>
               if or_status row \<in> {StatusPendingPayment, StatusPaid}
               then if payload_accepted (e_pg env) (cancelled_payload (rowToOrder row) reason)
                 then hp_status resp = 200 \<and>
                   (\<exists>ev. status_event (hq_param rq ''id'') ''order.cancelled'' (cancelled_payload (rowToOrder row) reason) ev \<and>
                     status_stored (e_pg env) (hq_param rq ''id'') StatusCancelled ev (w_db w) (w_db w'))
                 else hp_status resp = 500 \<and> w_db w' = w_db w
               else hp_status resp = 409 \<and> w_db w' = w_db w))"
proof (cases "unmarshal dec_reason '''' (hq_body rq)")
  case None
  then show ?thesis by (simp add: OrderHandler_CancelOrder_def invalid_body_def)
next
  case (Some reason)
  with CancelOrder_calm [OF assms, of reason] show ?thesis
    by (auto simp: OrderHandler_CancelOrder_def run_metric_add sentinel_status status_changed_def rejected_event_status
        split: prod.splits option.splits if_splits)
qed

definition demo_cancel :: HttpRequest where
  "demo_cancel = \<lparr>hq_param = (\<lambda>_. ''o2''), hq_query = (\<lambda>_. ''''), hq_header = (\<lambda>_. ''''),
     hq_body = Some (JObj [(''reason'', JStr ''too late'')])\<rparr>"

theorem CancelOrder_response_witness:
  "case run_state (OrderHandler_CancelOrder ideal_env (orderUC ideal_env) demo_cancel) (idle demo_orders) of (resp, w') \<Rightarrow>
     hp_status resp = 409 \<and> w_db w' = demo_orders"
proof -
  have "unmarshal dec_reason '''' (hq_body demo_cancel) = Some ''too late''" "hq_param demo_cancel ''id'' = ''o2''"
    by (simp_all add: demo_cancel_def unmarshal_def dec_reason_def field_for_def)
  moreover have "find_order ''o2'' demo_orders = Some (demo_order_row ''o2'' StatusProcessing)"
    by (simp add: find_order_def demo_orders_def demo_order_row_def)
  ultimately show ?thesis
    using CancelOrder_response [of ideal_env "idle demo_orders" demo_cancel] demo_uuids demo_cold
    by (simp add: demo_order_row_def status_defs split: prod.splits)
qed

subsection \<open>Whatever requests arrive, the tables keep their integrity\<close>

text \<open>A request after the router has chosen its endpoint.\<close>

definition serve_order_http ::
  "order_db env \<Rightarrow> createOrderUseCase \<Rightarrow> order_endpoint \<times> HttpRequest \<Rightarrow> (order_db, unit) io" where
  "serve_order_http env uc = (\<lambda>(ep, rq). do { _ \<leftarrow> order_endpoint_handler env uc ep rq; ret () })"

context order_guarantee
begin

lemma safe_order_http:
  assumes "order_reader env uc" and "rely R env" and "order_stmts_in (e_pg env) R"
  shows "safe R (serve_order_http env uc call)"
proof (cases call)
  case (Pair ep rq)
  then show ?thesis
    by (cases ep)
      (auto simp: serve_order_http_def OrderHandler_CreateOrder_def OrderHandler_GetOrder_def OrderHandler_ListOrders_def
        OrderHandler_CancelOrder_def Let_def intro!: safe_intros safe_use_cases assms)
qed

lemma order_http_all:
  assumes "order_reader env uc" and "rely R env" and "order_stmts_in (e_pg env) R" and "logs_in R w"
  shows "R (w_db w) (w_db (snd (run_state (for_each (serve_order_http env uc) calls) w)))"
proof -
  have "safe R (for_each (serve_order_http env uc) calls)" by (intro safe_intros safe_order_http assms)
  with assms(4) show ?thesis by (simp add: safe_def)
qed

end

text \<open>
  Whatever HTTP requests the order service receives, with whatever bodies, and whatever
  round trips fail: the tables keep their integrity, and no order, item or event is lost or
  changed but for its status, as long as the other clients keep the same.
\<close>

theorem order_http_guarantees:
  assumes "rely (preserves orders_wf) env" and "rely orders_extend env" and "w_txs w = (\<lambda>_. None)" and "orders_wf (w_db w)"
  shows "case run_state (for_each (serve_order_http env (orderUC env)) calls) w of (_, w') \<Rightarrow>
    orders_wf (w_db w') \<and> orders_extend (w_db w) (w_db w')"
proof -
  obtain w' where run: "run_state (for_each (serve_order_http env (orderUC env)) calls) w = ((), w')"
    by (metis old.unit.exhaust surj_pair)
  have "preserves orders_wf (w_db w) (w_db (snd (run_state (for_each (serve_order_http env (orderUC env)) calls) w)))"
    using integrity.order_http_all [OF cached_reader.order_reader_axioms assms(1) order_stmts_wf] assms(3) by simp
  moreover have "orders_extend (w_db w) (w_db (snd (run_state (for_each (serve_order_http env (orderUC env)) calls) w)))"
    using durability.order_http_all [OF cached_reader.order_reader_axioms assms(2) order_stmts_extend] assms(3) by simp
  ultimately show ?thesis using run assms(4) by (simp add: preserves_def)
qed

theorem order_http_guarantees_witness:
  "case run_state (for_each (serve_order_http ideal_env (orderUC ideal_env))
      [(EpCancelOrder, demo_cancel), (EpCreateOrder, demo_empty_cart)]) (idle demo_orders) of (_, w') \<Rightarrow>
    orders_wf (w_db w') \<and> orders_extend demo_orders (w_db w')"
  using order_http_guarantees [of ideal_env "idle demo_orders" "[(EpCancelOrder, demo_cancel), (EpCreateOrder, demo_empty_cart)]"]
  by (simp only: idle_sel(2)) (simp add: rely_calm db_guarantee_preserves durability.db_guarantee_axioms demo_orders_wf)

end
