(* ===== verification/Order_Pages.thy ===== *)
theory Order_Pages
  imports Order_Http "HOL-Library.Multiset"
begin

text \<open>
  Listing orders page by page: a client that asks for as many pages as the first answer
  announces gets every order of the customer exactly once, newest first. The order of rows with
  the same time is not determined by the query, so the times are assumed to be different.
\<close>

subsection \<open>Pages of a list\<close>

lemma concat_pages: "concat (map (\<lambda>k. take n (drop (k * n) xs)) [0..<p]) = take (p * n) xs"
proof (induction p)
  case (Suc p)
  have "take (p * n) xs @ take n (drop (p * n) xs) = take (p * n + n) xs" by (simp add: take_add)
  then show ?case using Suc.IH by (simp add: add.commute)
qed simp

lemma enough_pages:
  assumes "0 < limit"
  shows "length xs \<le> nat ((int (length xs) + limit - 1) div limit) * nat limit"
proof -
  let ?a = "int (length xs) + limit - 1"
  have "?a = ?a div limit * limit + ?a mod limit" by simp
  moreover have "?a mod limit < limit" using assms by simp
  ultimately have "int (length xs) \<le> ?a div limit * limit" by linarith
  moreover have "0 \<le> ?a div limit" using assms by (intro pos_imp_zdiv_nonneg_iff [THEN iffD2]) auto
  ultimately have "int (length xs) \<le> int (nat (?a div limit) * nat limit)" using assms by simp
  then show ?thesis by (simp only: of_nat_le_iff)
qed

subsection \<open>Listing in a calm environment\<close>

definition newest_first :: "orderRow list \<Rightarrow> orderRow list" where
  "newest_first rs = sort_key (\<lambda>r. - or_created_at r) rs"

lemma newest_first_unique:
  assumes "distinct (map or_created_at rs)" and "mset ys = mset rs" and "sorted (map (\<lambda>r. - or_created_at r) ys)"
  shows "ys = newest_first rs"
  unfolding newest_first_def
proof (rule properties_for_sort_key [OF assms(2) _ assms(3), symmetric])
  fix k assume "k \<in> set ys"
  have "distinct (map (\<lambda>r. - or_created_at r) rs)" using assms(1) by (simp add: distinct_map inj_on_def)
  then have one: "distinct rs \<and> inj_on (\<lambda>r. - or_created_at r) (set rs)" by (simp add: distinct_map)
  have sets: "set ys = set rs" using assms(2) by (rule mset_eq_setD)
  have dist: "distinct ys" using one assms(2) by (metis mset_eq_imp_distinct_iff)
  have "k \<in> set rs" using \<open>k \<in> set ys\<close> sets by simp
  then have "filter (\<lambda>x. - or_created_at k = - or_created_at x) rs = filter (\<lambda>x. x = k) rs"
    "filter (\<lambda>x. - or_created_at k = - or_created_at x) ys = filter (\<lambda>x. x = k) ys"
    using one sets by (auto intro!: filter_cong simp: inj_on_def)
  moreover have "filter (\<lambda>x. x = k) zs = [k]" if "distinct zs" "k \<in> set zs" for zs
    using that by (induction zs) (auto simp: filter_empty_conv)
  ultimately show "filter (\<lambda>x. - or_created_at k = - or_created_at x) ys = filter (\<lambda>x. - or_created_at k = - or_created_at x) rs"
    using dist one sets \<open>k \<in> set ys\<close> by simp
qed

text \<open>With different times the order in which the server lists rows of the same time does not matter.\<close>

lemma ranked_newest_first:
  assumes "distinct (map or_created_at rs)"
  shows "sort_key (\<lambda>r. - or_created_at r) (sort_key f rs) = newest_first rs"
  by (rule newest_first_unique [OF assms]) simp_all

lemma run_ListOrders:
  assumes "calm env" and "matching_orders (e_pg env) cid (w_db w) = Inr rs" and "0 \<le> limit" and "0 \<le> offset"
    and "distinct (map or_created_at rs)"
  shows "run_state (ListOrders env (orderUC env) cid limit offset) w =
    (Inr (map rowToOrder (take (nat limit) (drop (nat offset) (newest_first rs))), int (length rs)),
     w\<lparr>w_tick := Suc (Suc (w_tick w))\<rparr>)"
  using assms
  by (simp add: ListOrders_def orderUC_def NewOrderCache_def NewOrderRepository_def orderRepository_List_def run_GetContext_calm
      run_SelectContext_calm count_orders_def select_orders_def page_of_def run_row_order ranked_newest_first)

lemma run_pages:
  assumes "calm env" and "matching_orders (e_pg env) cid (w_db w) = Inr rs" and "0 \<le> limit"
    and "distinct (map or_created_at rs)"
  shows "\<exists>t. run_state (for_map (\<lambda>k. ListOrders env (orderUC env) cid limit (int k * limit)) ks) w =
    (map (\<lambda>k. Inr (map rowToOrder (take (nat limit) (drop (k * nat limit) (newest_first rs))), int (length rs))) ks,
     w\<lparr>w_tick := t\<rparr>)"
  using assms(2)
proof (induction ks arbitrary: w)
  case Nil
  show ?case by (rule exI [of _ "w_tick w"]) simp
next
  case (Cons k ks)
  have "nat (int k * limit) = k * nat limit" using assms(3) by (simp add: nat_mult_distrib)
  then have "run_state (ListOrders env (orderUC env) cid limit (int k * limit)) w =
      (Inr (map rowToOrder (take (nat limit) (drop (k * nat limit) (newest_first rs))), int (length rs)),
       w\<lparr>w_tick := Suc (Suc (w_tick w))\<rparr>)"
    using run_ListOrders [OF assms(1) Cons.prems assms(3), of "int k * limit"] assms(3,4) by simp
  moreover obtain t where "run_state (for_map (\<lambda>k. ListOrders env (orderUC env) cid limit (int k * limit)) ks) (w\<lparr>w_tick := Suc (Suc (w_tick w))\<rparr>) =
      (map (\<lambda>k. Inr (map rowToOrder (take (nat limit) (drop (k * nat limit) (newest_first rs))), int (length rs))) ks, w\<lparr>w_tick := t\<rparr>)"
    using Cons.IH [of "w\<lparr>w_tick := Suc (Suc (w_tick w))\<rparr>"] Cons.prems by auto
  ultimately show ?case by (intro exI [of _ t]) simp
qed

text \<open>
  C18: the pages of a listing are complete. In a calm environment, and with different times of
  creation, a client that asks for the pages \<open>0, limit, 2 * limit, \<dots>\<close>, as many as the member
  \<open>total_pages\<close> of the first answer says, gets each order of the customer exactly once, newest
  first; every answer has at most \<open>limit\<close> orders and reports the same, correct total. Without a
  customer the orders are all orders.
\<close>

theorem pages_complete:
  assumes "calm env" and "matching_orders (e_pg env) cid (w_db w) = Inr rs" and "distinct (map or_created_at rs)"
    and "0 < limit" and "limit < 2 ^ 53" and "length rs < 2 ^ 53"
    and "mset ys = mset rs" and "sorted (map (\<lambda>r. - or_created_at r) ys)"
  shows "\<exists>p pages w'. totalPages (int (length rs)) limit = Some p \<and>
    run_state (for_map (\<lambda>k. ListOrders env (orderUC env) cid limit (int k * limit)) [0..<nat p]) w =
      (map (\<lambda>page. Inr (page, int (length rs))) pages, w') \<and>
    concat pages = map rowToOrder ys \<and> (\<forall>page \<in> set pages. int (length page) \<le> limit) \<and> w_db w' = w_db w"
proof -
  let ?n = "nat limit" and ?p = "(int (length rs) + limit - 1) div limit"
  let ?pages = "map (\<lambda>k. map rowToOrder (take ?n (drop (k * ?n) (newest_first rs)))) [0..<nat ?p]"
  have len: "length (newest_first rs) = length rs" by (simp add: newest_first_def)
  have "(of_nat (length rs) :: int) < of_nat (2 ^ 53)" using assms(6) by (simp only: of_nat_less_iff)
  then have "totalPages (int (length rs)) limit = Some ?p" using assms(4,5) by (intro totalPages_exact) simp_all
  moreover obtain t where "run_state (for_map (\<lambda>k. ListOrders env (orderUC env) cid limit (int k * limit)) [0..<nat ?p]) w =
      (map (\<lambda>page. Inr (page, int (length rs))) ?pages, w\<lparr>w_tick := t\<rparr>)"
    using run_pages [OF assms(1,2) _ assms(3), of limit "[0..<nat ?p]"] assms(4) by (auto simp: comp_def)
  moreover have "concat ?pages = map rowToOrder ys"
  proof -
    have "concat ?pages = map rowToOrder (concat (map (\<lambda>k. take ?n (drop (k * ?n) (newest_first rs))) [0..<nat ?p]))"
      by (simp add: map_concat comp_def)
    also have "\<dots> = map rowToOrder (newest_first rs)"
      unfolding concat_pages using enough_pages [OF assms(4), of "newest_first rs"] by (simp add: len)
    finally show ?thesis using newest_first_unique [OF assms(3,7,8)] by simp
  qed
  moreover have "\<forall>page \<in> set ?pages. int (length page) \<le> limit" using assms(4) by auto
  moreover have "w_db (w\<lparr>w_tick := t\<rparr>) = w_db w" for t by simp
  ultimately show ?thesis by blast
qed

definition two_orders :: order_db where
  "two_orders = \<lparr>t_orders = [demo_order_row ''o1'' StatusPendingPayment, (demo_order_row ''o2'' StatusProcessing)\<lparr>or_created_at := 2\<rparr>],
     t_order_items = [], t_outbox_events = []\<rparr>"

theorem pages_complete_witness:
  "\<exists>pages w'. run_state (for_map (\<lambda>k. ListOrders ideal_env (orderUC ideal_env) '''' 1 (int k * 1)) [0..<2]) (idle two_orders) =
      (map (\<lambda>page. Inr (page, 2)) pages, w') \<and> map o_id (concat pages) = [''o2'', ''o1'']"
proof -
  let ?rs = "t_orders two_orders"
  have m: "matching_orders (e_pg ideal_env) '''' (w_db (idle two_orders)) = Inr ?rs" by (simp add: matching_orders_def)
  have rs: "distinct (map or_created_at ?rs)" "sorted (map (\<lambda>r. - or_created_at r) (rev ?rs))" "length ?rs = 2"
    "map or_id (rev ?rs) = [''o2'', ''o1'']"
    by (simp_all add: two_orders_def demo_order_row_def)
  then have len: "length ?rs < 2 ^ 53" by simp
  have p: "totalPages 2 1 = Some 2" using totalPages_exact [of 2 1] by simp
  from pages_complete [where ys = "rev ?rs" and limit = 1, OF calm_ideal m rs(1) _ _ len _ rs(2)]
  obtain pages w' where "run_state (for_map (\<lambda>k. ListOrders ideal_env (orderUC ideal_env) '''' 1 (int k * 1)) [0..<2]) (idle two_orders) =
      (map (\<lambda>page. Inr (page, 2)) pages, w')" "concat pages = map rowToOrder (rev ?rs)"
    by (auto simp: rs(3) p)
  moreover have "map o_id (map rowToOrder (rev ?rs)) = map or_id (rev ?rs)" by (simp add: rowToOrder_def)
  ultimately show ?thesis using rs(4) by (intro exI [of _ pages] exI [of _ w']) simp
qed

end
