(* ===== verification/Order_Complete.thy ===== *)
theory Order_Complete
  imports Order_Props
begin

text \<open>
  What the transactions of the order service buy: no order is ever seen without its items and
  its \<open>order.created\<close> event. The schema does not ask for it (a row of \<open>orders\<close> alone, a
  quantity of zero or any status text would be accepted), so it rests on the guards of
  \<open>CreateOrder\<close>, on the single transaction around its statements and on the status literals of
  the use cases and of the publisher. The locale \<open>order_invariant\<close> says what an invariant has
  to survive; the service then keeps it in every environment whose other clients keep it.
\<close>

subsection \<open>Database invariants across a call\<close>

lemma keeps_triple: "triple P m (\<lambda>_. P) \<Longrightarrow> keeps P m"
  by (fastforce simp: triple_def keeps_def)

lemma keeps_db_local:
  fixes m :: "('db, 'a) io"
  assumes "\<And>w :: 'db world. w_db (snd (run_state m w)) = w_db w"
  shows "keeps (\<lambda>w. I (w_db w)) m"
  using assms by (simp add: keeps_def)

lemma keeps_db [keeps_intros]:
  "keeps (\<lambda>w. I (w_db w)) (new_uuid env)" "keeps (\<lambda>w. I (w_db w)) (time_now env)"
  "keeps (\<lambda>w. I (w_db w)) (Cache_Get env c k dec dest)" "keeps (\<lambda>w. I (w_db w)) (Cache_Set env c k data)"
  "keeps (\<lambda>w. I (w_db w)) (InjectTraceHeaders env msg)" "keeps (\<lambda>w. I (w_db w)) (kafka_WriteMessages env t msg)"
  by (rule keeps_db_local; simp add: run_new_uuid run_time_now run_Cache_Get InjectTraceHeaders_frame
      kafka_WriteMessages_frame)+

lemma keeps_exec_db [keeps_intros]:
  assumes "rely (preserves I) env" and "stmt_in (preserves I) st"
  shows "keeps (\<lambda>w. I (w_db w)) (exec_db env st)"
  using rely_preservesD [OF assms(1)] assms(2)
  by (auto simp: keeps_def exec_db_def run_next_tick interfere_def or_same_def stmt_in_def preserves_def
      split: option.splits fault.splits sum.splits)

lemma keeps_queries [keeps_intros]:
  assumes "rely (preserves I) env"
  shows "keeps (\<lambda>w. I (w_db w)) (GetContext env q)" and "keeps (\<lambda>w. I (w_db w)) (SelectContext env q')"
  unfolding GetContext_def SelectContext_def
  by (rule keeps_exec_db [OF assms]; auto simp: stmt_in_def preserves_def split: sum.splits)+

text \<open>The reading operations of the deployed repositories.\<close>

lemma keeps_reads [keeps_intros]:
  assumes "rely (preserves I) env"
  shows "keeps (\<lambda>w. I (w_db w)) (OrderRepository_GetByID (uc_orderRepo (orderUC env)) oid)"
    and "keeps (\<lambda>w. I (w_db w)) (OrderItemRepository_GetByOrderID (uc_orderItemRepo (orderUC env)) oid)"
    and "keeps (\<lambda>w. I (w_db w)) (OrderRepository_List (uc_orderRepo (orderUC env)) c limit offset)"
  unfolding orderUC_def NewOrderCache_def NewOrderItemCache_def NewOrderRepository_def NewOrderItemRepository_def
  by (auto simp: orderRepository_GetByID_def orderItemRepository_GetByOrderID_def orderRepository_List_def
      OrderCache_GetByID_def OrderItemCache_GetByOrderID_def intro!: keeps_intros assms)

subsection \<open>Invariants the service keeps\<close>

locale order_invariant =
  fixes I :: "order_db \<Rightarrow> bool"
  assumes created: "varchar_keeps pg \<Longrightarrow> I d \<Longrightarrow> requested_order req ord \<Longrightarrow> created_event ord ev
      \<Longrightarrow> order_stored pg ord ev d d' \<Longrightarrow> I d'"
    and changed: "varchar_keeps pg \<Longrightarrow> I d \<Longrightarrow> status \<in> {StatusCancelled, StatusProcessing}
      \<Longrightarrow> ev_status ev = ''PENDING'' \<Longrightarrow> status_stored pg oid status ev d d' \<Longrightarrow> I d'"
    and claimed: "I d \<Longrightarrow> I (set_outbox_status sel ''CLAIMED'' None d)"
    and marked: "I d \<Longrightarrow> s \<in> {''PUBLISHED'', ''FAILED''} \<Longrightarrow> I (set_outbox_status sel s (Some t) d)"
begin

lemma keeps_CreateOrder:
  assumes "rely (preserves I) env" and "varchar_keeps (e_pg env)"
  shows "keeps (\<lambda>w. I (w_db w)) (CreateOrder env (orderUC env) req)"
  by (rule keeps_triple, rule triple_conseq [OF cached.triple_CreateOrder [OF assms(1)]])
    (auto simp: create_outcome_def intro: created assms(2))

lemma keeps_change:
  assumes "rely (preserves I) env" and "varchar_keeps (e_pg env)" and "status \<in> {StatusCancelled, StatusProcessing}"
  shows "keeps (\<lambda>w. I (w_db w))
     (do { ev \<leftarrow> new_event env i ty payload; store_status env (orderUC env) msg oid status ev })"
proof (rule keeps_triple, rule triple_bind [OF triple_new_event])
  fix ev :: OutboxEvent
  have "triple (\<lambda>w. I (w_db w)) (store_status env (orderUC env) msg oid status ev) (\<lambda>_ w. I (w_db w))"
    if "ev_status ev = ''PENDING''"
    by (rule triple_conseq [OF cached.triple_store_status [OF assms(1)]])
      (auto simp: all_or_nothing_def dest: changed [OF assms(2) _ assms(3) that])
  then show "triple (\<lambda>w. I (w_db w) \<and> ev_aggregate_type ev = ''order'' \<and> ev_aggregate_id ev = i \<and>
        ev_event_type ev = ty \<and> ev_payload ev = payload \<and> ev_status ev = ''PENDING'')
      (store_status env (orderUC env) msg oid status ev) (\<lambda>_ w. I (w_db w))"
    by (auto simp: triple_def)
qed

lemma keeps_ClaimBatch:
  assumes "rely (preserves I) env"
  shows "keeps (\<lambda>w. I (w_db w)) (outboxRepository_ClaimBatch env limit)"
proof -
  let ?Q = "\<lambda>d d'. I d'"
  have sel: "triple (in_tx I h (=)) (exec_tx env h (select_for_claim rank limit))
      (\<lambda>r w. case r of Inl _ \<Rightarrow> I (w_db w) | Inr _ \<Rightarrow> in_tx I h ?Q w)" for h rank
    by (rule triple_exec_tx [OF assms]) (auto simp: select_for_claim_def split: sum.splits)
  have upd: "triple (in_tx I h ?Q) (exec_tx env h (claim_rows ids))
      (\<lambda>r w. case r of Inl _ \<Rightarrow> I (w_db w) | Inr _ \<Rightarrow> in_tx I h ?Q w)" for h ids
    by (rule triple_exec_tx [OF assms]) (auto simp: claim_rows_def intro: claimed)
  have none: "triple (in_tx I h ?Q) (ok []) (all_or_nothing I ?Q)" for h
    by (auto simp: triple_def all_or_nothing_def in_tx_def)
  have "triple (\<lambda>w. I (w_db w)) (outboxRepository_ClaimBatch env limit) (all_or_nothing I ?Q)"
    unfolding outboxRepository_ClaimBatch_def
    by (rule tx_block [OF assms], rule triple_bind [OF triple_local], (simp add: run_row_order)+,
        rule tx_step' [OF sel])
      (auto intro!: none tx_step' [OF upd] tx_commit [OF assms])
  then show ?thesis by (intro keeps_triple) (auto elim!: triple_conseq simp: all_or_nothing_def)
qed

lemma mark_kept: "s \<in> {''PUBLISHED'', ''FAILED''} \<Longrightarrow> stmt_in (preserves I) (mark_outbox pg s oid now)"
  by (auto simp: stmt_in_def preserves_def mark_outbox_def intro: marked split: option.splits)

lemma keeps_publishBatch:
  assumes "rely (preserves I) env"
  shows "keeps (\<lambda>w. I (w_db w)) (publishBatch env (publisher env) n)"
  unfolding publishBatch_def publish_one_def publishEvent_def NewOutboxPublisher_def NewOutboxRepository_def
    outboxRepository_MarkPublished_def outboxRepository_MarkFailed_def
  by (auto intro!: keeps_intros keeps_ClaimBatch mark_kept assms)

lemma keeps_status_changes:
  assumes "rely (preserves I) env" and "varchar_keeps (e_pg env)"
  shows "keeps (\<lambda>w. I (w_db w)) (CancelOrder env (orderUC env) oid reason)"
    and "keeps (\<lambda>w. I (w_db w)) (ConfirmOrder env (orderUC env) oid)"
  unfolding CancelOrder_def ConfirmOrder_def
  by (rule keeps_bindE [OF keeps_reads(1) [OF assms(1)]], rule keeps_if [OF keeps_ret],
      rule keeps_change [OF assms], simp)+

lemma keeps_serve:
  assumes "rely (preserves I) env" and "varchar_keeps (e_pg env)"
  shows "keeps (\<lambda>w. I (w_db w)) (serve env (orderUC env) call)"
  by (cases call)
    (auto simp: GetOrder_def ListOrders_def
      intro!: keeps_intros keeps_CreateOrder keeps_status_changes keeps_publishBatch assms)

end

subsection \<open>Complete orders\<close>

text \<open>
  An order is complete when its status is one the service gives, its \<open>order.created\<close> event is in
  the outbox and it has an item. Items have a positive quantity and belong to an order. An
  event is pending or claimed, or it is settled and has the time of its settlement.
\<close>

definition complete_order :: "order_db \<Rightarrow> orderRow \<Rightarrow> bool" where
  "complete_order d r \<longleftrightarrow>
     or_status r \<in> {StatusPendingPayment, StatusCancelled, StatusProcessing} \<and>
     (\<exists>e \<in> set (t_outbox_events d). er_aggregate_id e = or_id r \<and> er_event_type e = ''order.created'') \<and>
     (\<exists>i \<in> set (t_order_items d). ir_order_id i = or_id r)"

definition proper_event :: "outboxEventRow \<Rightarrow> bool" where
  "proper_event e \<longleftrightarrow> er_status e \<in> {''PENDING'', ''CLAIMED''} \<or>
     er_status e \<in> {''PUBLISHED'', ''FAILED''} \<and> er_published_at e \<noteq> None"

definition orders_complete :: "order_db \<Rightarrow> bool" where
  "orders_complete d \<longleftrightarrow> (\<forall>r \<in> set (t_orders d). complete_order d r) \<and>
     (\<forall>i \<in> set (t_order_items d). 0 < ir_quantity i \<and> ir_order_id i \<in> or_id ` set (t_orders d)) \<and>
     (\<forall>e \<in> set (t_outbox_events d). proper_event e)"

lemma complete_order_mono:
  assumes "complete_order d r" and "or_id r' = or_id r" and "set (t_order_items d) \<subseteq> set (t_order_items d')"
    and "\<And>e. e \<in> set (t_outbox_events d) \<Longrightarrow> \<exists>e' \<in> set (t_outbox_events d').
           er_aggregate_id e' = er_aggregate_id e \<and> er_event_type e' = er_event_type e"
    and "or_status r' \<in> {or_status r, StatusCancelled, StatusProcessing}"
  shows "complete_order d' r'"
proof -
  from assms(1) obtain e i where "e \<in> set (t_outbox_events d)" "er_aggregate_id e = or_id r"
      "er_event_type e = ''order.created''" and i: "i \<in> set (t_order_items d)" "ir_order_id i = or_id r"
    by (auto simp: complete_order_def)
  with assms(4) [of e] obtain e' where "e' \<in> set (t_outbox_events d')" "er_aggregate_id e' = or_id r"
      "er_event_type e' = ''order.created''" by auto
  with i assms(1-3,5) show ?thesis by (auto simp: complete_order_def)
qed

lemma stored_items:
  assumes "requested_order req ord" and "order_row pg ord = Some r" and "item_rows pg (o_items ord) rows"
  shows "rows \<noteq> []" and "\<forall>i \<in> set rows. 0 < ir_quantity i \<and> ir_order_id i = or_id r"
proof -
  have items: "o_items ord \<noteq> []" "list_all2 (requested_item (o_id ord)) (r_items req) (o_items ord)"
    using assms(1) by (simp_all add: requested_order_def)
  have rows: "list_all2 (\<lambda>item row. \<exists>now. order_item_row pg item now = Some row) (o_items ord) rows"
    using assms(3) by (simp add: item_rows_def)
  with items(1) show "rows \<noteq> []" by auto
  show "\<forall>i \<in> set rows. 0 < ir_quantity i \<and> ir_order_id i = or_id r"
  proof
    fix i assume "i \<in> set rows"
    then obtain k where k: "k < length rows" "i = rows ! k" by (auto simp: in_set_conv_nth)
    with rows obtain now where row: "order_item_row pg (o_items ord ! k) now = Some i"
      by (auto simp: list_all2_conv_all_nth)
    have "requested_item (o_id ord) (r_items req ! k) (o_items ord ! k)"
      using items(2) rows k(1) by (auto simp: list_all2_conv_all_nth)
    with row assms(2) show "0 < ir_quantity i \<and> ir_order_id i = or_id r"
      by (auto simp: requested_item_def order_item_row_def order_row_def int4_def bind_eq_Some_conv split: if_splits)
  qed
qed

lemma complete_created:
  assumes "varchar_keeps pg" and "orders_complete d" and "requested_order req ord" and "created_event ord ev"
    and "order_stored pg ord ev d d'"
  shows "orders_complete d'"
proof -
  from assms(5) obtain r rows e where s: "order_row pg ord = Some r" "item_rows pg (o_items ord) rows"
      "outbox_row pg ev = Some e"
      and d': "d' = d\<lparr>t_orders := t_orders d @ [r], t_order_items := t_order_items d @ rows,
              t_outbox_events := t_outbox_events d @ [e]\<rparr>"
    by (auto simp: order_stored_def)
  note rows = stored_items [OF assms(3) s(1,2)]
  have e: "er_aggregate_id e = or_id r" "er_event_type e = ''order.created''" "er_status e = ''PENDING''"
    using s(1,3) assms(4) varchar_literals [OF assms(1)]
    by (auto simp: order_row_def outbox_row_def created_event_def bind_eq_Some_conv)
  have r: "or_status r = StatusPendingPayment"
  proof -
    have "o_status ord = StatusPendingPayment" using assms(3) unfolding requested_order_def by blast
    with s(1) varchar_literals(6) [OF assms(1)] show ?thesis by (auto simp: order_row_def bind_eq_Some_conv)
  qed
  have "complete_order d' q" if "q \<in> set (t_orders d)" for q
  proof (rule complete_order_mono)
    show "complete_order d q" using assms(2) that by (simp add: orders_complete_def)
  qed (auto simp: d')
  moreover have "complete_order d' r"
    using rows e(1,2) r by (auto simp: complete_order_def d' neq_Nil_conv)
  ultimately show ?thesis
    using assms(2) rows(2) e(3) by (auto simp: orders_complete_def proper_event_def d')
qed

lemma complete_changed:
  assumes "varchar_keeps pg" and "orders_complete d" and "status \<in> {StatusCancelled, StatusProcessing}"
    and "ev_status ev = ''PENDING''" and "status_stored pg oid status ev d d'"
  shows "orders_complete d'"
proof -
  from assms(5) obtain s i t e where s: "pg_varchar pg 30 status = Some s" "outbox_row pg ev = Some e"
      and d': "d' = (set_order_status i s t d)\<lparr>t_outbox_events := t_outbox_events d @ [e]\<rparr>"
    by (auto simp: status_stored_def)
  have st: "s \<in> {StatusCancelled, StatusProcessing}" "er_status e = ''PENDING''"
    using s assms(3,4) varchar_literals [OF assms(1)] by (auto simp: outbox_row_def bind_eq_Some_conv)
  have ids: "or_id ` set (t_orders d') = or_id ` set (t_orders d)" by (simp add: d')
  have "complete_order d' q" if q: "q \<in> set (t_orders d')" for q
  proof -
    from q obtain p where p: "p \<in> set (t_orders d)"
        "q = (if or_id p = i then p\<lparr>or_status := s, or_updated_at := t\<rparr> else p)"
      by (auto simp: d' set_order_status_def)
    have "complete_order d p" using assms(2) p(1) by (simp add: orders_complete_def)
    then show ?thesis
      by (rule complete_order_mono) (use p(2) st(1) in \<open>auto simp: d'\<close>)
  qed
  then show ?thesis
    using assms(2) st(2) unfolding orders_complete_def ids by (auto simp: proper_event_def d')
qed

lemma complete_outbox:
  assumes "orders_complete d" and "s \<in> {''PENDING'', ''CLAIMED''} \<or> s \<in> {''PUBLISHED'', ''FAILED''} \<and> pub \<noteq> None"
  shows "orders_complete (set_outbox_status sel s pub d)"
proof -
  let ?f = "\<lambda>e. if sel e then e\<lparr>er_status := s, er_published_at := (case pub of None \<Rightarrow> er_published_at e | Some t \<Rightarrow> Some t)\<rparr> else e"
  have "complete_order (set_outbox_status sel s pub d) r" if "complete_order d r" for r
  proof (rule complete_order_mono [OF that])
    show "\<exists>e' \<in> set (t_outbox_events (set_outbox_status sel s pub d)).
        er_aggregate_id e' = er_aggregate_id e \<and> er_event_type e' = er_event_type e"
      if "e \<in> set (t_outbox_events d)" for e
      using that by (intro bexI [of _ "?f e"]) (simp_all add: set_outbox_status_def)
  qed simp_all
  then show ?thesis
    using assms by (auto simp: orders_complete_def proper_event_def set_outbox_status_def)
qed

interpretation completeness: order_invariant orders_complete
  by unfold_locales (auto intro: complete_created complete_changed complete_outbox)

text \<open>
  C13: no order without its parts. Whatever calls the order service serves (creations,
  cancellations, confirmations, reads and ticks of the publisher), whatever round trips are
  lost and whatever other clients do that keeps it too, at the end every order has a status the
  service gives, at least one item and its \<open>order.created\<close> event in the outbox; every item has a
  positive quantity and belongs to an order; every event is pending, claimed, or settled with
  the time of its settlement. Nothing in the schema asks for this. The server is assumed to
  store the printable literals of the source as they are.
\<close>

theorem orders_stay_complete:
  assumes "rely (preserves orders_complete) env" and "varchar_keeps (e_pg env)" and "orders_complete (w_db w)"
  shows "orders_complete (w_db (snd (run_state (for_each (serve env (orderUC env)) calls) w)))"
  by (rule keepsD [OF keeps_for_each [OF completeness.keeps_serve [OF assms(1,2)]] assms(3)])

theorem orders_stay_complete_witness:
  "orders_complete (w_db (snd (run_state (for_each (serve ideal_env (orderUC ideal_env))
     [DoCreate demo_request, DoPublish 10, DoCancel ''x'' ''reason'', DoConfirm ''x'']) (idle no_orders))))"
  by (rule orders_stay_complete)
    (simp_all add: rely_calm db_guarantee_preserves orders_complete_def no_orders_def)

end
