(* ===== verification/Event_System.thy ===== *)
theory Event_System
  imports Main
begin

text \<open>
  Event systems: a concurrent part of the program is a state and a partial step function on
  events, one event per indivisible step of one of its goroutines or processes, so that its
  interleavings are the sequences of enabled events. The locale \<open>step_invariant\<close> says what one
  proof per event gives for all sequences.
\<close>

fun run_steps :: "('e \<Rightarrow> 's \<Rightarrow> 's option) \<Rightarrow> 'e list \<Rightarrow> 's \<Rightarrow> 's option" where
  "run_steps step [] s = Some s"
| "run_steps step (e # es) s = (case step e s of None \<Rightarrow> None | Some s' \<Rightarrow> run_steps step es s')"

definition reachable :: "('e \<Rightarrow> 's \<Rightarrow> 's option) \<Rightarrow> 's \<Rightarrow> 's \<Rightarrow> bool" where
  "reachable step start s \<longleftrightarrow> (\<exists>es. run_steps step es start = Some s)"

lemma run_steps_append:
  "run_steps step (es @ es') s = (case run_steps step es s of None \<Rightarrow> None | Some s' \<Rightarrow> run_steps step es' s')"
  by (induction es arbitrary: s) (auto split: option.splits)

lemma reachable_start: "reachable step start start"
  unfolding reachable_def by (rule exI [of _ "[]"]) simp

lemma reachable_run: "reachable step start s \<Longrightarrow> run_steps step es s = Some s' \<Longrightarrow> reachable step start s'"
proof -
  assume "reachable step start s" and run: "run_steps step es s = Some s'"
  then obtain es0 where "run_steps step es0 start = Some s" by (auto simp: reachable_def)
  then have "run_steps step (es0 @ es) start = Some s'" using run by (simp add: run_steps_append)
  then show ?thesis unfolding reachable_def by blast
qed

lemma reachable_step: "reachable step start s \<Longrightarrow> step e s = Some s' \<Longrightarrow> reachable step start s'"
  using reachable_run [of step start s "[e]" s'] by simp

text \<open>An invariant: it holds at the start and every step keeps it.\<close>

locale step_invariant =
  fixes step :: "'e \<Rightarrow> 's \<Rightarrow> 's option" and start :: 's and I :: "'s \<Rightarrow> bool"
  assumes inv_start: "I start" and inv_step: "I s \<Longrightarrow> step e s = Some s' \<Longrightarrow> I s'"
begin

lemma inv_run: "I s \<Longrightarrow> run_steps step es s = Some s' \<Longrightarrow> I s'"
  by (induction es arbitrary: s) (auto split: option.splits intro: inv_step)

lemma inv_reachable: "reachable step start s \<Longrightarrow> I s"
  unfolding reachable_def using inv_run inv_start by blast

end

end
