(* ===== verification/Outbox_Claims.thy ===== *)
theory Outbox_Claims
  imports Outbox_Publisher Event_System
begin

text \<open>
  Several instances of the order service, each with its publisher, on one outbox table: the row
  locks of \<open>FOR UPDATE SKIP LOCKED\<close> in \<open>ClaimBatch\<close> and the steps of \<open>publishBatch\<close> as an event system.
  A publisher can fail or be killed between any two steps, the reply to any round trip can be
  lost, and the use cases add events at any time. Writing an event is the call of \<open>WriteMessages\<close>;
  retries inside the Kafka client are not seen. Two properties: no event is written twice, and an
  event that a publisher had claimed when it was killed is never written.
\<close>

subsection \<open>State\<close>

text \<open>
  Where a publisher is: between two batches; in the transaction of \<open>ClaimBatch\<close>, after its
  \<open>SELECT\<close> or its \<open>UPDATE\<close>; before the next event of its batch; before recording the outcome of
  an event (whether it was written, and its id).
\<close>

datatype pub_pc =
    PubIdle
  | PubSelected "outboxEventRow list"
  | PubUpdated "outboxEventRow list"
  | PubSending "OutboxEvent list"
  | PubMarking bool string "OutboxEvent list"

record outbox =
  ob_db :: order_db
  ob_locks :: "string \<Rightarrow> nat option"
  ob_pubs :: "nat \<Rightarrow> pub_pc"
  ob_written :: "(nat \<times> OutboxEvent) list"

definition outbox_start :: "order_db \<Rightarrow> outbox" where
  "outbox_start d = \<lparr>ob_db = d, ob_locks = (\<lambda>_. None), ob_pubs = (\<lambda>_. PubIdle), ob_written = []\<rparr>"

definition goto_pub :: "nat \<Rightarrow> pub_pc \<Rightarrow> outbox \<Rightarrow> outbox" where
  "goto_pub p pc s = s\<lparr>ob_pubs := (ob_pubs s)(p := pc)\<rparr>"

text \<open>The locks of a transaction are held until it ends.\<close>

definition release_locks :: "nat \<Rightarrow> outbox \<Rightarrow> outbox" where
  "release_locks p s = s\<lparr>ob_locks := (\<lambda>i. if ob_locks s i = Some p then None else ob_locks s i)\<rparr>"

definition take_locks :: "nat \<Rightarrow> string list \<Rightarrow> outbox \<Rightarrow> outbox" where
  "take_locks p is s = s\<lparr>ob_locks := (\<lambda>i. if i \<in> set is then Some p else ob_locks s i)\<rparr>"

text \<open>The oldest pending rows that nobody has locked, those of the same second in the order \<open>rank\<close> of the server.\<close>

definition select_skip_locked ::
  "(string \<Rightarrow> int) \<Rightarrow> (string \<Rightarrow> nat option) \<Rightarrow> nat \<Rightarrow> order_db \<Rightarrow> outboxEventRow list" where
  "select_skip_locked rank locks n d = take n (filter (\<lambda>r. locks (er_id r) = None) (oldest_first rank (pending d)))"

subsection \<open>Events\<close>

text \<open>
  \<open>PubCommit\<close> with the reply or without it; \<open>PubSend\<close> with its three outcomes (written, lost,
  written with the reply lost); \<open>PubMark\<close> applied or lost; \<open>PubRollback\<close> after an error in the
  transaction; \<open>PubKill\<close> at any point, which ends the connection and with it the transaction.
\<close>

datatype send_outcome = SendOk | SendLost | SendUnknown

datatype outbox_event =
    StoreEvent OutboxEvent
  | PubSelect nat "string \<Rightarrow> int" nat
  | PubUpdate nat
  | PubCommit nat bool
  | PubRollback nat
  | PubSend nat send_outcome
  | PubMark nat int bool
  | PubKill nat

definition pub_select :: "nat \<Rightarrow> (string \<Rightarrow> int) \<Rightarrow> nat \<Rightarrow> outbox \<Rightarrow> outbox option" where
  "pub_select p rank n s =
     (if ob_pubs s p = PubIdle
      then let rows = select_skip_locked rank (ob_locks s) n (ob_db s)
           in if rows = [] then Some s else Some (goto_pub p (PubSelected rows) (take_locks p (map er_id rows) s))
      else None)"

definition pub_update :: "nat \<Rightarrow> outbox \<Rightarrow> outbox option" where
  "pub_update p s = (case ob_pubs s p of PubSelected rows \<Rightarrow> Some (goto_pub p (PubUpdated rows) s) | _ \<Rightarrow> None)"

definition pub_commit :: "nat \<Rightarrow> bool \<Rightarrow> outbox \<Rightarrow> outbox option" where
  "pub_commit p reply s =
     (case ob_pubs s p of
        PubUpdated rows \<Rightarrow>
          Some (goto_pub p (if reply then PubSending (map row_to_event rows) else PubIdle) (release_locks p
            (s\<lparr>ob_db := set_outbox_status (\<lambda>r. er_id r \<in> set (map er_id rows)) ''CLAIMED'' None (ob_db s)\<rparr>)))
      | _ \<Rightarrow> None)"

definition pub_rollback :: "nat \<Rightarrow> outbox \<Rightarrow> outbox option" where
  "pub_rollback p s =
     (case ob_pubs s p of
        PubSelected rows \<Rightarrow> Some (goto_pub p PubIdle (release_locks p s))
      | PubUpdated rows \<Rightarrow> Some (goto_pub p PubIdle (release_locks p s))
      | _ \<Rightarrow> None)"

definition pub_send :: "nat \<Rightarrow> send_outcome \<Rightarrow> outbox \<Rightarrow> outbox option" where
  "pub_send p out s =
     (case ob_pubs s p of
        PubSending (ev # evs) \<Rightarrow>
          Some (goto_pub p (PubMarking (out = SendOk) (ev_id ev) evs)
            (if out = SendLost then s else s\<lparr>ob_written := ob_written s @ [(p, ev)]\<rparr>))
      | _ \<Rightarrow> None)"

definition pub_mark :: "pg_types \<Rightarrow> nat \<Rightarrow> int \<Rightarrow> bool \<Rightarrow> outbox \<Rightarrow> outbox option" where
  "pub_mark pg p now applied s =
     (case ob_pubs s p of
        PubMarking wrote i evs \<Rightarrow>
          Some (goto_pub p (if evs = [] then PubIdle else PubSending evs)
            (if applied
             then s\<lparr>ob_db := or_same (ob_db s)
                      (apply_stmt (mark_outbox pg (if wrote then ''PUBLISHED'' else ''FAILED'') i now) (ob_db s))\<rparr>
             else s))
      | _ \<Rightarrow> None)"

definition pub_kill :: "nat \<Rightarrow> outbox \<Rightarrow> outbox option" where
  "pub_kill p s = Some (goto_pub p PubIdle (release_locks p s))"

definition store_event :: "pg_types \<Rightarrow> OutboxEvent \<Rightarrow> outbox \<Rightarrow> outbox option" where
  "store_event pg ev s = map_option (\<lambda>d. s\<lparr>ob_db := d\<rparr>) (apply_stmt (insert_outbox pg ev) (ob_db s))"

fun outbox_step :: "pg_types \<Rightarrow> outbox_event \<Rightarrow> outbox \<Rightarrow> outbox option" where
  "outbox_step pg (StoreEvent ev) = store_event pg ev"
| "outbox_step pg (PubSelect p rank n) = pub_select p rank n"
| "outbox_step pg (PubUpdate p) = pub_update p"
| "outbox_step pg (PubCommit p reply) = pub_commit p reply"
| "outbox_step pg (PubRollback p) = pub_rollback p"
| "outbox_step pg (PubSend p out) = pub_send p out"
| "outbox_step pg (PubMark p now applied) = pub_mark pg p now applied"
| "outbox_step pg (PubKill p) = pub_kill p"

subsection \<open>A publisher alone\<close>

text \<open>
  Without other publishers the three steps of the transaction do what \<open>ClaimBatch\<close> does in a
  calm environment (\<open>ClaimBatch_calm_lemma\<close>).
\<close>

lemma claim_alone:
  assumes "ob_locks s = (\<lambda>_. None)" and "ob_pubs s p = PubIdle" and "batch_of rank n (ob_db s) \<noteq> []"
  shows "\<exists>s'. run_steps (outbox_step pg) [PubSelect p rank n, PubUpdate p, PubCommit p True] s = Some s' \<and>
    ob_db s' = claimed (batch_of rank n (ob_db s)) (ob_db s) \<and>
    ob_pubs s' p = PubSending (map row_to_event (batch_of rank n (ob_db s))) \<and> ob_locks s' = (\<lambda>_. None)"
  using assms
  by (auto simp: pub_select_def pub_update_def pub_commit_def select_skip_locked_def goto_pub_def take_locks_def
      release_locks_def Let_def batch_of_def claimed_def)

subsection \<open>The invariant\<close>

text \<open>The events a publisher has selected, and those it still has to write.\<close>

fun selected_ids :: "pub_pc \<Rightarrow> string list" where
  "selected_ids (PubSelected rows) = map er_id rows"
| "selected_ids (PubUpdated rows) = map er_id rows"
| "selected_ids _ = []"

fun hand :: "pub_pc \<Rightarrow> string list" where
  "hand (PubSending evs) = map ev_id evs"
| "hand (PubMarking wrote i evs) = map ev_id evs"
| "hand _ = []"

definition stored :: "order_db \<Rightarrow> string \<Rightarrow> bool" where
  "stored d i \<longleftrightarrow> i \<in> er_id ` set (t_outbox_events d)"

definition settled :: "order_db \<Rightarrow> string \<Rightarrow> bool" where
  "settled d i \<longleftrightarrow> stored d i \<and> (\<forall>r \<in> set (t_outbox_events d). er_id r = i \<longrightarrow> er_status r \<noteq> ''PENDING'')"

definition written_ids :: "outbox \<Rightarrow> string list" where
  "written_ids s = map (\<lambda>(p, ev). ev_id ev) (ob_written s)"

definition claims :: "outbox \<Rightarrow> nat \<Rightarrow> string list" where
  "claims s p = selected_ids (ob_pubs s p) @ hand (ob_pubs s p)"

definition outbox_inv :: "outbox \<Rightarrow> bool" where
  "outbox_inv s \<longleftrightarrow> event_ids_distinct (ob_db s) \<and> distinct (written_ids s) \<and>
     (\<forall>i \<in> set (written_ids s). settled (ob_db s) i) \<and>
     (\<forall>p. distinct (claims s p) \<and> set (claims s p) \<inter> set (written_ids s) = {} \<and>
        (\<forall>i \<in> set (hand (ob_pubs s p)). settled (ob_db s) i) \<and>
        (\<forall>i \<in> set (selected_ids (ob_pubs s p)). ob_locks s i = Some p \<and> stored (ob_db s) i)) \<and>
     (\<forall>p q. p \<noteq> q \<longrightarrow> set (claims s p) \<inter> set (claims s q) = {})"

lemma set_status_stored [simp]: "stored (set_outbox_status sel st pub d) i = stored d i"
  unfolding stored_def set_map [symmetric] by simp

lemma set_status_settled: "settled d i \<Longrightarrow> st \<noteq> ''PENDING'' \<Longrightarrow> settled (set_outbox_status sel st pub d) i"
  by (auto simp: settled_def) (auto simp: set_outbox_status_def split: if_splits)

lemma set_status_settles: "stored d i \<Longrightarrow> sel = (\<lambda>r. er_id r \<in> A) \<Longrightarrow> i \<in> A \<Longrightarrow> st \<noteq> ''PENDING'' \<Longrightarrow> settled (set_outbox_status sel st pub d) i"
  by (auto simp: settled_def) (auto simp: set_outbox_status_def split: if_splits)

lemma outbox_inv_db:
  assumes "outbox_inv s" and "event_ids_distinct d" and "\<And>i. settled (ob_db s) i \<Longrightarrow> settled d i"
    and "\<And>i. stored (ob_db s) i \<Longrightarrow> stored d i"
  shows "outbox_inv (s\<lparr>ob_db := d\<rparr>)"
  using assms by (simp add: outbox_inv_def claims_def written_ids_def)

lemma claims_of_goto: "ob_pubs s' = (ob_pubs s)(p := pc) \<Longrightarrow> claims s' q = (if q = p then selected_ids pc @ hand pc else claims s q)"
  by (simp add: claims_def)

text \<open>A step of one publisher that writes nothing to Kafka.\<close>

lemma outbox_inv_goto:
  assumes inv: "outbox_inv s" and s': "ob_pubs s' = (ob_pubs s)(p := pc)" "ob_db s' = ob_db s" "ob_written s' = ob_written s"
    and "distinct (selected_ids pc @ hand pc)" and "set (selected_ids pc @ hand pc) \<inter> set (written_ids s) = {}"
    and "\<And>i. i \<in> set (hand pc) \<Longrightarrow> settled (ob_db s) i"
    and "\<And>i. i \<in> set (selected_ids pc) \<Longrightarrow> ob_locks s' i = Some p \<and> stored (ob_db s) i"
    and others: "\<And>q. q \<noteq> p \<Longrightarrow> set (selected_ids pc @ hand pc) \<inter> set (claims s q) = {}"
    and locks: "\<And>q i. q \<noteq> p \<Longrightarrow> ob_locks s i = Some q \<Longrightarrow> ob_locks s' i = Some q"
  shows "outbox_inv s'"
proof -
  have w: "written_ids s' = written_ids s" by (simp add: written_ids_def s'(3))
  have one: "distinct (claims s' q) \<and> set (claims s' q) \<inter> set (written_ids s') = {} \<and>
      (\<forall>i \<in> set (hand (ob_pubs s' q)). settled (ob_db s') i) \<and>
      (\<forall>i \<in> set (selected_ids (ob_pubs s' q)). ob_locks s' i = Some q \<and> stored (ob_db s') i)" for q
    using assms(5-8) inv locks by (cases "q = p") (simp_all add: claims_def s' w outbox_inv_def)
  have two: "set (claims s' q) \<inter> set (claims s' q') = {}" if "q \<noteq> q'" for q q'
    using that others inv by (cases "q = p"; cases "q' = p") (auto simp: claims_of_goto [OF s'(1)] outbox_inv_def)
  show ?thesis unfolding outbox_inv_def using one two inv by (simp add: s' w outbox_inv_def)
qed

text \<open>A publisher that goes on with fewer claims, or none.\<close>

lemma outbox_inv_fewer:
  assumes inv: "outbox_inv s" and s': "ob_pubs s' = (ob_pubs s)(p := pc)" "ob_db s' = ob_db s" "ob_written s' = ob_written s"
    and "distinct (selected_ids pc @ hand pc)" and "set (selected_ids pc) \<subseteq> set (selected_ids (ob_pubs s p))"
    and "set (hand pc) \<subseteq> set (hand (ob_pubs s p))"
    and "\<And>i. i \<in> set (selected_ids pc) \<Longrightarrow> ob_locks s' i = ob_locks s i"
    and "\<And>q i. q \<noteq> p \<Longrightarrow> ob_locks s i = Some q \<Longrightarrow> ob_locks s' i = Some q"
  shows "outbox_inv s'"
proof (rule outbox_inv_goto [OF inv s' assms(5)])
  have sub: "set (selected_ids pc @ hand pc) \<subseteq> set (claims s p)" using assms(6,7) by (auto simp: claims_def)
  have inv_p: "set (claims s p) \<inter> set (written_ids s) = {}" "\<And>q. q \<noteq> p \<Longrightarrow> set (claims s p) \<inter> set (claims s q) = {}"
    "\<And>i. i \<in> set (hand (ob_pubs s p)) \<Longrightarrow> settled (ob_db s) i"
    "\<And>i. i \<in> set (selected_ids (ob_pubs s p)) \<Longrightarrow> ob_locks s i = Some p \<and> stored (ob_db s) i"
    using inv by (auto simp: outbox_inv_def)
  show "set (selected_ids pc @ hand pc) \<inter> set (written_ids s) = {}" using sub inv_p(1) by blast
  show "set (selected_ids pc @ hand pc) \<inter> set (claims s q) = {}" if "q \<noteq> p" for q using sub inv_p(2) [OF that] by blast
  show "i \<in> set (hand pc) \<Longrightarrow> settled (ob_db s) i" for i using assms(7) inv_p(3) by blast
  show "i \<in> set (selected_ids pc) \<Longrightarrow> ob_locks s' i = Some p \<and> stored (ob_db s) i" for i using assms(6,8) inv_p(4) by auto
  show "q \<noteq> p \<Longrightarrow> ob_locks s i = Some q \<Longrightarrow> ob_locks s' i = Some q" for q i by (rule assms(9))
qed

lemma goto_sel [simp]:
  "ob_pubs (goto_pub p pc s) = (ob_pubs s)(p := pc)" "ob_db (goto_pub p pc s) = ob_db s"
  "ob_written (goto_pub p pc s) = ob_written s" "ob_locks (goto_pub p pc s) = ob_locks s"
  by (simp_all add: goto_pub_def)

lemma locks_sel [simp]:
  "ob_pubs (release_locks p s) = ob_pubs s" "ob_db (release_locks p s) = ob_db s" "ob_written (release_locks p s) = ob_written s"
  "ob_locks (release_locks p s) i = (if ob_locks s i = Some p then None else ob_locks s i)"
  "ob_pubs (take_locks p is s) = ob_pubs s" "ob_db (take_locks p is s) = ob_db s" "ob_written (take_locks p is s) = ob_written s"
  "ob_locks (take_locks p is s) i = (if i \<in> set is then Some p else ob_locks s i)"
  by (simp_all add: release_locks_def take_locks_def)

text \<open>What the steps of a batch do when they are enabled.\<close>

lemma pub_updateE:
  assumes "pub_update p s = Some s'"
  obtains rows where "ob_pubs s p = PubSelected rows" and "s' = goto_pub p (PubUpdated rows) s"
  using assms by (auto simp: pub_update_def split: pub_pc.splits)

lemma pub_rollbackE: "pub_rollback p s = Some s' \<Longrightarrow> s' = goto_pub p PubIdle (release_locks p s)"
  by (auto simp: pub_rollback_def split: pub_pc.splits)

definition claimed_db :: "outboxEventRow list \<Rightarrow> outbox \<Rightarrow> outbox" where
  "claimed_db rows s =
     s\<lparr>ob_db := set_outbox_status (\<lambda>r. er_id r \<in> set (map er_id rows)) ''CLAIMED'' None (ob_db s)\<rparr>"

lemma pub_commitE:
  assumes "pub_commit p reply s = Some s'"
  obtains rows where "ob_pubs s p = PubUpdated rows" and
    "s' = goto_pub p (if reply then PubSending (map row_to_event rows) else PubIdle) (release_locks p (claimed_db rows s))"
  using assms by (auto simp: pub_commit_def claimed_db_def split: pub_pc.splits)

lemma pub_sendE:
  assumes "pub_send p out s = Some s'"
  obtains ev evs where "ob_pubs s p = PubSending (ev # evs)" and
    "s' = goto_pub p (PubMarking (out = SendOk) (ev_id ev) evs)
       (if out = SendLost then s else s\<lparr>ob_written := ob_written s @ [(p, ev)]\<rparr>)"
  using assms by (auto simp: pub_send_def split: pub_pc.splits list.splits)

lemma pub_markE:
  assumes "pub_mark pg p now applied s = Some s'"
  obtains wrote j evs sel st pub where "ob_pubs s p = PubMarking wrote j evs" and "st \<noteq> ''PENDING''" and
    "s' = goto_pub p (if evs = [] then PubIdle else PubSending evs)
       (s\<lparr>ob_db := set_outbox_status sel st pub (ob_db s)\<rparr>)"
proof -
  from assms obtain wrote j evs where pc: "ob_pubs s p = PubMarking wrote j evs" and
    s': "s' = goto_pub p (if evs = [] then PubIdle else PubSending evs)
      (if applied then s\<lparr>ob_db := or_same (ob_db s)
          (apply_stmt (mark_outbox pg (if wrote then ''PUBLISHED'' else ''FAILED'') j now) (ob_db s))\<rparr> else s)"
    by (auto simp: pub_mark_def split: pub_pc.splits)
  show thesis
  proof (cases "applied \<and> pg_uuid pg j \<noteq> None")
    case True
    then show thesis
      using that [OF pc, of "if wrote then ''PUBLISHED'' else ''FAILED''"] s' by (auto simp: or_same_def mark_outbox_def)
  next
    case False
    then show thesis
      using that [OF pc, of "''FAILED''" "\<lambda>_. False" None] s' by (auto simp: or_same_def mark_outbox_def)
  qed
qed

lemma store_eventE:
  assumes "store_event pg ev s = Some s'"
  obtains r where "er_id r \<notin> er_id ` set (t_outbox_events (ob_db s))" and
    "s' = s\<lparr>ob_db := (ob_db s)\<lparr>t_outbox_events := t_outbox_events (ob_db s) @ [r]\<rparr>\<rparr>"
  using assms by (auto simp: store_event_def insert_outbox_def list_ex_key split: option.splits if_splits)

lemma append_settled:
  assumes "er_id r \<notin> er_id ` set (t_outbox_events d)"
  shows "stored d i \<Longrightarrow> stored (d\<lparr>t_outbox_events := t_outbox_events d @ [r]\<rparr>) i"
    and "settled d i \<Longrightarrow> settled (d\<lparr>t_outbox_events := t_outbox_events d @ [r]\<rparr>) i"
  using assms by (auto simp: stored_def settled_def)

lemma inv_idle:
  assumes "outbox_inv s"
  shows "outbox_inv (goto_pub p PubIdle (release_locks p s))"
  by (rule outbox_inv_fewer [OF assms, where p = p and pc = PubIdle]) simp_all

lemma pub_select_inv:
  assumes inv: "outbox_inv s" and "pub_select p rank n s = Some s'"
  shows "outbox_inv s'"
proof -
  let ?rows = "select_skip_locked rank (ob_locks s) n (ob_db s)"
  show ?thesis
  proof (cases "?rows = []")
    case True
    then show ?thesis using assms by (simp add: pub_select_def split: if_splits)
  next
    case False
    then have s': "s' = goto_pub p (PubSelected ?rows) (take_locks p (map er_id ?rows) s)" and idle: "ob_pubs s p = PubIdle"
      using assms(2) by (simp_all add: pub_select_def Let_def split: if_splits)
    have "set ?rows \<subseteq> set (filter (\<lambda>r. ob_locks s (er_id r) = None) (oldest_first rank (pending (ob_db s))))"
      unfolding select_skip_locked_def by (rule set_take_subset)
    then have rows: "\<forall>r \<in> set ?rows. r \<in> set (t_outbox_events (ob_db s)) \<and> er_status r = ''PENDING'' \<and> ob_locks s (er_id r) = None"
      by auto
    then have free: "\<not> settled (ob_db s) i \<and> stored (ob_db s) i \<and> ob_locks s i = None" if "i \<in> set (map er_id ?rows)" for i
      using that by (auto simp: settled_def stored_def)
    have "distinct (map er_id (filter (\<lambda>r. ob_locks s (er_id r) = None) (oldest_first rank (pending (ob_db s)))))"
      using oldest_first_distinct [OF pending_distinct [of "ob_db s"]] inv by (simp add: outbox_inv_def distinct_map_filter)
    then have "distinct (map er_id ?rows)" unfolding select_skip_locked_def take_map [symmetric] by (rule distinct_take)
    moreover have "set (map er_id ?rows) \<inter> set (written_ids s) = {}" using free inv by (auto simp: outbox_inv_def)
    moreover have "set (map er_id ?rows) \<inter> set (claims s q) = {}" for q
    proof (rule ccontr)
      assume "set (map er_id ?rows) \<inter> set (claims s q) \<noteq> {}"
      then obtain i where i: "i \<in> set (map er_id ?rows)" "i \<in> set (claims s q)" by blast
      then have "settled (ob_db s) i \<or> ob_locks s i = Some q" using inv by (auto simp: outbox_inv_def claims_def)
      then show False using free [OF i(1)] by auto
    qed
    ultimately show ?thesis
      unfolding s' by (intro outbox_inv_goto [OF inv, where p = p and pc = "PubSelected ?rows"]) (use free in auto)
  qed
qed


text \<open>A commit turns what was selected into the publisher's hand, and settles it.\<close>

lemma claimed_db_sel [simp]:
  "ob_pubs (claimed_db rows s) = ob_pubs s" "ob_written (claimed_db rows s) = ob_written s" "ob_locks (claimed_db rows s) = ob_locks s"
  by (simp_all add: claimed_db_def)

lemma claimed_db_settles: "stored (ob_db s) i \<Longrightarrow> i \<in> set (map er_id rows) \<Longrightarrow> settled (ob_db (claimed_db rows s)) i"
  unfolding claimed_db_def by (simp, rule set_status_settles [OF _ refl]) auto

lemma claimed_db_settled: "settled (ob_db s) i \<Longrightarrow> settled (ob_db (claimed_db rows s)) i"
  by (simp add: claimed_db_def set_status_settled)

lemma marked_inv: "outbox_inv s \<Longrightarrow> st \<noteq> ''PENDING'' \<Longrightarrow> outbox_inv (s\<lparr>ob_db := set_outbox_status sel st pub (ob_db s)\<rparr>)"
  by (rule outbox_inv_db) (simp_all add: set_status_settled outbox_inv_def)

lemma pub_commit_inv:
  assumes inv: "outbox_inv s" and "pub_commit p reply s = Some s'"
  shows "outbox_inv s'"
proof -
  from assms(2) obtain rows where pc: "ob_pubs s p = PubUpdated rows" and
    s': "s' = goto_pub p (if reply then PubSending (map row_to_event rows) else PubIdle) (release_locks p (claimed_db rows s))"
    by (rule pub_commitE)
  let ?pc = "if reply then PubSending (map row_to_event rows) else PubIdle"
  have inv': "outbox_inv (claimed_db rows s)" unfolding claimed_db_def by (rule marked_inv [OF inv]) simp
  have ids: "hand ?pc = (if reply then map er_id rows else [])" by (simp add: row_to_event_def comp_def)
  have old: "claims s p = map er_id rows" "claims (claimed_db rows s) q = claims s q"
    "written_ids (claimed_db rows s) = written_ids s" for q
    using pc by (simp_all add: claims_def written_ids_def)
  have rows: "distinct (map er_id rows)" "set (map er_id rows) \<inter> set (written_ids s) = {}"
    "\<forall>i \<in> set (map er_id rows). stored (ob_db s) i" "\<forall>q. q \<noteq> p \<longrightarrow> set (map er_id rows) \<inter> set (claims s q) = {}"
    using inv old(1) pc unfolding outbox_inv_def by (metis, metis, metis selected_ids.simps(2), metis)
  show ?thesis
    unfolding s'
    by (rule outbox_inv_goto [OF inv', where p = p and pc = ?pc])
      (use rows claimed_db_settles [of s] ids old in \<open>auto split: if_splits\<close>)
qed

lemma pub_send_inv:
  assumes inv: "outbox_inv s" and "pub_send p out s = Some s'"
  shows "outbox_inv s'"
proof -
  from assms(2) obtain ev evs where pc: "ob_pubs s p = PubSending (ev # evs)" and
    s': "s' = goto_pub p (PubMarking (out = SendOk) (ev_id ev) evs)
      (if out = SendLost then s else s\<lparr>ob_written := ob_written s @ [(p, ev)]\<rparr>)"
    by (rule pub_sendE)
  let ?s = "goto_pub p (PubMarking (out = SendOk) (ev_id ev) evs) s"
  have p: "claims s p = ev_id ev # map ev_id evs" using pc by (simp add: claims_def)
  have old: "distinct (ev_id ev # map ev_id evs)" "ev_id ev \<notin> set (written_ids s)" "settled (ob_db s) (ev_id ev)"
    "\<And>q. q \<noteq> p \<Longrightarrow> ev_id ev \<notin> set (claims s q)"
  proof -
    show "distinct (ev_id ev # map ev_id evs)" "ev_id ev \<notin> set (written_ids s)" "q \<noteq> p \<Longrightarrow> ev_id ev \<notin> set (claims s q)" for q
      using inv p unfolding outbox_inv_def by (metis, metis disjoint_iff list.set_intros(1), metis disjoint_iff list.set_intros(1))
    have "ev_id ev \<in> set (hand (ob_pubs s p))" using pc by simp
    then show "settled (ob_db s) (ev_id ev)" using inv unfolding outbox_inv_def by blast
  qed
  have inv': "outbox_inv ?s"
    by (rule outbox_inv_fewer [OF inv, where p = p and pc = "PubMarking (out = SendOk) (ev_id ev) evs"])
      (use pc old(1) in auto)
  show ?thesis
  proof (cases "out = SendLost")
    case True
    then show ?thesis using inv' s' by simp
  next
    case False
    then have s'': "s' = ?s\<lparr>ob_written := ob_written s @ [(p, ev)]\<rparr>" using s' by (simp add: goto_pub_def)
    have w: "written_ids s' = written_ids s @ [ev_id ev]" "written_ids ?s = written_ids s" by (simp_all add: s'' written_ids_def)
    have "claims s' q = claims ?s q" for q by (simp add: s'' claims_def)
    moreover have "ev_id ev \<notin> set (claims ?s q)" for q
      using old(1,4) by (cases "q = p") (auto simp: claims_def)
    ultimately show ?thesis
      using inv' old(2,3) w unfolding outbox_inv_def by (auto simp: s'')
  qed
qed

lemma pub_mark_inv:
  assumes inv: "outbox_inv s" and "pub_mark pg p now applied s = Some s'"
  shows "outbox_inv s'"
proof -
  from assms(2) obtain wrote j evs sel st pub where pc: "ob_pubs s p = PubMarking wrote j evs" and st: "st \<noteq> ''PENDING''" and
    s': "s' = goto_pub p (if evs = [] then PubIdle else PubSending evs) (s\<lparr>ob_db := set_outbox_status sel st pub (ob_db s)\<rparr>)"
    by (rule pub_markE)
  have "claims s p = map ev_id evs" using pc by (simp add: claims_def)
  then have "distinct (map ev_id evs)" using inv unfolding outbox_inv_def by metis
  then show ?thesis
    unfolding s' using pc
    by (intro outbox_inv_fewer [OF marked_inv [OF inv st], where p = p and pc = "if evs = [] then PubIdle else PubSending evs"]) auto
qed

lemma store_event_inv:
  assumes inv: "outbox_inv s" and "store_event pg ev s = Some s'"
  shows "outbox_inv s'"
proof -
  from assms(2) obtain r where r: "er_id r \<notin> er_id ` set (t_outbox_events (ob_db s))" and
    s': "s' = s\<lparr>ob_db := (ob_db s)\<lparr>t_outbox_events := t_outbox_events (ob_db s) @ [r]\<rparr>\<rparr>"
    by (rule store_eventE)
  show ?thesis
    unfolding s' by (rule outbox_inv_db [OF inv])
      (use inv r append_settled [OF r] in \<open>auto simp: outbox_inv_def event_ids_distinct_def\<close>)
qed

lemma outbox_step_inv:
  assumes inv: "outbox_inv s" and step: "outbox_step pg e s = Some s'"
  shows "outbox_inv s'"
proof (cases e)
  case (PubUpdate p)
  then obtain rows where "ob_pubs s p = PubSelected rows" "s' = goto_pub p (PubUpdated rows) s"
    using step by (auto elim: pub_updateE)
  moreover have "distinct (map er_id rows)"
    using inv calculation(1) unfolding outbox_inv_def claims_def by (metis append_Nil2 hand.simps(4) selected_ids.simps(1))
  ultimately show ?thesis by (auto intro!: outbox_inv_fewer [OF inv, where p = p and pc = "PubUpdated rows"])
next
  case (PubRollback p)
  then show ?thesis using step inv_idle [OF inv] by (auto dest: pub_rollbackE)
qed (use inv step in \<open>auto simp: pub_kill_def intro: store_event_inv pub_select_inv pub_commit_inv pub_send_inv pub_mark_inv inv_idle\<close>)


lemma outbox_start_inv: "event_ids_distinct d \<Longrightarrow> outbox_inv (outbox_start d)"
  by (simp add: outbox_inv_def outbox_start_def claims_def written_ids_def)

interpretation publishers: step_invariant "outbox_step pg" "outbox_start d" "\<lambda>s. event_ids_distinct d \<longrightarrow> outbox_inv s" for pg d
  by unfold_locales (auto simp: outbox_start_inv intro: outbox_step_inv)

subsection \<open>At most once\<close>

text \<open>
  C11: however many publishers share the outbox, whatever their interleaving, and whichever of
  them fail or are killed at whatever point, no event is written to Kafka twice, no two of them
  ever have the same event in hand, and nobody has in hand an event that is already written.
\<close>

theorem outbox_at_most_once:
  assumes "event_ids_distinct d" and "reachable (outbox_step pg) (outbox_start d) s"
  shows "distinct (written_ids s) \<and>
    (\<forall>p q. p \<noteq> q \<longrightarrow> set (claims s p) \<inter> set (claims s q) = {}) \<and>
    (\<forall>p. set (claims s p) \<inter> set (written_ids s) = {})"
  using publishers.inv_reachable [OF assms(2)] assms(1) by (simp add: outbox_inv_def)

text \<open>Two publishers in turn.\<close>

definition two_claims :: "outbox_event list" where
  "two_claims = [PubSelect 0 (\<lambda>_. 0) 1, PubSelect 1 (\<lambda>_. 0) 1, PubUpdate 1, PubUpdate 0, PubCommit 0 True, PubCommit 1 True]"

lemma two_claims_run:
  "\<exists>s. run_steps (outbox_step ideal_pg) two_claims (outbox_start demo_outbox) = Some s \<and>
     claims s 0 = [''e3''] \<and> claims s 1 = [''e1''] \<and> ob_pubs s 0 = PubSending [row_to_event (demo_event ''e3'' ''PENDING'' 2)]"
  by (simp add: two_claims_def outbox_start_def pub_select_def pub_update_def pub_commit_def select_skip_locked_def
      demo_outbox_ok(5) goto_pub_def take_locks_def release_locks_def claims_def row_to_event_def)
    (simp add: demo_event_def)

theorem outbox_at_most_once_witness:
  "\<exists>s. reachable (outbox_step ideal_pg) (outbox_start demo_outbox) s \<and> claims s 0 = [''e3''] \<and> claims s 1 = [''e1''] \<and>
     distinct (written_ids s)"
proof -
  obtain s where run: "run_steps (outbox_step ideal_pg) two_claims (outbox_start demo_outbox) = Some s" and
    s: "claims s 0 = [''e3'']" "claims s 1 = [''e1'']" using two_claims_run by blast
  have reach: "reachable (outbox_step ideal_pg) (outbox_start demo_outbox) s"
    by (rule reachable_run [OF reachable_start run])
  from outbox_at_most_once [OF demo_outbox_ok(3) reach] s reach show ?thesis by blast
qed

subsection \<open>Not at least once\<close>

text \<open>An event that is settled, not written and in nobody's hands.\<close>

definition lost :: "string \<Rightarrow> outbox \<Rightarrow> bool" where
  "lost i s \<longleftrightarrow> settled (ob_db s) i \<and> i \<notin> set (written_ids s) \<and> (\<forall>p. i \<notin> set (claims s p))"

lemma lost_db: "lost i s \<Longrightarrow> settled d i \<Longrightarrow> lost i (s\<lparr>ob_db := d\<rparr>)"
  by (simp add: lost_def claims_def written_ids_def)

lemma lost_goto:
  assumes "lost i s" and "ob_pubs s' = (ob_pubs s)(p := pc)" and "settled (ob_db s') i" and "i \<notin> set (written_ids s')"
    and "i \<notin> set (selected_ids pc @ hand pc)"
  shows "lost i s'"
  using assms by (auto simp: lost_def claims_of_goto [OF assms(2)])

lemma lost_select:
  assumes "lost i s" and "pub_select p rank n s = Some s'"
  shows "lost i s'"
proof -
  let ?rows = "select_skip_locked rank (ob_locks s) n (ob_db s)"
  have "set ?rows \<subseteq> set (pending (ob_db s))"
    unfolding select_skip_locked_def using set_take_subset [of n] by fastforce
  then have "i \<notin> set (map er_id ?rows)" using assms(1) by (auto simp: lost_def settled_def)
  moreover have "s' = s \<or> s' = goto_pub p (PubSelected ?rows) (take_locks p (map er_id ?rows) s)"
    using assms(2) by (auto simp: pub_select_def Let_def split: if_splits)
  moreover have "settled (ob_db s) i" "i \<notin> set (written_ids s)" using assms(1) by (simp_all add: lost_def)
  ultimately show ?thesis
    using lost_goto [OF assms(1), of s' p "PubSelected ?rows"] assms(1) by (auto simp: written_ids_def)
qed

lemma lost_step:
  assumes "lost i s" and step: "outbox_step pg e s = Some s'"
  shows "lost i s'"
proof -
  have st: "settled (ob_db s) i" and w: "i \<notin> set (written_ids s)" and cl: "i \<notin> set (claims s p)" for p
    using assms(1) by (simp_all add: lost_def)
  note facts = st w cl written_ids_def claims_def and goto = lost_goto [OF assms(1)]
  show ?thesis
  proof (cases e)
    case (StoreEvent ev)
    then show ?thesis using step append_settled(2) [OF _ st] by (auto elim!: store_eventE intro!: lost_db [OF assms(1)])
  next
    case (PubSelect p rank n)
    then show ?thesis using step lost_select [OF assms(1)] by simp
  next
    case (PubUpdate p)
    then obtain rows where "ob_pubs s p = PubSelected rows" "s' = goto_pub p (PubUpdated rows) s"
      using step by (auto elim: pub_updateE)
    then show ?thesis using st w cl [of p] by (intro goto [where p = p and pc = "PubUpdated rows"]) (simp_all add: facts(4,5))
  next
    case (PubCommit p reply)
    then obtain rows where pc: "ob_pubs s p = PubUpdated rows" and
      s': "s' = goto_pub p (if reply then PubSending (map row_to_event rows) else PubIdle) (release_locks p (claimed_db rows s))"
      using step by (auto elim: pub_commitE)
    then show ?thesis
      unfolding s' using w cl [of p]
      by (intro goto [where p = p and pc = "if reply then PubSending (map row_to_event rows) else PubIdle"])
        (auto simp: facts(4,5) row_to_event_def claimed_db_settled [OF st])
  next
    case (PubRollback p)
    then have "s' = goto_pub p PubIdle (release_locks p s)" using step by (auto dest: pub_rollbackE)
    then show ?thesis using st w by (intro goto [where p = p and pc = PubIdle]) (simp_all add: facts(4))
  next
    case (PubSend p out)
    then obtain ev evs where "ob_pubs s p = PubSending (ev # evs)" and
      s': "s' = goto_pub p (PubMarking (out = SendOk) (ev_id ev) evs)
        (if out = SendLost then s else s\<lparr>ob_written := ob_written s @ [(p, ev)]\<rparr>)"
      using step by (auto elim: pub_sendE)
    then show ?thesis
      unfolding s' using st w cl [of p]
      by (intro goto [where p = p and pc = "PubMarking (out = SendOk) (ev_id ev) evs"]) (auto simp: facts(4,5))
  next
    case (PubMark p now applied)
    then obtain wrote j evs sel status pub where "ob_pubs s p = PubMarking wrote j evs" "status \<noteq> ''PENDING''"
      "s' = goto_pub p (if evs = [] then PubIdle else PubSending evs) (s\<lparr>ob_db := set_outbox_status sel status pub (ob_db s)\<rparr>)"
      using step by (auto elim: pub_markE)
    then show ?thesis
      using w cl [of p]
      by (intro goto [where p = p and pc = "if evs = [] then PubIdle else PubSending evs"])
        (auto simp: facts(4,5) set_status_settled [OF st])
  next
    case (PubKill p)
    then show ?thesis using step st w by (intro goto [where p = p and pc = PubIdle]) (auto simp: pub_kill_def facts(4))
  qed
qed

interpretation lost_event: step_invariant "outbox_step pg" s0 "\<lambda>s. lost i s0 \<longrightarrow> lost i s" for pg s0 i
  by unfold_locales (auto intro: lost_step)

text \<open>
  What a failure takes away from the publishers: a kill everything the publisher has in hand,
  whether it was about to write or to record an outcome; a lost reply to the commit of a claim
  the whole batch; a write that fails its event.
\<close>

fun cut_off :: "outbox_event \<Rightarrow> outbox \<Rightarrow> string set" where
  "cut_off (PubKill p) s = set (hand (ob_pubs s p))"
| "cut_off (PubCommit p False) s = set (selected_ids (ob_pubs s p))"
| "cut_off (PubSend p SendLost) s = set (take 1 (hand (ob_pubs s p)))"
| "cut_off _ _ = {}"

lemma cut_off_lost:
  assumes inv: "outbox_inv s" and i: "i \<in> cut_off e s" and step: "outbox_step pg e s = Some s1"
  shows "lost i s1"
proof -
  note inv_p = inv [unfolded outbox_inv_def, THEN conjunct2, THEN conjunct2, THEN conjunct2]
  have mine: "i \<notin> set (written_ids s) \<and> (\<forall>q. q \<noteq> p \<longrightarrow> i \<notin> set (claims s q))" if "i \<in> set (claims s p)" for p
    using that inv_p by (meson disjoint_iff)
  have settled: "settled (ob_db s) i" if "i \<in> set (hand (ob_pubs s p))" for p using that inv_p by blast
  have goto: "lost i s1" if "i \<in> set (claims s p)" and "ob_pubs s1 = (ob_pubs s)(p := pc)"
      "written_ids s1 = written_ids s" "settled (ob_db s1) i" "i \<notin> set (selected_ids pc @ hand pc)" for p pc
    using that mine [of p] by (simp add: lost_def claims_of_goto)
  from i consider (kill) p where "e = PubKill p" "i \<in> set (hand (ob_pubs s p))"
    | (commit) p where "e = PubCommit p False" "i \<in> set (selected_ids (ob_pubs s p))"
    | (send) p where "e = PubSend p SendLost" "i \<in> set (take 1 (hand (ob_pubs s p)))"
    by (cases "(e, s)" rule: cut_off.cases) auto
  then show ?thesis
  proof cases
    case (kill p)
    then show ?thesis
      using step settled [of p] by (intro goto [where p = p and pc = PubIdle]) (auto simp: pub_kill_def claims_def written_ids_def)
  next
    case (commit p)
    obtain rows where pc: "ob_pubs s p = PubUpdated rows" and
      s1: "s1 = goto_pub p PubIdle (release_locks p (claimed_db rows s))"
      using step commit(1) by (auto elim: pub_commitE)
    have "stored (ob_db s) i" using commit(2) inv_p by blast
    then have "settled (ob_db (claimed_db rows s)) i" using commit(2) pc by (intro claimed_db_settles) auto
    with commit pc show ?thesis
      by (intro goto [where p = p and pc = PubIdle]) (auto simp: s1 claims_def written_ids_def)
  next
    case (send p)
    obtain ev evs where pc: "ob_pubs s p = PubSending (ev # evs)" and s1: "s1 = goto_pub p (PubMarking False (ev_id ev) evs) s"
      using step send(1) by (auto elim: pub_sendE)
    have "distinct (claims s p)" using inv_p by blast
    with send pc settled [of p] show ?thesis
      by (intro goto [where p = p and pc = "PubMarking False (ev_id ev) evs"]) (auto simp: s1 claims_def written_ids_def)
  qed
qed

text \<open>
  C28: delivery is not at least once. When a publisher is killed, every event it still has in
  hand is lost; so is every event of a batch when the reply to the commit of its claim is lost,
  and the event whose write is lost. A lost event is never written, whatever any publisher
  does later and however often they poll: it is not pending any more, and only pending events
  are claimed.
\<close>

theorem claimed_event_is_lost:
  assumes "event_ids_distinct d" and "reachable (outbox_step pg) (outbox_start d) s"
    and "i \<in> cut_off e s" and "run_steps (outbox_step pg) (e # es) s = Some s'"
  shows "i \<notin> set (written_ids s') \<and> settled (ob_db s') i \<and> (\<forall>p. i \<notin> set (claims s' p))"
proof -
  have inv: "outbox_inv s" using publishers.inv_reachable [OF assms(2)] assms(1) by simp
  obtain s1 where s1: "outbox_step pg e s = Some s1" "run_steps (outbox_step pg) es s1 = Some s'"
    using assms(4) by (auto split: option.splits)
  have "lost i s1" by (rule cut_off_lost [OF inv assms(3) s1(1)])
  then have "lost i s'" using lost_event.inv_run [of i s1 s1, OF _ s1(2)] by simp
  then show ?thesis by (simp add: lost_def)
qed

text \<open>A publisher that has claimed both pending events and written the first of them.\<close>

definition one_written :: "outbox_event list" where
  "one_written = [PubSelect 0 (\<lambda>_. 0) 10, PubUpdate 0, PubCommit 0 True, PubSend 0 SendOk]"

lemma one_written_run:
  "\<exists>s. run_steps (outbox_step ideal_pg) one_written (outbox_start demo_outbox) = Some s \<and>
     written_ids s = [''e3''] \<and> ob_pubs s 0 = PubMarking True ''e3'' [row_to_event (demo_event ''e1'' ''PENDING'' 5)]"
  by (simp add: one_written_def outbox_start_def pub_select_def pub_update_def pub_commit_def pub_send_def select_skip_locked_def
      demo_outbox_ok(5) goto_pub_def take_locks_def release_locks_def written_ids_def row_to_event_def)
    (simp add: demo_event_def)

theorem claimed_event_is_lost_witness:
  "\<exists>s s'. reachable (outbox_step ideal_pg) (outbox_start demo_outbox) s \<and> written_ids s = [''e3''] \<and>
     run_steps (outbox_step ideal_pg) [PubKill 0, PubSelect 0 (\<lambda>_. 0) 10] s = Some s' \<and> ''e1'' \<notin> set (written_ids s')"
proof -
  obtain s where run: "run_steps (outbox_step ideal_pg) one_written (outbox_start demo_outbox) = Some s" and
    s: "written_ids s = [''e3'']" "ob_pubs s 0 = PubMarking True ''e3'' [row_to_event (demo_event ''e1'' ''PENDING'' 5)]"
    using one_written_run by blast
  have reach: "reachable (outbox_step ideal_pg) (outbox_start demo_outbox) s"
    by (rule reachable_run [OF reachable_start run])
  have cut: "''e1'' \<in> cut_off (PubKill 0) s" by (simp add: s(2) row_to_event_def demo_event_def)
  obtain s' where run': "run_steps (outbox_step ideal_pg) [PubKill 0, PubSelect 0 (\<lambda>_. 0) 10] s = Some s'"
    by (cases "select_skip_locked (\<lambda>_. 0) (ob_locks (release_locks 0 s)) 10 (ob_db s) = []") (auto simp: pub_kill_def pub_select_def Let_def)
  from claimed_event_is_lost [OF demo_outbox_ok(3) reach cut run'] reach run' s(1) show ?thesis by auto
qed

end
