(* ===== verification/Outbox_Shutdown.thy ===== *)
theory Outbox_Shutdown
  imports Outbox_Publisher
begin

text \<open>
  What a shutdown of the order service does to the batch its publisher is working on. \<open>main\<close>
  cancels the context of the publisher and does not wait for it. From then on every call with
  that context returns an error (\<open>cancelled_from\<close>); whether it takes effect all the same is open,
  since a request can be under way when the context is cancelled and since kafka-go may still
  write messages after \<open>WriteMessages\<close> has returned the error. The loop of \<open>publishBatch\<close> goes on
  over the rest of the batch all the same.
\<close>

definition cancelled_from :: "nat \<Rightarrow> 'db env \<Rightarrow> bool" where
  "cancelled_from t env \<longleftrightarrow> (\<forall>n \<ge> t. e_fault env n \<noteq> None \<and> (\<forall>d. e_others env n d = d))"

lemma cancelledE:
  assumes "cancelled_from t env" and "t \<le> n"
  obtains m where "e_fault env n = Some (Lost m)" and "\<And>d. e_others env n d = d"
  | m where "e_fault env n = Some (Applied m)" and "\<And>d. e_others env n d = d"
  using assms unfolding cancelled_from_def by (metis fault.exhaust not_Some_eq)

text \<open>No event of a batch is recorded as published, and none is pending again.\<close>

definition unfinished :: "string set \<Rightarrow> order_db \<Rightarrow> bool" where
  "unfinished ids d \<longleftrightarrow>
     (\<forall>r \<in> set (t_outbox_events d). er_id r \<in> ids \<longrightarrow> er_status r \<in> {''CLAIMED'', ''FAILED''})"

lemma unfinished_failed: "unfinished ids d \<Longrightarrow> unfinished ids (set_outbox_status sel ''FAILED'' pub d)"
  by (auto simp: unfinished_def set_outbox_status_def)

subsection \<open>Calls with a cancelled context\<close>

lemma run_mark_cancelled:
  assumes "cancelled_from t env" and "t \<le> w_tick w" and "unfinished ids (w_db w)"
  shows "\<exists>e w'. run_state (outboxRepository_MarkFailed env oid) w = (Inl e, w') \<and>
    w_tick w \<le> w_tick w' \<and> w_sent w' = w_sent w \<and> unfinished ids (w_db w')"
proof (rule cancelledE [OF assms(1), of "Suc (w_tick w)"])
  show "t \<le> Suc (w_tick w)" using assms(2) by simp
qed (use assms(3) in \<open>auto simp: outboxRepository_MarkFailed_def run_time_now exec_db_def run_next_tick interfere_def
      or_same_def mark_outbox_def unfinished_failed split: option.splits\<close>)

lemma run_publish_cancelled:
  assumes "cancelled_from t env" and "t \<le> w_tick w"
  shows "\<exists>e w' msgs. run_state (publishEvent env (publisher env) ev) w = (Inl e, w') \<and>
    w_tick w \<le> w_tick w' \<and> w_db w' = w_db w \<and> w_sent w' = w_sent w @ msgs \<and>
    (msgs = [] \<or> (\<exists>msg. msgs = [msg] \<and> message_of ev msg))"
proof (rule cancelledE [OF assms(1), of "Suc (Suc (w_tick w))"])
  show "t \<le> Suc (Suc (w_tick w))" using assms(2) by simp
qed (simp_all add: publishEvent_def run_new_uuid InjectTraceHeaders_def run_next_tick event_message_def NewOutboxPublisher_def
      kafka_WriteMessages_def message_of_def Let_def getTopicForEvent_nonempty)

text \<open>The messages that went out belong to events of the batch, at most one to each.\<close>

definition some_written :: "OutboxEvent list \<Rightarrow> Message list \<Rightarrow> bool" where
  "some_written evs msgs \<longleftrightarrow> (\<exists>evs'. mset evs' \<subseteq># mset evs \<and> list_all2 message_of evs' msgs)"

lemma some_written_Cons:
  assumes "some_written evs msgs" and "ms = [] \<or> (\<exists>msg. ms = [msg] \<and> message_of ev msg)"
  shows "some_written (ev # evs) (ms @ msgs)"
proof -
  from assms(1) obtain evs' where e: "mset evs' \<subseteq># mset evs" "list_all2 message_of evs' msgs"
    by (auto simp: some_written_def)
  from assms(2) show ?thesis
  proof
    assume "ms = []"
    moreover have "mset evs' \<subseteq># mset (ev # evs)" using e(1) by (simp add: subset_mset.trans)
    ultimately show ?thesis using e(2) by (auto simp: some_written_def)
  next
    assume "\<exists>msg. ms = [msg] \<and> message_of ev msg"
    then obtain msg where "ms = [msg]" "message_of ev msg" by blast
    then have "mset (ev # evs') \<subseteq># mset (ev # evs)" "list_all2 message_of (ev # evs') (ms @ msgs)" using e by simp_all
    then show ?thesis unfolding some_written_def by blast
  qed
qed

lemma run_batch_cancelled:
  assumes "cancelled_from t env" and "t \<le> w_tick w" and "unfinished ids (w_db w)"
  shows "\<exists>w' msgs. run_state (for_each (publish_one env (publisher env)) evs) w = ((), w') \<and>
    unfinished ids (w_db w') \<and> w_sent w' = w_sent w @ msgs \<and> some_written evs msgs"
  using assms(2,3)
proof (induction evs arbitrary: w)
  case Nil
  then show ?case by (simp add: some_written_def)
next
  case (Cons ev evs)
  obtain e w1 ms where pub: "run_state (publishEvent env (publisher env) ev) w = (Inl e, w1)"
      "w_tick w \<le> w_tick w1" "w_db w1 = w_db w" "w_sent w1 = w_sent w @ ms" "ms = [] \<or> (\<exists>msg. ms = [msg] \<and> message_of ev msg)"
    using run_publish_cancelled [OF assms(1) Cons.prems(1)] by blast
  obtain e' w2 where mark: "run_state (outboxRepository_MarkFailed env (ev_id ev)) w1 = (Inl e', w2)"
      "w_tick w1 \<le> w_tick w2" "w_sent w2 = w_sent w1" "unfinished ids (w_db w2)"
    using run_mark_cancelled [OF assms(1), of w1 ids "ev_id ev"] pub(2,3) Cons.prems by auto
  have one: "run_state (publish_one env (publisher env) ev) w = ((), w2)"
    using pub(1) mark(1) by (simp add: publish_one_def NewOutboxPublisher_def NewOutboxRepository_def)
  obtain w' msgs where "run_state (for_each (publish_one env (publisher env)) evs) w2 = ((), w')"
      "unfinished ids (w_db w')" "w_sent w' = w_sent w2 @ msgs" "some_written evs msgs"
    using Cons.IH [of w2] Cons.prems(1) pub(2) mark(2,4) by auto
  then show ?case
    using one mark(3) pub(4) some_written_Cons [OF _ pub(5)] by (intro exI [of _ w'] exI [of _ "ms @ msgs"]) simp
qed

subsection \<open>What a claim leaves behind\<close>

lemma claimed_status: "r \<in> set (t_outbox_events (set_outbox_status (\<lambda>r. er_id r \<in> A) ''CLAIMED'' None d)) \<Longrightarrow> er_id r \<in> A \<Longrightarrow> er_status r = ''CLAIMED''"
  by (auto simp: set_outbox_status_def split: if_splits)

lemma ClaimBatch_claims:
  assumes "run_state (outboxRepository_ClaimBatch env limit) w = (Inr evs, w1)"
  shows "\<forall>r \<in> set (t_outbox_events (w_db w1)). er_id r \<in> ev_id ` set evs \<longrightarrow> er_status r = ''CLAIMED''"
proof -
  have ids: "ev_id (row_to_event r) = er_id r" for r by (simp add: row_to_event_def)
  show ?thesis
    using assms unfolding outboxRepository_ClaimBatch_def
    by (auto simp: BeginTxx_def exec_tx_def Commit_def Rollback_def run_next_tick run_row_order interfere_def claim_rows_def Let_def
        or_same_def ids image_image split: option.splits fault.splits sum.splits if_splits prod.splits elim!: claimed_status)
qed

text \<open>
  C29: a shutdown strands the batch in progress. When the context of the publisher is cancelled
  after it has claimed a batch, so that every later call returns an error, with or without
  having taken effect, and no other client works on the tables meanwhile, \<open>publishBatch\<close> runs over the whole batch and reports success. Every event
  of the batch ends up claimed or failed, never published and never pending, so that no later
  batch contains it, although nothing says whether its message was written: some of the
  messages may have been, each at most once.
\<close>

theorem shutdown_strands_batch:
  assumes "run_state (outboxRepository_ClaimBatch env limit) w = (Inr evs, w1)" and "cancelled_from (w_tick w1) env"
  shows "\<exists>w' evs' msgs. run_state (publishBatch env (publisher env) limit) w = (Inr (), w') \<and>
    (\<forall>r \<in> set (t_outbox_events (w_db w')). er_id r \<in> ev_id ` set evs \<longrightarrow> er_status r \<in> {''CLAIMED'', ''FAILED''}) \<and>
    (\<forall>r \<in> set (pending (w_db w')). er_id r \<notin> ev_id ` set evs) \<and>
    w_sent w' = w_sent w1 @ msgs \<and> mset evs' \<subseteq># mset evs \<and> list_all2 message_of evs' msgs"
proof -
  have "unfinished (ev_id ` set evs) (w_db w1)"
    using ClaimBatch_claims [OF assms(1)] by (auto simp: unfinished_def)
  then obtain w' msgs where run: "run_state (for_each (publish_one env (publisher env)) evs) w1 = ((), w')"
      and left: "unfinished (ev_id ` set evs) (w_db w')" "w_sent w' = w_sent w1 @ msgs" "some_written evs msgs"
    using run_batch_cancelled [OF assms(2) order_refl] by blast
  have "run_state (publishBatch env (publisher env) limit) w = (Inr (), w')"
    using assms(1) run by (cases "evs = []") (simp_all add: publishBatch_def NewOutboxPublisher_def NewOutboxRepository_def)
  moreover have "\<forall>r \<in> set (pending (w_db w')). er_id r \<notin> ev_id ` set evs"
    using left(1) by (auto simp: unfinished_def)
  ultimately show ?thesis using left unfolding unfinished_def some_written_def by blast
qed

text \<open>
  A publisher whose context is cancelled after the four round trips of its first claim: the
  write of the first message still reaches the broker, nothing else takes effect.
\<close>

definition stopping_env :: "order_db env" where
  "stopping_env = ideal_env\<lparr>e_fault := (\<lambda>n. if n < 4 then None
     else Some ((if n = 6 then Applied else Lost) ''context canceled''))\<rparr>"

theorem shutdown_strands_batch_witness:
  "\<exists>w'. run_state (publishBatch stopping_env (publisher stopping_env) 10) (idle demo_outbox) = (Inr (), w') \<and>
     (\<forall>r \<in> set (pending (w_db w')). er_id r \<notin> {''e3'', ''e1''}) \<and> length (w_sent w') \<le> 2"
proof -
  let ?evs = "map row_to_event [demo_event ''e3'' ''PENDING'' 2, demo_event ''e1'' ''PENDING'' 5]"
  have batch: "batch_of rank 10 demo_outbox = [demo_event ''e3'' ''PENDING'' 2, demo_event ''e1'' ''PENDING'' 5]" for rank
    by (simp add: batch_of_def demo_outbox_ok(5))
  obtain w1 where run: "run_state (outboxRepository_ClaimBatch stopping_env 10) (idle demo_outbox) = (Inr ?evs, w1)" and
    w1: "w_tick w1 = 4" "w_sent w1 = []"
    by (simp add: outboxRepository_ClaimBatch_def BeginTxx_def exec_tx_def Commit_def Rollback_def run_next_tick run_row_order
        interfere_def claim_rows_def select_for_claim_def pending_batch_eq batch Let_def or_same_def stopping_env_def)
  have "cancelled_from (w_tick w1) stopping_env" by (simp add: cancelled_from_def stopping_env_def w1(1))
  from shutdown_strands_batch [OF run this] obtain w' evs' msgs where
    w': "run_state (publishBatch stopping_env (publisher stopping_env) 10) (idle demo_outbox) = (Inr (), w')"
      "\<forall>r \<in> set (pending (w_db w')). er_id r \<notin> {''e3'', ''e1''}"
      "w_sent w' = msgs" "mset evs' \<subseteq># mset ?evs" "list_all2 message_of evs' msgs"
    by (auto simp: w1(2) row_to_event_def demo_event_def)
  have "size (mset evs') \<le> size (mset ?evs)" using w'(4) by (rule size_mset_mono)
  moreover have "length msgs = length evs'" using list_all2_lengthD [OF w'(5)] by simp
  ultimately show ?thesis using w'(1-3) by simp
qed

end
