(* ===== verification/Inventory_Update.thy ===== *)
theory Inventory_Update
  imports Inventory_Ledger
begin

text \<open>
  \<open>UpdateStock\<close> and \<open>GetStock\<close> against their specification on the tables in a calm environment:
  the first stock of a product in a warehouse, a change of an existing one with its movement,
  and every refusal.
\<close>

subsection \<open>The effect of the statements\<close>

definition add_units :: "int \<Rightarrow> int \<Rightarrow> Inventory \<Rightarrow> Inventory" where
  "add_units q t i = i\<lparr>iv_quantity_on_hand := iv_quantity_on_hand i + q, iv_version := iv_version i + 1, iv_updated_at := t\<rparr>"

text \<open>The columns that hold the new quantities have 32 bits.\<close>

definition in_range :: "int \<Rightarrow> Inventory \<Rightarrow> bool" where
  "in_range q i \<longleftrightarrow> int4_ok (iv_quantity_on_hand i + q) \<and> int4_ok (iv_quantity_on_hand i + q - iv_quantity_reserved i)"

lemma update_stock_at:
  assumes "inv_wf d" and "find_stock p wh d = Some i" and "stored_id pg p" and "stored_id pg wh" and "int4_ok q"
    and "iv_version i < 2 ^ 63 - 1"
  shows "if in_range q i
    then \<exists>n. n \<noteq> 0 \<and> update_stock pg p wh q (iv_version i) now d = Inr (at_stock p wh (add_units q (pg_timestamptz pg now)) d, n)
    else update_stock pg p wh q (iv_version i) now d = Inl pq_range"
proof -
  have i: "stock_ok i" "i \<in> set (t_inventory d)" "at_place p wh i"
    using assms(1) find_stock_in [OF assms(2)] by (auto simp: inv_wf_def list_all_iff)
  have ok: "stock_ok (add_units q (pg_timestamptz pg now) i) \<longleftrightarrow> in_range q i"
    using i(1) assms(6) by (auto simp: stock_ok_def add_units_def in_range_def int64_ok_def)
  have upd: "update_stock pg p wh q (iv_version i) now d =
      update_rows (\<lambda>j. at_place p wh j \<and> iv_version j = iv_version i) (add_units q (pg_timestamptz pg now)) d"
    using assms(3-5) by (simp add: update_stock_def update_at_def stored_id_def add_units_def [abs_def])
  show ?thesis
  proof (cases "in_range q i")
    case True
    then show ?thesis
      using update_rows_at [OF assms(1,2), where cond = "\<lambda>j. iv_version j = iv_version i", of "add_units q (pg_timestamptz pg now)"] ok upd
      by simp
  next
    case False
    then have "\<not> list_all (\<lambda>j. at_place p wh j \<and> iv_version j = iv_version i \<longrightarrow> stock_ok (add_units q (pg_timestamptz pg now) j))
        (t_inventory d)"
      using i ok by (auto simp: list_all_iff)
    with False show ?thesis by (simp add: upd update_rows_def)
  qed
qed

lemma manual_movement_convertible:
  assumes "varchar_keeps pg" and "movement_of p sku wid ty q ''manual'' '''' mv" and "stored_id pg (mv_id mv)"
    and "stored_id pg p" and "stored_id pg wid" and "stored_sku pg sku" and "int4_ok q"
    and "pg_varchar pg 30 ty = Some ty"
  shows "\<exists>row. movement_row pg mv = Some row \<and> mr_id row = mv_id mv"
  using assms inventory_literals [OF assms(1)]
  by (simp add: movement_row_def movement_of_def stored_id_def stored_sku_def null_if_empty_def int4_def)

subsection \<open>The movement\<close>

text \<open>The movement both branches end with, its error ignored.\<close>

definition record_movement :: "inv_db env \<Rightarrow> UpdateStockRequest \<Rightarrow> string \<Rightarrow> MovementType \<Rightarrow> (inv_db, unit) ioe" where
  "record_movement env req wid ty = do {
     mv \<leftarrow> new_movement env (us_product_id req) (us_sku req) wid ty (us_quantity req) ''manual'' '''';
     _ \<leftarrow> MovementRepository_Create (uc_movementRepo (inventoryUC env)) mv;
     ok ()}"

text \<open>The row of a movement of the requested quantity.\<close>

definition movement_stored :: "pg_types \<Rightarrow> UpdateStockRequest \<Rightarrow> string \<Rightarrow> MovementType \<Rightarrow> movementRow \<Rightarrow> bool" where
  "movement_stored pg req wid ty row \<longleftrightarrow>
     (\<exists>mv. movement_of (us_product_id req) (us_sku req) wid ty (us_quantity req) ''manual'' '''' mv \<and> movement_row pg mv = Some row)"

lemma record_movement_calm:
  assumes "calm env" and "varchar_keeps (e_pg env)" and "fresh_ids env (w_db w) (w_tick w)"
    and "stored_id (e_pg env) (us_product_id req)" and "stored_id (e_pg env) wid" and "stored_sku (e_pg env) (us_sku req)"
    and "int4_ok (us_quantity req)" and "pg_varchar (e_pg env) 30 ty = Some ty"
  shows "\<exists>row w'. run_state (record_movement env req wid ty) w = (Inr (), w') \<and> movement_stored (e_pg env) req wid ty row \<and>
    w_db w' = (w_db w)\<lparr>t_movements := t_movements (w_db w) @ [row]\<rparr>"
proof -
  obtain mv where mv: "run_state (new_movement env (us_product_id req) (us_sku req) wid ty (us_quantity req) ''manual'' '''') w =
      (mv, w\<lparr>w_tick := w_tick w + 2\<rparr>)" "movement_of (us_product_id req) (us_sku req) wid ty (us_quantity req) ''manual'' '''' mv"
      "mv_id mv = e_uuid env (w_tick w)"
    using run_new_movement by blast
  obtain row where row: "movement_row (e_pg env) mv = Some row" "mr_id row = mv_id mv"
    using manual_movement_convertible [OF assms(2) mv(2) _ assms(4-8)] assms(3) mv(3) by (auto simp: fresh_ids_def)
  have "mr_id row \<notin> mr_id ` set (t_movements (w_db w))" using assms(3) row(2) mv(3) by (simp add: fresh_ids_def)
  then have "insert_movement (e_pg env) mv (w_db w) = Inr ((w_db w)\<lparr>t_movements := t_movements (w_db w) @ [row]\<rparr>, ())"
    by (simp add: insert_movement_def row list_ex_key)
  then show ?thesis
    using assms(1) mv(1,2) row(1)
    by (auto simp: record_movement_def inventoryUC_def NewMovementRepository_def movementRepository_Create_def
        movementRepository_CreateInTx_def execute_def run_exec_db_calm movement_stored_def)
qed

subsection \<open>The two branches of UpdateStock\<close>

text \<open>A new stock level as requested.\<close>

definition first_stock :: "UpdateStockRequest \<Rightarrow> Inventory \<Rightarrow> bool" where
  "first_stock req row \<longleftrightarrow> at_place (us_product_id req) (us_warehouse_id req) row \<and> iv_sku row = us_sku req \<and>
     iv_quantity_on_hand row = us_quantity req \<and> iv_quantity_reserved row = 0 \<and> iv_version row = 0"

definition update_spec :: "pg_types \<Rightarrow> UpdateStockRequest \<Rightarrow> inv_db \<Rightarrow> unit result \<Rightarrow> inv_db \<Rightarrow> bool" where
  "update_spec pg req d r d' \<longleftrightarrow>
     (case find_stock (us_product_id req) (us_warehouse_id req) d of
        None \<Rightarrow>
          if us_warehouse_id req \<in> wh_id ` set (t_warehouses d)
          then r = Inr () \<and> (\<exists>row mrow. first_stock req row \<and> movement_stored pg req (us_warehouse_id req) MovementIn mrow \<and>
            d' = d\<lparr>t_inventory := t_inventory d @ [row], t_movements := t_movements d @ [mrow]\<rparr>)
          else r = Inl pq_foreign_key \<and> d' = d
      | Some i \<Rightarrow>
          if in_range (us_quantity req) i
          then r = Inr () \<and> (\<exists>t mrow. movement_stored pg req (us_warehouse_id req)
              (if us_quantity req < 0 then MovementOut else MovementIn) mrow \<and>
            d' = (at_stock (us_product_id req) (us_warehouse_id req) (add_units (us_quantity req) t) d)
                   \<lparr>t_movements := t_movements d @ [mrow]\<rparr>)
          else r = Inl pq_range \<and> d' = d)"

definition update_ready :: "inv_db env \<Rightarrow> UpdateStockRequest \<Rightarrow> inv_db world \<Rightarrow> bool" where
  "update_ready env req w \<longleftrightarrow>
     inv_wf (w_db w) \<and> fresh_ids env (w_db w) (w_tick w) \<and> (\<forall>n. e_uuid env n \<notin> iv_id ` set (t_inventory (w_db w))) \<and>
     stored_id (e_pg env) (us_product_id req) \<and> stored_id (e_pg env) (us_warehouse_id req) \<and> us_warehouse_id req \<noteq> '''' \<and>
     stored_sku (e_pg env) (us_sku req) \<and> int4_ok (us_quantity req) \<and>
     cold_stock env w (us_product_id req) (us_warehouse_id req) \<and>
     list_all (\<lambda>i. iv_version i < 2 ^ 63 - 1) (t_inventory (w_db w))"

lemma cached_update_calm:
  assumes calm: "calm env" and "inv_wf (w_db w)" and "find_stock p wh (w_db w) = Some i" and "stored_id (e_pg env) p"
    and "stored_id (e_pg env) wh" and "int4_ok q" and "iv_version i < 2 ^ 63 - 1"
  shows "\<exists>w'. w_tick w \<le> w_tick w' \<and>
    (if in_range q i
     then (\<exists>t. run_state (InventoryRepository_UpdateStock (uc_inventoryRepo (inventoryUC env)) p wh q (iv_version i)) w = (Inr (), w') \<and>
       w_db w' = at_stock p wh (add_units q t) (w_db w))
     else run_state (InventoryRepository_UpdateStock (uc_inventoryRepo (inventoryUC env)) p wh q (iv_version i)) w = (Inl pq_range, w') \<and>
       w_db w' = w_db w)"
proof -
  let ?now = "e_now env (w_tick w)"
  note at = update_stock_at [OF assms(2-7), of ?now]
  note run = inventoryUC_def NewInventoryCache_def NewInventoryRepository_def invalidating_def
    inventoryRepository_UpdateStock_def run_time_now run_exec_db_calm run_Cache_Delete_calm
  show ?thesis
  proof (cases "in_range q i")
    case True
    with at obtain n where "n \<noteq> 0"
      "update_stock (e_pg env) p wh q (iv_version i) ?now (w_db w) = Inr (at_stock p wh (add_units q (pg_timestamptz (e_pg env) ?now)) (w_db w), n)"
      by auto
    with True calm show ?thesis by (auto simp: run intro!: exI [of _ "pg_timestamptz (e_pg env) ?now"])
  next
    case False
    with at calm show ?thesis by (auto simp: run)
  qed
qed

lemma change_stock_calm:
  assumes calm: "calm env" and vc: "varchar_keeps (e_pg env)" and ready: "update_ready env req w"
    and w1: "w_db w1 = w_db w" "w_tick w \<le> w_tick w1"
    and found: "find_stock (us_product_id req) (us_warehouse_id req) (w_db w) = Some i"
  shows "case run_state (change_stock env (inventoryUC env) req (us_warehouse_id req) (iv_version i)) w1 of (r, w') \<Rightarrow>
    update_spec (e_pg env) req (w_db w) r (w_db w')"
proof -
  let ?ty = "if us_quantity req < 0 then MovementOut else MovementIn"
  have v: "iv_version i < 2 ^ 63 - 1" using ready find_stock_in [OF found] by (auto simp: update_ready_def list_all_iff)
  have at: "inv_wf (w_db w1)" "find_stock (us_product_id req) (us_warehouse_id req) (w_db w1) = Some i"
    "stored_id (e_pg env) (us_product_id req)" "stored_id (e_pg env) (us_warehouse_id req)" "int4_ok (us_quantity req)"
    "stored_sku (e_pg env) (us_sku req)" "fresh_ids env (w_db w) (w_tick w)"
    using ready w1 found by (simp_all add: update_ready_def)
  note eq = change_stock_def update_spec_def found
  obtain w2 where w2: "w_tick w1 \<le> w_tick w2" and upd: "if in_range (us_quantity req) i
     then (\<exists>t. run_state (InventoryRepository_UpdateStock (uc_inventoryRepo (inventoryUC env)) (us_product_id req) (us_warehouse_id req)
         (us_quantity req) (iv_version i)) w1 = (Inr (), w2) \<and>
       w_db w2 = at_stock (us_product_id req) (us_warehouse_id req) (add_units (us_quantity req) t) (w_db w1))
     else run_state (InventoryRepository_UpdateStock (uc_inventoryRepo (inventoryUC env)) (us_product_id req) (us_warehouse_id req)
         (us_quantity req) (iv_version i)) w1 = (Inl pq_range, w2) \<and> w_db w2 = w_db w1"
    using cached_update_calm [OF calm at(1-5) v] by blast
  show ?thesis
  proof (cases "in_range (us_quantity req) i")
    case False
    with upd w1(1) show ?thesis by (simp add: eq)
  next
    case True
    with upd obtain t where run: "run_state (InventoryRepository_UpdateStock (uc_inventoryRepo (inventoryUC env)) (us_product_id req)
          (us_warehouse_id req) (us_quantity req) (iv_version i)) w1 = (Inr (), w2)"
      and d2: "w_db w2 = at_stock (us_product_id req) (us_warehouse_id req) (add_units (us_quantity req) t) (w_db w)"
      using w1(1) by auto
    have "fresh_ids env (w_db w2) (w_tick w2)" using fresh_ids_later [OF at(7)] d2 w2 w1(2) by simp
    moreover have "pg_varchar (e_pg env) 30 ?ty = Some ?ty" by (simp add: inventory_literals [OF vc])
    ultimately obtain row w3 where "run_state (record_movement env req (us_warehouse_id req) ?ty) w2 = (Inr (), w3)"
      "movement_stored (e_pg env) req (us_warehouse_id req) ?ty row"
      "w_db w3 = (w_db w2)\<lparr>t_movements := t_movements (w_db w2) @ [row]\<rparr>"
      using record_movement_calm [OF calm vc _ at(3,4,6,5)] by blast
    with True run d2 show ?thesis by (auto simp: eq record_movement_def) blast+
  qed
qed

lemma create_stock_calm:
  assumes calm: "calm env" and vc: "varchar_keeps (e_pg env)" and ready: "update_ready env req w"
    and w1: "w_db w1 = w_db w" "w_tick w \<le> w_tick w1"
    and none: "find_stock (us_product_id req) (us_warehouse_id req) (w_db w) = None"
  shows "case run_state (create_stock env (inventoryUC env) req (us_warehouse_id req)) w1 of (r, w') \<Rightarrow>
    update_spec (e_pg env) req (w_db w) r (w_db w')"
proof -
  have ids: "stored_id (e_pg env) (us_product_id req)" "stored_id (e_pg env) (us_warehouse_id req)" "stored_sku (e_pg env) (us_sku req)"
    "int4_ok (us_quantity req)" "fresh_ids env (w_db w) (w_tick w)" "\<And>n. e_uuid env n \<notin> iv_id ` set (t_inventory (w_db w))"
    using ready by (simp_all add: update_ready_def)
  let ?now = "e_now env (Suc (w_tick w1))"
  let ?stock = "\<lparr>iv_id = e_uuid env (w_tick w1), iv_product_id = us_product_id req, iv_sku = us_sku req,
      iv_warehouse_id = us_warehouse_id req, iv_quantity_on_hand = us_quantity req, iv_quantity_reserved = 0, iv_version = 0,
      iv_updated_at = ?now\<rparr>"
  let ?row = "?stock\<lparr>iv_updated_at := pg_timestamptz (e_pg env) ?now\<rparr>"
  have row: "inventory_row (e_pg env) ?stock = Some ?row"
    using ids(1-3,5) vc w1(2) by (simp add: inventory_row_def stored_id_def stored_sku_def fresh_ids_def)
  have free: "\<not> list_ex (at_place (us_product_id req) (us_warehouse_id req)) (t_inventory (w_db w))"
    using none by (simp add: find_stock_def find_None_iff list_ex_iff)
  have ok: "stock_ok ?row" using ids(4) by (simp add: stock_ok_def int64_ok_def int4_ok_def)
  have insert: "insert_inventory (e_pg env) ?stock (w_db w1) =
      (if us_warehouse_id req \<in> wh_id ` set (t_warehouses (w_db w))
       then Inr ((w_db w)\<lparr>t_inventory := t_inventory (w_db w) @ [?row]\<rparr>, ()) else Inl pq_foreign_key)"
    using row ok free ids(6) by (simp add: insert_inventory_def w1(1) list_ex_key)
  note run = create_stock_def run_new_uuid run_time_now inventoryUC_def NewInventoryCache_def NewInventoryRepository_def
    invalidating_def inventoryRepository_Create_def inventoryRepository_CreateInTx_def execute_def run_exec_db_calm
    run_Cache_Delete_calm
  show ?thesis
  proof (cases "us_warehouse_id req \<in> wh_id ` set (t_warehouses (w_db w))")
    case False
    with insert calm w1(1) show ?thesis by (simp add: run update_spec_def none)
  next
    case True
    let ?d = "(w_db w)\<lparr>t_inventory := t_inventory (w_db w) @ [?row]\<rparr>"
    obtain w2 where w2: "run_state (InventoryRepository_Create (uc_inventoryRepo (inventoryUC env)) ?stock)
        (w1\<lparr>w_tick := Suc (Suc (w_tick w1))\<rparr>) = (Inr (), w2)" "w_db w2 = ?d" "w_tick w1 \<le> w_tick w2"
      using insert True calm by (simp add: run)
    have "fresh_ids env (w_db w2) (w_tick w2)" using fresh_ids_later [OF ids(5)] w2(2,3) w1(2) by simp
    moreover note inventory_literals(7) [OF vc]
    ultimately obtain mrow w3 where "run_state (record_movement env req (us_warehouse_id req) MovementIn) w2 = (Inr (), w3)"
      "movement_stored (e_pg env) req (us_warehouse_id req) MovementIn mrow"
      "w_db w3 = (w_db w2)\<lparr>t_movements := t_movements (w_db w2) @ [mrow]\<rparr>"
      using record_movement_calm [OF calm vc _ ids(1-4)] by blast
    moreover have "first_stock req ?row" by (simp add: first_stock_def at_place_def)
    ultimately show ?thesis
      using True w2(1,2) by (auto simp: create_stock_def run_new_uuid run_time_now update_spec_def none record_movement_def)
  qed
qed

lemma UpdateStock_lemma:
  assumes "calm env" and "varchar_keeps (e_pg env)" and "update_ready env req w"
  shows "case run_state (UpdateStock env (inventoryUC env) req) w of (r, w') \<Rightarrow>
    update_spec (e_pg env) req (w_db w) r (w_db w')"
proof -
  have ready: "stored_id (e_pg env) (us_product_id req)" "stored_id (e_pg env) (us_warehouse_id req)" "us_warehouse_id req \<noteq> ''''"
    "cold_stock env w (us_product_id req) (us_warehouse_id req)"
    using assms(3) by (simp_all add: update_ready_def)
  let ?p = "us_product_id req" and ?wh = "us_warehouse_id req"
  obtain w1 where get: "run_state (InventoryRepository_GetByProductAndWarehouse (uc_inventoryRepo (inventoryUC env)) ?p ?wh) w =
       (case find_stock ?p ?wh (w_db w) of None \<Rightarrow> Inl ErrInventoryNotFound | Some i \<Rightarrow> Inr i, w1)"
     and w1: "w_db w1 = w_db w" "w_tick w \<le> w_tick w1"
    using cached_stock_cold [OF assms(1) ready(4,1,2)] by blast
  have "run_state (UpdateStock env (inventoryUC env) req) w =
      (case find_stock ?p ?wh (w_db w) of
         None \<Rightarrow> run_state (create_stock env (inventoryUC env) req ?wh) w1
       | Some i \<Rightarrow> run_state (change_stock env (inventoryUC env) req ?wh (iv_version i)) w1)"
    using get ready(3) by (auto simp: UpdateStock_def resolve_warehouse_def ErrInventoryNotFound_def split: option.splits)
  then show ?thesis
    using create_stock_calm [OF assms w1] change_stock_calm [OF assms w1] by (auto split: option.splits)
qed


text \<open>
  Taking away units that are reserved: the change is accepted, and the stock level ends up with
  more units reserved than on hand.
\<close>

definition demo_update :: UpdateStockRequest where
  "demo_update = \<lparr>us_product_id = ''p1'', us_warehouse_id = ''w1'', us_warehouse_code = '''', us_sku = ''sku'', us_quantity = - 8\<rparr>"

lemma demo_update_ready: "update_ready ideal_env demo_update (idle demo_inventory)"
  using demo_sound(2) demo_fresh
  by (simp add: update_ready_def stored_id_def stored_sku_def cold_stock_def redis_live_def demo_update_def int4_ok_def)
    (auto simp: demo_inventory_def demo_stock_def dest!: arg_cong [where f = "\<lambda>s. CHR ''s'' \<in> set s"])


subsection \<open>Reading the stock after a change\<close>

text \<open>The stock of a product as the tables have it.\<close>

definition stock_report :: "string \<Rightarrow> inv_db \<Rightarrow> StockResponse" where
  "stock_report p d = \<lparr>sr_product_id = p, sr_warehouses = map warehouse_stock (filter (\<lambda>i. iv_product_id i = p) (t_inventory d))\<rparr>"

lemma GetStock_cold:
  assumes "calm env" and "stored_id (e_pg env) p"
    and "w_redis w (cache_key stock_cache (inventoryByProductKey p)) = None"
  shows "\<exists>w'. run_state (GetStock (inventoryUC env) p) w = (Inr (stock_report p (w_db w)), w') \<and> w_db w' = w_db w"
  using assms
  by (auto simp: GetStock_def inventoryUC_def NewInventoryCache_def InventoryCache_GetByProductID_def read_through_def run_Cache_Get
      redis_live_def unmarshal_def NewInventoryRepository_def inventoryRepository_GetByProductID_def run_SelectContext_calm
      select_product_def stored_id_def run_Cache_Set_calm stock_report_def)

text \<open>A write that succeeds removes the entries of the product.\<close>

lemma invalidating_removes:
  assumes "calm env" and "run_state (invalidating env c p wh write) w = (Inr (), w')"
  shows "w_redis w' (cache_key c (inventoryByProductKey p)) = None"
  using assms by (auto simp: invalidating_def run_Cache_Delete_calm split: prod.splits sum.splits)

lemma record_keeps_redis: "keeps (\<lambda>w. P (w_redis w)) (record_movement env req wid ty)"
  unfolding record_movement_def new_movement_def
  by (intro keeps_intros | simp add: inventoryUC_def NewMovementRepository_def movementRepository_Create_def
      movementRepository_CreateInTx_def)+

lemma UpdateStock_invalidates:
  assumes "calm env" and "us_warehouse_id req \<noteq> ''''" and "run_state (UpdateStock env (inventoryUC env) req) w = (Inr (), w')"
  shows "w_redis w' (cache_key stock_cache (inventoryByProductKey (us_product_id req))) = None"
proof -
  let ?k = "cache_key stock_cache (inventoryByProductKey (us_product_id req))"
  have tail: "w_redis w3 ?k = None"
    if "w_redis w2 ?k = None" "run_state (record_movement env req wid ty) w2 = (r, w3)" for w2 w3 wid ty r
    using keepsD [OF record_keeps_redis [where P = "\<lambda>m. m ?k = None" and env = env and req = req and wid = wid and ty = ty], of w2] that
    by simp
  have create: "w_redis w3 ?k = None" if "run_state (create_stock env (inventoryUC env) req wid) w2 = (Inr (), w3)" for wid w2 w3
  proof -
    from that obtain i w4 where "run_state (InventoryRepository_Create (uc_inventoryRepo (inventoryUC env)) i) (w2\<lparr>w_tick := Suc (Suc (w_tick w2))\<rparr>)
        = (Inr (), w4)" "iv_product_id i = us_product_id req" "run_state (record_movement env req wid MovementIn) w4 = (Inr (), w3)"
      by (auto simp: create_stock_def record_movement_def run_new_uuid run_time_now split: prod.splits sum.splits)
    then show ?thesis
      using tail invalidating_removes [OF assms(1)] by (fastforce simp: inventoryUC_def NewInventoryCache_def)
  qed
  have change: "w_redis w3 ?k = None" if "run_state (change_stock env (inventoryUC env) req wid v) w2 = (Inr (), w3)" for wid v w2 w3
  proof -
    from that obtain w4 ty where "run_state (InventoryRepository_UpdateStock (uc_inventoryRepo (inventoryUC env)) (us_product_id req) wid
        (us_quantity req) v) w2 = (Inr (), w4)" "run_state (record_movement env req wid ty) w4 = (Inr (), w3)"
      by (auto simp: change_stock_def record_movement_def split: prod.splits sum.splits)
    then show ?thesis
      using tail invalidating_removes [OF assms(1)] by (fastforce simp: inventoryUC_def NewInventoryCache_def)
  qed
  from assms(3) show ?thesis
    using create change
    by (auto simp: UpdateStock_def resolve_warehouse_def assms(2) split: prod.splits sum.splits if_splits)
qed

text \<open>
  C9: a change of the stock is seen at once. In a calm environment, whatever the cache held
  before, \<open>GetStock\<close> after an \<open>UpdateStock\<close> that succeeded reports what the tables hold now, for
  every warehouse of the product, and no entry that was cached before the change.
\<close>

theorem GetStock_after_UpdateStock:
  assumes "calm env" and "stored_id (e_pg env) (us_product_id req)" and "us_warehouse_id req \<noteq> ''''"
    and "run_state (UpdateStock env (inventoryUC env) req) w = (Inr (), w')"
  shows "fst (run_state (GetStock (inventoryUC env) (us_product_id req)) w') = Inr (stock_report (us_product_id req) (w_db w'))"
  using GetStock_cold [OF assms(1,2) UpdateStock_invalidates [OF assms(1,3,4)]] by auto

theorem GetStock_after_UpdateStock_witness:
  "\<exists>w'. run_state (UpdateStock ideal_env (inventoryUC ideal_env) demo_update) (idle demo_inventory) = (Inr (), w') \<and>
     fst (run_state (GetStock (inventoryUC ideal_env) ''p1'') w') = Inr (stock_report ''p1'' (w_db w'))"
proof -
  obtain r w' where run: "run_state (UpdateStock ideal_env (inventoryUC ideal_env) demo_update) (idle demo_inventory) = (r, w')"
    by force
  have req: "us_product_id demo_update = ''p1''" "us_warehouse_id demo_update = ''w1''" "us_quantity demo_update = - 8"
    by (simp_all add: demo_update_def)
  have "iv_quantity_on_hand demo_stock = 10" "iv_quantity_reserved demo_stock = 3" by (simp_all add: demo_stock_def)
  moreover have "update_spec ideal_pg demo_update demo_inventory r (w_db w')"
    using UpdateStock_lemma [of ideal_env demo_update "idle demo_inventory"] demo_update_ready run by simp
  ultimately have "r = Inr ()" by (auto simp: update_spec_def req demo_found in_range_def int4_ok_def)
  with run GetStock_after_UpdateStock [of ideal_env demo_update "idle demo_inventory" w'] show ?thesis
    by (simp add: req stored_id_def)
qed

end
