(* ===== verification/Metrics_Registry.thy ===== *)
theory Metrics_Registry
  imports Platform_Logic
begin

text \<open>
  The Prometheus collectors of the services (\<^verbatim>\<open>pkg/metrics/metrics.go\<close>) and what it means that a
  service uses them as they are declared. The client library is a parameter: \<open>register\<close> says
  whether the default registry accepts a collector (\<open>promauto\<close> panics when it does not), and
  \<open>client_documented\<close> is the part of its documentation that the package relies on. A metric of
  the world is addressed by the name of its collector and its label values; \<open>WithLabelValues\<close>
  panics when their number is not the number of labels.
\<close>

subsection \<open>Collectors\<close>

datatype metric_type = CounterVec | GaugeVec | HistogramVec

record collector =
  mc_type :: metric_type
  mc_name :: string
  mc_help :: string
  mc_labels :: "string list"

definition vec :: "metric_type \<Rightarrow> string \<Rightarrow> string \<Rightarrow> string list \<Rightarrow> collector" where
  "vec t name help labels = \<lparr>mc_type = t, mc_name = name, mc_help = help, mc_labels = labels\<rparr>"

definition HTTPRequestsTotal :: collector where
  "HTTPRequestsTotal = vec CounterVec ''http_requests_total'' ''Total number of HTTP requests''
     [''service'', ''method'', ''path'', ''status'']"
definition HTTPRequestDuration :: collector where
  "HTTPRequestDuration = vec HistogramVec ''http_request_duration_seconds'' ''HTTP request duration in seconds''
     [''service'', ''method'', ''path'']"
definition OrdersCreatedTotal :: collector where
  "OrdersCreatedTotal = vec CounterVec ''orders_created_total'' ''Total number of orders created'' [''service'']"
definition OrdersCancelledTotal :: collector where
  "OrdersCancelledTotal = vec CounterVec ''orders_cancelled_total'' ''Total number of orders cancelled'' [''service'']"
definition OrdersFailedTotal :: collector where
  "OrdersFailedTotal = vec CounterVec ''orders_failed_total'' ''Total number of failed order operations''
     [''service'', ''reason'']"
definition InventoryReservationsTotal :: collector where
  "InventoryReservationsTotal = vec CounterVec ''inventory_reservations_total''
     ''Total number of inventory reservations'' [''service'', ''status'']"
definition InventoryReleasesTotal :: collector where
  "InventoryReleasesTotal = vec CounterVec ''inventory_releases_total''
     ''Total number of inventory reservation releases'' [''service'']"
definition InventoryUpdatesTotal :: collector where
  "InventoryUpdatesTotal = vec CounterVec ''inventory_updates_total'' ''Total number of inventory stock updates''
     [''service'']"
definition InventoryFailedTotal :: collector where
  "InventoryFailedTotal = vec CounterVec ''inventory_failed_total''
     ''Total number of failed inventory operations'' [''service'', ''reason'']"
definition WSConnectionsActive :: collector where
  "WSConnectionsActive = vec GaugeVec ''ws_connections_active''
     ''Current number of active WebSocket connections'' [''service'']"
definition WSConnectionsTotal :: collector where
  "WSConnectionsTotal = vec CounterVec ''ws_connections_total''
     ''Total number of WebSocket connections established'' [''service'']"
definition WSMessagesSentTotal :: collector where
  "WSMessagesSentTotal = vec CounterVec ''ws_messages_sent_total'' ''Total number of WebSocket messages sent''
     [''service'', ''channel'']"
definition KafkaMessagesProducedTotal :: collector where
  "KafkaMessagesProducedTotal = vec CounterVec ''kafka_messages_produced_total''
     ''Total number of Kafka messages produced'' [''service'', ''topic'']"
definition KafkaMessagesConsumedTotal :: collector where
  "KafkaMessagesConsumedTotal = vec CounterVec ''kafka_messages_consumed_total''
     ''Total number of Kafka messages consumed'' [''service'', ''topic'']"
definition KafkaProcessingDuration :: collector where
  "KafkaProcessingDuration = vec HistogramVec ''kafka_processing_duration_seconds''
     ''Kafka message processing duration in seconds'' [''service'', ''topic'']"

lemmas collector_defs = vec_def HTTPRequestsTotal_def HTTPRequestDuration_def OrdersCreatedTotal_def OrdersCancelledTotal_def
  OrdersFailedTotal_def InventoryReservationsTotal_def InventoryReleasesTotal_def InventoryUpdatesTotal_def
  InventoryFailedTotal_def WSConnectionsActive_def WSConnectionsTotal_def WSMessagesSentTotal_def
  KafkaMessagesProducedTotal_def KafkaMessagesConsumedTotal_def KafkaProcessingDuration_def

text \<open>The variables of the package, in the order in which they are initialised.\<close>

definition package_collectors :: "collector list" where
  "package_collectors =
     [HTTPRequestsTotal, HTTPRequestDuration, OrdersCreatedTotal, OrdersCancelledTotal, OrdersFailedTotal,
      InventoryReservationsTotal, InventoryReleasesTotal, InventoryUpdatesTotal, InventoryFailedTotal,
      WSConnectionsActive, WSConnectionsTotal, WSMessagesSentTotal, KafkaMessagesProducedTotal,
      KafkaMessagesConsumedTotal, KafkaProcessingDuration]"

subsection \<open>Initialisation of the package\<close>

text \<open>\<open>promauto\<close>: register or panic (\<open>None\<close>); the registry is the list of what was registered before.\<close>

type_synonym registerer = "collector list \<Rightarrow> collector \<Rightarrow> bool"

fun promauto_all :: "registerer \<Rightarrow> collector list \<Rightarrow> collector list \<Rightarrow> collector list option" where
  "promauto_all register registry [] = Some registry"
| "promauto_all register registry (c # cs) =
     (if register registry c then promauto_all register (registry @ [c]) cs else None)"

definition init_metrics :: "registerer \<Rightarrow> collector list \<Rightarrow> collector list option" where
  "init_metrics register registry = promauto_all register registry package_collectors"

text \<open>Names as the data model of Prometheus asks for them.\<close>

definition name_start :: "char \<Rightarrow> bool" where
  "name_start c \<longleftrightarrow> c \<in> set ''abcdefghijklmnopqrstuvwxyzABCDEFGHIJKLMNOPQRSTUVWXYZ_''"

definition name_char :: "char \<Rightarrow> bool" where
  "name_char c \<longleftrightarrow> name_start c \<or> c \<in> set ''0123456789''"

fun valid_name :: "string \<Rightarrow> bool" where
  "valid_name [] = False"
| "valid_name (c # cs) = (name_start c \<and> list_all name_char cs)"

definition valid_label :: "string \<Rightarrow> bool" where
  "valid_label l \<longleftrightarrow> valid_name l \<and> take 2 l \<noteq> ''__''"

definition well_formed_collector :: "collector \<Rightarrow> bool" where
  "well_formed_collector c \<longleftrightarrow> valid_name (mc_name c) \<and> list_all valid_label (mc_labels c) \<and> distinct (mc_labels c)"

text \<open>
  What the client library documents: a collector with valid names and distinct labels is
  accepted unless one with its name is registered already. A histogram also takes the names
  with the suffixes \<open>_bucket\<close>, \<open>_sum\<close> and \<open>_count\<close>.
\<close>

fun series_names :: "collector \<Rightarrow> string list" where
  "series_names c = (case mc_type c of
      HistogramVec \<Rightarrow> [mc_name c, mc_name c @ ''_bucket'', mc_name c @ ''_sum'', mc_name c @ ''_count'']
    | _ \<Rightarrow> [mc_name c])"

definition client_documented :: "registerer \<Rightarrow> bool" where
  "client_documented register \<longleftrightarrow>
     (\<forall>registry c. well_formed_collector c \<and>
        (\<forall>d \<in> set registry. set (series_names c) \<inter> set (series_names d) = {}) \<longrightarrow> register registry c)"

subsection \<open>The initialisation does not panic\<close>

lemma promauto_all_ok:
  assumes "client_documented register" and "list_all well_formed_collector cs" and "distinct (concat (map series_names cs))"
    and "\<forall>c \<in> set cs. \<forall>d \<in> set registry. set (series_names c) \<inter> set (series_names d) = {}"
  shows "promauto_all register registry cs = Some (registry @ cs)"
  using assms(2-4)
proof (induction cs arbitrary: registry)
  case (Cons c cs)
  have "register registry c" using assms(1) Cons.prems unfolding client_documented_def by simp
  moreover have "promauto_all register (registry @ [c]) cs = Some ((registry @ [c]) @ cs)"
    by (rule Cons.IH) (use Cons.prems in \<open>auto simp: disjoint_iff simp del: series_names.simps\<close>)
  ultimately show ?case by simp
qed simp

lemma package_well_formed: "list_all well_formed_collector package_collectors"
  by code_simp

lemma package_distinct: "distinct (concat (map series_names package_collectors))"
  by code_simp

text \<open>
  Importing the metrics package does not panic. For every client library that behaves as
  documented, and whatever is registered already under other names, every collector of the
  package is registered, in order: names and labels are valid, no label is repeated, and no two
  collectors claim the same series, those of the histograms included.
\<close>

theorem init_metrics_succeeds:
  assumes "client_documented register"
    and "\<forall>d \<in> set registry. \<forall>c \<in> set package_collectors. set (series_names c) \<inter> set (series_names d) = {}"
  shows "init_metrics register registry = Some (registry @ package_collectors)"
  unfolding init_metrics_def using assms package_well_formed package_distinct by (intro promauto_all_ok) auto

text \<open>The strictest documented registry, with a collector of the Go runtime in it.\<close>

definition strict_register :: registerer where
  "strict_register registry c \<longleftrightarrow> well_formed_collector c \<and>
     list_all (\<lambda>d. list_all (\<lambda>n. n \<notin> set (series_names d)) (series_names c)) registry"

lemma strict_documented: "client_documented strict_register"
  by (auto simp: client_documented_def strict_register_def list_all_iff simp del: series_names.simps)

definition runtime_collector :: collector where
  "runtime_collector = vec GaugeVec ''go_goroutines'' ''Number of goroutines that currently exist.'' []"

theorem init_metrics_succeeds_witness:
  "init_metrics strict_register [runtime_collector] = Some (runtime_collector # package_collectors)"
proof -
  have "\<forall>d \<in> set [runtime_collector]. \<forall>c \<in> set package_collectors. set (series_names c) \<inter> set (series_names d) = {}"
    by code_simp
  from init_metrics_succeeds [OF strict_documented this] show ?thesis by simp
qed

subsection \<open>Metrics used as they are declared\<close>

text \<open>A counter or a gauge of the package, with a value for each of its labels.\<close>

fun labelled :: "string list \<Rightarrow> bool" where
  "labelled [] = False"
| "labelled (name # values) =
     list_ex (\<lambda>c. mc_name c = name \<and> mc_type c \<noteq> HistogramVec \<and> length values = length (mc_labels c)) package_collectors"

lemma labelled_uses:
  "labelled [''orders_failed_total'', s, v]" "labelled [''orders_created_total'', s]" "labelled [''orders_cancelled_total'', s]"
  "labelled [''inventory_failed_total'', s, v]" "labelled [''inventory_reservations_total'', s, v]"
  "labelled [''inventory_releases_total'', s]" "labelled [''inventory_updates_total'', s]"
  "labelled [''kafka_messages_produced_total'', s, v]" "labelled [''kafka_messages_consumed_total'', s, v]"
  by (simp_all add: package_collectors_def collector_defs)

text \<open>Nothing but labelled metrics has changed since \<open>m0\<close>.\<close>

definition labelled_since :: "(string list \<Rightarrow> int) \<Rightarrow> (string list \<Rightarrow> int) \<Rightarrow> bool" where
  "labelled_since m0 m \<longleftrightarrow> (\<forall>k. \<not> labelled k \<longrightarrow> m k = m0 k)"

lemma keeps_metric_add:
  "labelled k \<Longrightarrow> keeps (\<lambda>w. labelled_since m0 (w_metrics w)) (metric_add k i)"
  by (auto simp: keeps_def run_metric_add labelled_since_def)

end
