(* ===== verification/Inventory_Http.thy ===== *)
theory Inventory_Http
  imports Inventory_Ledger Http_Response
begin

text \<open>
  The HTTP handlers of the inventory service
  (\<^verbatim>\<open>internal/inventory/adapter/httpd/handler.go\<close>). The theory shows that the loop of
  \<open>ReserveStock\<close> is a map over the items followed by one decision on the list of outcomes, which
  makes the meaning of its response exact, and that no request can break the tables.
\<close>

subsection \<open>Request bodies and response data\<close>

record reserveStockHTTPItem =
  hi_product_id :: string
  hi_sku :: string
  hi_quantity :: int
  hi_warehouse_code :: string

record reserveStockHTTPRequest =
  hr_order_id :: string
  hr_items :: "reserveStockHTTPItem list"

definition zero_reserveItem :: reserveStockHTTPItem where
  "zero_reserveItem = \<lparr>hi_product_id = '''', hi_sku = '''', hi_quantity = 0, hi_warehouse_code = ''''\<rparr>"

definition zero_reserveRequest :: reserveStockHTTPRequest where
  "zero_reserveRequest = \<lparr>hr_order_id = '''', hr_items = []\<rparr>"

definition zero_UpdateStockRequest :: UpdateStockRequest where
  "zero_UpdateStockRequest = \<lparr>us_product_id = '''', us_warehouse_id = '''', us_warehouse_code = '''', us_sku = '''',
     us_quantity = 0\<rparr>"

definition dec_reserveItem :: "reserveStockHTTPItem decoder" where
  "dec_reserveItem = dec_struct
     [(''product_id'', fld hi_product_id hi_product_id_update dec_string),
      (''sku'', fld hi_sku hi_sku_update dec_string),
      (''quantity'', fld hi_quantity hi_quantity_update dec_int),
      (''warehouse_code'', fld hi_warehouse_code hi_warehouse_code_update dec_string)]"

definition dec_reserveRequest :: "reserveStockHTTPRequest decoder" where
  "dec_reserveRequest = dec_struct
     [(''order_id'', fld hr_order_id hr_order_id_update dec_string),
      (''items'', fld hr_items hr_items_update (dec_slice dec_reserveItem zero_reserveItem))]"

definition dec_UpdateStockRequest :: "UpdateStockRequest decoder" where
  "dec_UpdateStockRequest = dec_struct
     [(''product_id'', fld us_product_id us_product_id_update dec_string),
      (''warehouse_id'', fld us_warehouse_id us_warehouse_id_update dec_string),
      (''warehouse_code'', fld us_warehouse_code us_warehouse_code_update dec_string),
      (''sku'', fld us_sku us_sku_update dec_string),
      (''quantity'', fld us_quantity us_quantity_update dec_int)]"

definition enc_StockResponse :: "StockResponse \<Rightarrow> json" where
  "enc_StockResponse st = JObj [(''product_id'', JStr (sr_product_id st)),
     (''warehouses'', JArr (map (\<lambda>ws. JObj [(''warehouse_id'', JStr (ws_warehouse_id ws)), (''quantity'', JInt (ws_quantity ws)),
        (''reserved'', JInt (ws_reserved ws)), (''available'', JInt (ws_available ws))]) (sr_warehouses st)))]"

definition enc_Reservation :: "Reservation \<Rightarrow> json" where
  "enc_Reservation rs = JObj [(''id'', JStr (rs_id rs)), (''order_id'', JStr (rs_order_id rs)),
     (''order_item_id'', JStr (rs_order_item_id rs)), (''product_id'', JStr (rs_product_id rs)), (''sku'', JStr (rs_sku rs)),
     (''warehouse_id'', JStr (rs_warehouse_id rs)), (''quantity'', JInt (rs_quantity rs)), (''status'', JStr (rs_status rs)),
     (''expires_at'', case rs_expires_at rs of None \<Rightarrow> JNull | Some t \<Rightarrow> JTime t),
     (''created_at'', JTime (rs_created_at rs)), (''updated_at'', JTime (rs_updated_at rs))]"

definition enc_reserveItem :: "reserveStockHTTPItem \<Rightarrow> json" where
  "enc_reserveItem i = JObj [(''product_id'', JStr (hi_product_id i)), (''sku'', JStr (hi_sku i)),
     (''quantity'', JInt (hi_quantity i)), (''warehouse_code'', JStr (hi_warehouse_code i))]"

text \<open>\<open>map[string]interface{}{"reservations": results}\<close>; no results are a nil slice.\<close>

definition enc_results :: "(Reservation \<times> reserveStockHTTPItem) list \<Rightarrow> json" where
  "enc_results results = JObj [(''reservations'',
     if results = [] then JNull
     else JArr (map (\<lambda>(rs, i). JObj [(''reservation'', enc_Reservation rs), (''item'', enc_reserveItem i)]) results))]"

subsection \<open>Handlers\<close>

definition bad_body :: HttpResponse where
  "bad_body = response_Error 400 ''INVALID_REQUEST'' ''Invalid request body''"

definition inventory_handleError :: "go_error \<Rightarrow> HttpResponse" where
  "inventory_handleError e =
     (let s = err_text e
      in if s = ''insufficient stock''
         then response_Error 409 ''INSUFFICIENT_STOCK'' ''Not enough stock available''
         else if s = ''inventory not found'' then response_Error 404 ''NOT_FOUND'' ''Inventory not found''
         else if s = ''concurrent modification detected''
         then response_Error 409 ''CONCURRENT_MODIFICATION'' ''Resource was modified by another request''
         else if s = ''reservation not found'' then response_Error 404 ''NOT_FOUND'' ''Reservation not found''
         else if s = ''invalid quantity''
         then response_Error 400 ''INVALID_QUANTITY'' ''Quantity must be greater than 0''
         else response_Error 500 ''INTERNAL_ERROR'' ''An internal error occurred'')"

definition inventory_failed :: "go_error \<Rightarrow> ('db, unit) io" where
  "inventory_failed e = metric_add [''inventory_failed_total'', ''inventory-service'', err_text e] 1"

definition InventoryHandler_GetStock ::
  "inventoryUseCase \<Rightarrow> HttpRequest \<Rightarrow> (inv_db, HttpResponse) io" where
  "InventoryHandler_GetStock uc rq = do {
     r \<leftarrow> GetStock uc (hq_param rq ''product_id'');
     ret (case r of Inl e \<Rightarrow> inventory_handleError e | Inr st \<Rightarrow> response_JSON 200 (Some (enc_StockResponse st)))
   }"

definition item_request :: "string \<Rightarrow> reserveStockHTTPItem \<Rightarrow> ReserveStockRequest" where
  "item_request orderID item = \<lparr>rq_order_id = orderID, rq_product_id = hi_product_id item, rq_warehouse_id = '''',
     rq_warehouse_code = hi_warehouse_code item, rq_sku = hi_sku item, rq_quantity = hi_quantity item\<rparr>"

text \<open>The loop over the items, with its two variables \<open>results\<close> and \<open>lastErr\<close>.\<close>

fun reserve_items ::
  "inv_db env \<Rightarrow> inventoryUseCase \<Rightarrow> string \<Rightarrow> reserveStockHTTPItem list
   \<Rightarrow> (Reservation \<times> reserveStockHTTPItem) list \<Rightarrow> go_error option
   \<Rightarrow> (inv_db, (Reservation \<times> reserveStockHTTPItem) list \<times> go_error option) io" where
  "reserve_items env uc orderID [] results lastErr = ret (results, lastErr)"
| "reserve_items env uc orderID (item # items) results lastErr = do {
     r \<leftarrow> ReserveStock env uc (item_request orderID item);
     case r of
       Inl e \<Rightarrow> do {
         _ \<leftarrow> inventory_failed e;
         reserve_items env uc orderID items results (Some e)
       }
     | Inr rs \<Rightarrow> do {
         _ \<leftarrow> metric_add [''inventory_reservations_total'', ''inventory-service'', ''success''] 1;
         reserve_items env uc orderID items (results @ [(rs, item)]) lastErr
       }
   }"

definition InventoryHandler_ReserveStock ::
  "inv_db env \<Rightarrow> inventoryUseCase \<Rightarrow> HttpRequest \<Rightarrow> (inv_db, HttpResponse) io" where
  "InventoryHandler_ReserveStock env uc rq =
     (case unmarshal dec_reserveRequest zero_reserveRequest (hq_body rq) of
        None \<Rightarrow> ret bad_body
      | Some req \<Rightarrow> do {
          (results, lastErr) \<leftarrow> reserve_items env uc (hr_order_id req) (hr_items req) [] None;
          ret (case lastErr of
              Some e \<Rightarrow> if results = [] then inventory_handleError e else response_JSON 201 (Some (enc_results results))
            | None \<Rightarrow> response_JSON 201 (Some (enc_results results)))
        })"

definition InventoryHandler_ReleaseReservation ::
  "inv_db env \<Rightarrow> inventoryUseCase \<Rightarrow> HttpRequest \<Rightarrow> (inv_db, HttpResponse) io" where
  "InventoryHandler_ReleaseReservation env uc rq = do {
     r \<leftarrow> ReleaseReservation env uc (hq_param rq ''reservation_id'');
     case r of
       Inl e \<Rightarrow> do { _ \<leftarrow> inventory_failed e; ret (inventory_handleError e) }
     | Inr _ \<Rightarrow> do {
         _ \<leftarrow> metric_add [''inventory_releases_total'', ''inventory-service''] 1;
         ret (response_JSON 200 (Some (JObj [(''status'', JStr ''released'')])))
       }
   }"

definition InventoryHandler_UpdateStock ::
  "inv_db env \<Rightarrow> inventoryUseCase \<Rightarrow> HttpRequest \<Rightarrow> (inv_db, HttpResponse) io" where
  "InventoryHandler_UpdateStock env uc rq =
     (case unmarshal dec_UpdateStockRequest zero_UpdateStockRequest (hq_body rq) of
        None \<Rightarrow> ret bad_body
      | Some req \<Rightarrow> do {
          r \<leftarrow> UpdateStock env uc req;
          case r of
            Inl e \<Rightarrow> do { _ \<leftarrow> inventory_failed e; ret (inventory_handleError e) }
          | Inr _ \<Rightarrow> do {
              _ \<leftarrow> metric_add [''inventory_updates_total'', ''inventory-service''] 1;
              ret (response_JSON 200 (Some (JObj [(''status'', JStr ''updated'')])))
            }
        })"

datatype inventory_endpoint = EpGetStock | EpReserveStock | EpReleaseReservation | EpUpdateStock

definition inventory_Routes :: "(string \<times> string \<times> inventory_endpoint) list" where
  "inventory_Routes = [(''GET'', ''/stock/{product_id}'', EpGetStock), (''POST'', ''/reserve'', EpReserveStock),
     (''POST'', ''/release/{reservation_id}'', EpReleaseReservation), (''PUT'', ''/stock'', EpUpdateStock)]"

fun inventory_endpoint_handler ::
  "inv_db env \<Rightarrow> inventoryUseCase \<Rightarrow> inventory_endpoint \<Rightarrow> HttpRequest \<Rightarrow> (inv_db, HttpResponse) io" where
  "inventory_endpoint_handler env uc EpGetStock = InventoryHandler_GetStock uc"
| "inventory_endpoint_handler env uc EpReserveStock = InventoryHandler_ReserveStock env uc"
| "inventory_endpoint_handler env uc EpReleaseReservation = InventoryHandler_ReleaseReservation env uc"
| "inventory_endpoint_handler env uc EpUpdateStock = InventoryHandler_UpdateStock env uc"

subsection \<open>The loop of ReserveStock as a map over the items\<close>

text \<open>One attempt per item, with its metric.\<close>

definition attempt_item ::
  "inv_db env \<Rightarrow> inventoryUseCase \<Rightarrow> string \<Rightarrow> reserveStockHTTPItem \<Rightarrow> (inv_db, Reservation result) io" where
  "attempt_item env uc orderID item = do {
     r \<leftarrow> ReserveStock env uc (item_request orderID item);
     _ \<leftarrow> (case r of
            Inl e \<Rightarrow> inventory_failed e
          | Inr _ \<Rightarrow> metric_add [''inventory_reservations_total'', ''inventory-service'', ''success''] 1);
     ret r
   }"

text \<open>The reservations that succeeded, each with its item, and the error of the last failure.\<close>

fun reserved_items ::
  "reserveStockHTTPItem list \<Rightarrow> Reservation result list \<Rightarrow> (Reservation \<times> reserveStockHTTPItem) list" where
  "reserved_items (i # is) (Inr rs # os) = (rs, i) # reserved_items is os"
| "reserved_items (i # is) (Inl _ # os) = reserved_items is os"
| "reserved_items _ _ = []"

fun last_failure :: "Reservation result list \<Rightarrow> go_error option" where
  "last_failure [] = None"
| "last_failure (Inr _ # os) = last_failure os"
| "last_failure (Inl e # os) = (case last_failure os of None \<Rightarrow> Some e | Some e' \<Rightarrow> Some e')"

definition reserve_answer :: "reserveStockHTTPItem list \<Rightarrow> Reservation result list \<Rightarrow> HttpResponse" where
  "reserve_answer items outcomes =
     (if list_ex is_ok outcomes \<or> outcomes = []
      then response_JSON 201 (Some (enc_results (reserved_items items outcomes)))
      else inventory_handleError (the (last_failure outcomes)))"

lemma run_for_map_length: "run_state (for_map f xs) w = (ys, w') \<Longrightarrow> length ys = length xs"
  by (induction xs arbitrary: w ys) (auto split: prod.splits)

lemma run_reserve_items:
  "run_state (reserve_items env uc oid items results lastErr) w =
     (case run_state (for_map (attempt_item env uc oid) items) w of (os, w') \<Rightarrow>
        ((results @ reserved_items items os, case last_failure os of None \<Rightarrow> lastErr | Some e \<Rightarrow> Some e), w'))"
proof (induction items arbitrary: results lastErr w)
  case (Cons item items)
  show ?case
    by (auto simp: attempt_item_def Cons.IH split: prod.splits sum.splits option.splits)
qed simp

lemma reserved_items_none:
  "length items = length os \<Longrightarrow> reserved_items items os = [] \<longleftrightarrow> \<not> list_ex is_ok os"
proof (induction items os rule: list_induct2)
  case (Cons i "is" r os)
  then show ?case by (cases r) auto
qed simp

lemma last_failure_none: "\<not> list_ex is_ok os \<Longrightarrow> last_failure os = None \<longleftrightarrow> os = []"
  by (induction os rule: last_failure.induct) (auto split: option.splits)

text \<open>
  C20: the handler of \<open>POST /reserve\<close> is a map over the items followed by one decision. Every
  item is attempted, in the order of the request, whatever happened to the others; the answer
  is 201 with the reservations that succeeded, in order, when there are any or there were no
  items, and otherwise the answer for the error of the last item.
\<close>

theorem ReserveStock_handler_is_map:
  "run_state (InventoryHandler_ReserveStock env uc rq) w =
     (case unmarshal dec_reserveRequest zero_reserveRequest (hq_body rq) of
        None \<Rightarrow> (response_Error 400 ''INVALID_REQUEST'' ''Invalid request body'', w)
      | Some req \<Rightarrow>
          run_state (State_Monad.bind (for_map (attempt_item env uc (hr_order_id req)) (hr_items req))
            (\<lambda>outcomes. ret (reserve_answer (hr_items req) outcomes))) w)"
proof (cases "unmarshal dec_reserveRequest zero_reserveRequest (hq_body rq)")
  case (Some req)
  obtain os w' where run: "run_state (for_map (attempt_item env uc (hr_order_id req)) (hr_items req)) w = (os, w')" by force
  then have "length (hr_items req) = length os" by (simp add: run_for_map_length)
  then have none: "reserved_items (hr_items req) os = [] \<longleftrightarrow> \<not> list_ex is_ok os" by (rule reserved_items_none)
  show ?thesis
    using Some run none last_failure_none [of os]
    by (auto simp: InventoryHandler_ReserveStock_def run_reserve_items reserve_answer_def split: option.splits)
qed (simp add: InventoryHandler_ReserveStock_def bad_body_def)

subsection \<open>No request oversells\<close>

definition serve_inventory_http ::
  "inv_db env \<Rightarrow> inventoryUseCase \<Rightarrow> inventory_endpoint \<times> HttpRequest \<Rightarrow> (inv_db, unit) io" where
  "serve_inventory_http env uc = (\<lambda>(ep, rq). do { _ \<leftarrow> inventory_endpoint_handler env uc ep rq; ret () })"

text \<open>An update of the stock, if it is one, adds units.\<close>

definition adds_units :: "inventory_endpoint \<times> HttpRequest \<Rightarrow> bool" where
  "adds_units = (\<lambda>(ep, rq). ep = EpUpdateStock \<longrightarrow>
     (case unmarshal dec_UpdateStockRequest zero_UpdateStockRequest (hq_body rq) of
        None \<Rightarrow> True
      | Some req \<Rightarrow> 0 \<le> us_quantity req))"

context stock_store
begin

lemma triple_reserve_items:
  assumes "rely (preserves I) env" and "inv_stmts_in (e_pg env) P I"
  shows "triple (held I) (reserve_items env uc oid items results lastErr) (\<lambda>_. held I)"
proof (induction items arbitrary: results lastErr)
  case (Cons item items)
  have metric: "triple (held I) (metric_add m i) (\<lambda>_. held I)" for m i
    by (intro triple_safe invariants.safe_metric_add)
  show ?case
    by (auto simp: inventory_failed_def intro!: triple_held_bind triple_ReserveStock [OF assms] metric Cons.IH split: sum.splits)
qed (auto intro: triple_ret)

lemma triple_inventory_http:
  assumes "rely (preserves I) env" and "inv_stmts_in (e_pg env) (\<lambda>q. 0 \<le> q) I" and "adds_units call"
  shows "triple (held I) (serve_inventory_http env uc call) (\<lambda>_. held I)"
proof (cases call)
  case (Pair ep rq)
  have metric: "triple (held I) (metric_add m i) (\<lambda>_. held I)" for m i
    by (intro triple_safe invariants.safe_metric_add)
  note cases = triple_held_bind triple_ret metric triple_GetStock [OF assms(1)] triple_reserve_items [OF assms(1,2)]
    triple_ReleaseReservation [OF assms(1,2)]
  show ?thesis
  proof (cases ep)
    case EpUpdateStock
    with Pair assms(3) show ?thesis
      by (auto simp: serve_inventory_http_def InventoryHandler_UpdateStock_def inventory_failed_def adds_units_def
          intro!: cases triple_UpdateStock [OF assms(1,2)] split: sum.splits option.splits)
  qed (auto simp: Pair serve_inventory_http_def InventoryHandler_GetStock_def InventoryHandler_ReserveStock_def
      InventoryHandler_ReleaseReservation_def inventory_failed_def intro!: cases split: sum.splits option.splits prod.splits)
qed

end

text \<open>
  Whatever HTTP requests the inventory service receives, with whatever bodies, and whatever
  round trips fail: as long as no update of the stock takes units away and the other clients
  keep the same, the tables keep their integrity and every stock level keeps its reserved
  quantity between 0 and the quantity on hand.
\<close>

theorem inventory_http_never_oversold:
  assumes "rely (preserves stock_sound) env" and "w_txs w = (\<lambda>_. None)" and "stock_sound (w_db w)"
    and "list_all adds_units calls"
  shows "stock_sound (w_db (snd (run_state (for_each (serve_inventory_http env (inventoryUC env)) calls) w)))"
proof -
  have "triple (held stock_sound) (for_each (serve_inventory_http env (inventoryUC env)) calls) (\<lambda>_. held stock_sound)"
    using assms(4)
    by (intro triple_loop cached_stock.triple_inventory_http [OF assms(1) inv_stmts_sound]) (simp add: list_all_iff)
  moreover have "held stock_sound w" using assms(2,3) by (simp add: held_def)
  ultimately show ?thesis by (fastforce simp: triple_def held_def)
qed

definition demo_reserve_body :: HttpRequest where
  "demo_reserve_body = \<lparr>hq_param = (\<lambda>_. ''r1''), hq_query = (\<lambda>_. ''''), hq_header = (\<lambda>_. ''''),
     hq_body = Some (JObj [(''order_id'', JStr ''o2''), (''items'', JArr [JObj [(''product_id'', JStr ''p1''),
       (''quantity'', JInt 9), (''warehouse_code'', JStr ''WH-001'')]])])\<rparr>"

theorem inventory_http_never_oversold_witness:
  "stock_sound (w_db (snd (run_state (for_each (serve_inventory_http ideal_env (inventoryUC ideal_env))
     [(EpReserveStock, demo_reserve_body), (EpReleaseReservation, demo_reserve_body)]) (idle demo_inventory))))"
  by (rule inventory_http_never_oversold) (simp_all add: rely_calm db_guarantee_preserves demo_sound adds_units_def)

end
