(* ===== verification/Metrics_Use.thy ===== *)
theory Metrics_Use
  imports Metrics_Registry Order_Http Order_Events Inventory_Http Outbox_Publisher
begin

text \<open>
  How the order and the inventory service use the collectors of \<open>Metrics_Registry\<close>: no call of
  \<open>WithLabelValues\<close> panics, because every metric that a request or a message touches is a
  declared one with the declared number of labels, and the counters tell the truth, because
  they count exactly the responses that report a success.
\<close>

subsection \<open>Everything below the handlers leaves the metrics alone\<close>

named_theorems quiet_intros \<open>operations that touch no metric\<close>

lemma quiet_platform [quiet_intros]:
  "keeps (\<lambda>w. P (w_metrics w)) next_tick" "keeps (\<lambda>w. P (w_metrics w)) (new_uuid env)"
  "keeps (\<lambda>w. P (w_metrics w)) (time_now env)" "keeps (\<lambda>w. P (w_metrics w)) (ctx_done env)"
  "keeps (\<lambda>w. P (w_metrics w)) (exec_db env st)" "keeps (\<lambda>w. P (w_metrics w)) (BeginTxx env)"
  "keeps (\<lambda>w. P (w_metrics w)) (exec_tx env h st)" "keeps (\<lambda>w. P (w_metrics w)) (Commit env h)"
  "keeps (\<lambda>w. P (w_metrics w)) (Rollback h)" "keeps (\<lambda>w. P (w_metrics w)) (execute env tx st)"
  "keeps (\<lambda>w. P (w_metrics w)) (GetContext env q)" "keeps (\<lambda>w. P (w_metrics w)) (SelectContext env q')"
  by (auto simp: keeps_def io_defs Let_def split: option.splits fault.splits sum.splits)

lemma quiet_redis [quiet_intros]:
  "keeps (\<lambda>w. P (w_metrics w)) (Cache_Get env c k dec dest)" "keeps (\<lambda>w. P (w_metrics w)) (Cache_Set env c k data)"
  "keeps (\<lambda>w. P (w_metrics w)) (Cache_Delete env c ks)"
  by (auto simp: keeps_def Cache_Get_def rdb_Get_def Cache_Set_def Cache_Delete_def rdb_write_def run_next_tick
      split: option.splits fault.splits)

lemma quiet_kafka [quiet_intros]:
  "keeps (\<lambda>w. P (w_metrics w)) (kafka_WriteMessages env topic msg)" "keeps (\<lambda>w. P (w_metrics w)) (InjectTraceHeaders env msg)"
  "keeps (\<lambda>w. P (w_metrics w)) (CommitMessages env)"
  by (auto simp: keeps_def kafka_WriteMessages_def InjectTraceHeaders_def CommitMessages_def run_next_tick Let_def
      split: option.splits fault.splits)

lemmas order_wiring = orderUC_def NewOrderCache_def NewOrderItemCache_def NewOutboxCache_def NewOrderRepository_def
  NewOrderItemRepository_def NewOutboxRepository_def OrderCache_GetByID_def OrderItemCache_GetByOrderID_def
  orderRepository_GetByID_def orderRepository_List_def orderItemRepository_GetByOrderID_def

lemma quiet_store:
  "keeps (\<lambda>w. P (w_metrics w)) (new_event env oid ty p)"
  "keeps (\<lambda>w. P (w_metrics w)) (store_order env (orderUC env) ord ev)"
  "keeps (\<lambda>w. P (w_metrics w)) (store_status env (orderUC env) msg oid status ev)"
  "keeps (\<lambda>w. P (w_metrics w)) (new_order env req key)"
  unfolding new_event_def store_order_def store_status_def new_order_def new_item_def cached.store_contract
  by (intro keeps_intros quiet_intros)+

lemma quiet_read:
  "keeps (\<lambda>w. P (w_metrics w)) (OrderRepository_GetByID (uc_orderRepo (orderUC env)) oid)"
  "keeps (\<lambda>w. P (w_metrics w)) (OrderItemRepository_GetByOrderID (uc_orderItemRepo (orderUC env)) oid)"
  "keeps (\<lambda>w. P (w_metrics w)) (OrderRepository_List (uc_orderRepo (orderUC env)) cid l k)"
  "keeps (\<lambda>w. P (w_metrics w)) (OrderRepository_GetByIDempotencyKey (uc_orderRepo (orderUC env)) key)"
  unfolding cached.find_key by (intro keeps_intros quiet_intros | simp add: order_wiring split del: if_split)+

lemma quiet_order_use_cases [quiet_intros]:
  "keeps (\<lambda>w. P (w_metrics w)) (CreateOrder env (orderUC env) req)"
  "keeps (\<lambda>w. P (w_metrics w)) (GetOrder env (orderUC env) oid)"
  "keeps (\<lambda>w. P (w_metrics w)) (ListOrders env (orderUC env) cid l k)"
  "keeps (\<lambda>w. P (w_metrics w)) (CancelOrder env (orderUC env) oid reason)"
  "keeps (\<lambda>w. P (w_metrics w)) (ConfirmOrder env (orderUC env) oid)"
  unfolding CreateOrder_def GetOrder_def ListOrders_def CancelOrder_def ConfirmOrder_def
  by (intro keeps_intros quiet_intros quiet_store quiet_read)+

lemmas inventory_wiring = inventoryUC_def NewInventoryCache_def NewInventoryRepository_def NewReservationRepository_def
  NewMovementRepository_def InventoryCache_GetByProductAndWarehouse_def InventoryCache_GetByProductID_def
  InventoryCache_GetWarehouseByCode_def read_through_def invalidating_def inventoryRepository_Create_def
  inventoryRepository_CreateInTx_def inventoryRepository_GetByProductAndWarehouse_def inventoryRepository_GetByProductID_def
  inventoryRepository_UpdateStock_def inventoryRepository_ReserveQuantity_def inventoryRepository_ReleaseQuantity_def
  inventoryRepository_GetWarehouseByCode_def reservationRepository_CreateInTx_def reservationRepository_GetByID_def
  reservationRepository_UpdateStatus_def movementRepository_CreateInTx_def movementRepository_Create_def

lemma quiet_inventory_use_cases [quiet_intros]:
  "keeps (\<lambda>w. P (w_metrics w)) (GetStock (inventoryUC ienv) pid)"
  "keeps (\<lambda>w. P (w_metrics w)) (ReserveStock ienv (inventoryUC ienv) req)"
  "keeps (\<lambda>w. P (w_metrics w)) (ReleaseReservation ienv (inventoryUC ienv) rid)"
  "keeps (\<lambda>w. P (w_metrics w)) (UpdateStock ienv (inventoryUC ienv) ureq)"
  unfolding GetStock_def ReserveStock_def ReleaseReservation_def UpdateStock_def reserve_at_def release_reserved_def
    resolve_warehouse_def new_reservation_def new_movement_def create_stock_def change_stock_def
  by (intro keeps_intros quiet_intros | simp add: inventory_wiring split del: if_split)+

lemma quiet_run:
  assumes "\<And>P. keeps (\<lambda>w. P (w_metrics w)) m" and "run_state m w = (r, w')"
  shows "w_metrics w' = w_metrics w"
  using keepsD [OF assms(1) [of "\<lambda>x. x = w_metrics w"], of w] assms(2) by simp

lemmas order_quiet_runs = quiet_order_use_cases [THEN quiet_run]
lemmas inventory_quiet_runs = quiet_inventory_use_cases [THEN quiet_run]

subsection \<open>What a sequence of requests adds to the metrics\<close>

lemma labelled_since_refl [simp]: "labelled_since m m"
  by (simp add: labelled_since_def)

lemma labelled_since_trans: "labelled_since m m' \<Longrightarrow> labelled_since m' m'' \<Longrightarrow> labelled_since m m''"
  by (simp add: labelled_since_def)

lemma labelled_since_upd [simp]: "labelled k \<Longrightarrow> labelled_since m (m(k := v))"
  by (auto simp: labelled_since_def)

declare labelled.simps [simp del]
declare labelled_uses [simp]

text \<open>The number of calls whose endpoint and status satisfy \<open>q\<close>.\<close>

definition answered :: "('e \<Rightarrow> int \<Rightarrow> bool) \<Rightarrow> ('e \<times> HttpRequest) list \<Rightarrow> HttpResponse list \<Rightarrow> int" where
  "answered q calls resps = sum_list (map2 (\<lambda>(ep, rq) resp. of_bool (q ep (hp_status resp))) calls resps)"

text \<open>
  A handler in which each of the metrics \<open>ks\<close> counts the answers its \<open>q\<close> describes, and which
  touches only labelled metrics: so does every sequence of requests.
\<close>

locale counting_handler =
  fixes handle :: "'e \<Rightarrow> HttpRequest \<Rightarrow> ('db, HttpResponse) io" and counts :: "string list \<Rightarrow> ('e \<Rightarrow> int \<Rightarrow> bool) option"
  assumes labelled_call: "run_state (handle ep rq) w = (resp, w') \<Longrightarrow> labelled_since (w_metrics w) (w_metrics w')"
    and counted_call: "run_state (handle ep rq) w = (resp, w') \<Longrightarrow> counts k = Some q \<Longrightarrow>
      w_metrics w' k = w_metrics w k + of_bool (q ep (hp_status resp))"
begin

lemma calls_counted:
  assumes "run_state (for_map (\<lambda>(ep, rq). handle ep rq) calls) w = (resps, w')"
  shows "labelled_since (w_metrics w) (w_metrics w') \<and>
    (\<forall>k q. counts k = Some q \<longrightarrow> w_metrics w' k = w_metrics w k + answered q calls resps)"
  using assms
proof (induction calls arbitrary: w resps)
  case (Cons call calls)
  obtain ep rq where call: "call = (ep, rq)" by (cases call)
  obtain resp w1 where one: "run_state (handle ep rq) w = (resp, w1)" by fastforce
  obtain resps' where rest: "run_state (for_map (\<lambda>(ep, rq). handle ep rq) calls) w1 = (resps', w')" "resps = resp # resps'"
    using Cons.prems one call by (auto split: prod.splits)
  have "labelled_since (w_metrics w) (w_metrics w')"
    using labelled_call [OF one] Cons.IH [OF rest(1)] by (blast intro: labelled_since_trans)
  moreover have "w_metrics w' k = w_metrics w k + answered q (call # calls) resps" if "counts k = Some q" for k q
    using counted_call [OF one that] Cons.IH [OF rest(1)] that by (simp add: answered_def call rest(2))
  ultimately show ?case by simp
qed (simp add: answered_def)

end

subsection \<open>The order service\<close>

definition order_counts :: "string list \<Rightarrow> (order_endpoint \<Rightarrow> int \<Rightarrow> bool) option" where
  "order_counts =
     [[''orders_created_total'', ''order-service''] \<mapsto> (\<lambda>ep status. ep = EpCreateOrder \<and> status = 201),
      [''orders_cancelled_total'', ''order-service''] \<mapsto> (\<lambda>ep status. ep = EpCancelOrder \<and> status = 200)]"

lemma order_error_status: "hp_status (order_handleError e) \<in> {400, 404, 409, 500}"
  by (simp add: order_handleError_def Let_def)

interpretation order_http: counting_handler "order_endpoint_handler env (orderUC env)" order_counts for env
proof
  fix ep rq w resp w'
  assume run: "run_state (order_endpoint_handler env (orderUC env) ep rq) w = (resp, w')"
  have status: "hp_status (order_handleError e) \<noteq> 200" "hp_status (order_handleError e) \<noteq> 201" for e
    using order_error_status [of e] by auto
  note unfolded = OrderHandler_CreateOrder_def OrderHandler_GetOrder_def OrderHandler_ListOrders_def
    OrderHandler_CancelOrder_def run_metric_add
  show "labelled_since (w_metrics w) (w_metrics w')"
    using run by (cases ep) (auto simp: unfolded Let_def dest: order_quiet_runs split: prod.splits option.splits sum.splits if_splits)
  fix k q
  assume "order_counts k = Some q"
  then consider "k = [''orders_created_total'', ''order-service'']" "q = (\<lambda>ep status. ep = EpCreateOrder \<and> status = 201)"
    | "k = [''orders_cancelled_total'', ''order-service'']" "q = (\<lambda>ep status. ep = EpCancelOrder \<and> status = 200)"
    by (auto simp: order_counts_def split: if_splits)
  then show "w_metrics w' k = w_metrics w k + of_bool (q ep (hp_status resp))"
    using run
    by cases (cases ep; auto simp: unfolded Let_def status invalid_body_def dest: order_quiet_runs
        split: prod.splits option.splits sum.splits if_splits)+
qed

text \<open>
  C19: the metrics of the order service tell the truth. Whatever requests arrive and whatever
  round trips fail, no call of \<open>WithLabelValues\<close> panics, since only declared metrics with the
  declared number of labels are touched, and the counters of created and of cancelled orders
  have grown by exactly the number of 201 answers to a creation and of 200 answers to a
  cancellation.
\<close>

theorem order_metrics_tell_the_truth:
  assumes "run_state (for_map (\<lambda>(ep, rq). order_endpoint_handler env (orderUC env) ep rq) calls) w = (resps, w')"
  shows "labelled_since (w_metrics w) (w_metrics w') \<and>
    w_metrics w' [''orders_created_total'', ''order-service''] = w_metrics w [''orders_created_total'', ''order-service''] +
      answered (\<lambda>ep status. ep = EpCreateOrder \<and> status = 201) calls resps \<and>
    w_metrics w' [''orders_cancelled_total'', ''order-service''] = w_metrics w [''orders_cancelled_total'', ''order-service''] +
      answered (\<lambda>ep status. ep = EpCancelOrder \<and> status = 200) calls resps"
  using order_http.calls_counted [OF assms] by (simp add: order_counts_def)

theorem order_metrics_tell_the_truth_witness:
  "case run_state (for_map (\<lambda>(ep, rq). order_endpoint_handler ideal_env (orderUC ideal_env) ep rq)
      [(EpCreateOrder, demo_empty_cart), (EpCancelOrder, demo_cancel)]) (idle demo_orders) of (resps, w') \<Rightarrow>
    labelled_since (\<lambda>_. 0) (w_metrics w') \<and>
    w_metrics w' [''orders_created_total'', ''order-service''] =
      answered (\<lambda>ep status. ep = EpCreateOrder \<and> status = 201) [(EpCreateOrder, demo_empty_cart), (EpCancelOrder, demo_cancel)] resps"
proof -
  obtain resps w' where run: "run_state (for_map (\<lambda>(ep, rq). order_endpoint_handler ideal_env (orderUC ideal_env) ep rq)
      [(EpCreateOrder, demo_empty_cart), (EpCancelOrder, demo_cancel)]) (idle demo_orders) = (resps, w')" by fastforce
  have zero: "w_metrics (idle demo_orders) = (\<lambda>_. 0)" by (simp add: fun_eq_iff)
  from order_metrics_tell_the_truth [OF run] show ?thesis unfolding run zero prod.case by simp
qed

subsection \<open>The inventory service\<close>

definition inventory_counts :: "string list \<Rightarrow> (inventory_endpoint \<Rightarrow> int \<Rightarrow> bool) option" where
  "inventory_counts =
     [[''inventory_releases_total'', ''inventory-service''] \<mapsto> (\<lambda>ep status. ep = EpReleaseReservation \<and> status = 200),
      [''inventory_updates_total'', ''inventory-service''] \<mapsto> (\<lambda>ep status. ep = EpUpdateStock \<and> status = 200)]"

lemma inventory_error_status: "hp_status (inventory_handleError e) \<in> {400, 404, 409, 500}"
  by (simp add: inventory_handleError_def Let_def)

lemma keeps_reserve_items:
  assumes "\<And>e. keeps (\<lambda>w. P (w_metrics w)) (inventory_failed e :: (inv_db, unit) io)"
    and "keeps (\<lambda>w. P (w_metrics w)) (metric_add [''inventory_reservations_total'', ''inventory-service'', ''success''] 1 :: (inv_db, unit) io)"
  shows "keeps (\<lambda>w. P (w_metrics w)) (reserve_items env (inventoryUC env) oid items results lastErr)"
proof (induction items arbitrary: results lastErr)
  case (Cons item items)
  show ?case unfolding reserve_items.simps by (intro keeps_intros quiet_intros assms Cons.IH)
qed (simp add: keeps_ret)

lemma keeps_other_metric: "k \<noteq> k' \<Longrightarrow> keeps (\<lambda>w. w_metrics w k = v) (metric_add k' i)"
  by (simp add: keeps_def run_metric_add)

lemma reserve_items_metrics:
  assumes "run_state (reserve_items env (inventoryUC env) oid items results lastErr) w = (r, w')"
  shows "labelled_since (w_metrics w) (w_metrics w')"
    and "w_metrics w' [''inventory_releases_total'', s] = w_metrics w [''inventory_releases_total'', s]"
    and "w_metrics w' [''inventory_updates_total'', s] = w_metrics w [''inventory_updates_total'', s]"
proof -
  have all: "(\<And>e. keeps (\<lambda>w. P (w_metrics w)) (inventory_failed e :: (inv_db, unit) io)) \<Longrightarrow>
      keeps (\<lambda>w. P (w_metrics w)) (metric_add [''inventory_reservations_total'', ''inventory-service'', ''success''] 1 :: (inv_db, unit) io) \<Longrightarrow>
      P (w_metrics w) \<Longrightarrow> P (w_metrics w')" for P
    using keepsD [OF keeps_reserve_items] assms by (metis snd_conv)
  show "labelled_since (w_metrics w) (w_metrics w')"
    using all [of "labelled_since (w_metrics w)"] assms by (simp add: inventory_failed_def keeps_metric_add)
  show "w_metrics w' [''inventory_releases_total'', s] = w_metrics w [''inventory_releases_total'', s]"
    using all [of "\<lambda>m. m [''inventory_releases_total'', s] = w_metrics w [''inventory_releases_total'', s]"] assms
    by (simp add: inventory_failed_def keeps_other_metric)
  show "w_metrics w' [''inventory_updates_total'', s] = w_metrics w [''inventory_updates_total'', s]"
    using all [of "\<lambda>m. m [''inventory_updates_total'', s] = w_metrics w [''inventory_updates_total'', s]"] assms
    by (simp add: inventory_failed_def keeps_other_metric)
qed

interpretation inventory_http: counting_handler "inventory_endpoint_handler env (inventoryUC env)" inventory_counts for env
proof
  fix ep rq w resp w'
  assume run: "run_state (inventory_endpoint_handler env (inventoryUC env) ep rq) w = (resp, w')"
  have status: "hp_status (inventory_handleError e) \<noteq> 200" for e using inventory_error_status [of e] by auto
  note unfolded = InventoryHandler_GetStock_def InventoryHandler_ReserveStock_def InventoryHandler_ReleaseReservation_def
    InventoryHandler_UpdateStock_def run_metric_add inventory_failed_def
  show "labelled_since (w_metrics w) (w_metrics w')"
    using run
    by (cases ep) (auto simp: unfolded dest: inventory_quiet_runs reserve_items_metrics
        split: prod.splits option.splits sum.splits if_splits)
  fix k q
  assume "inventory_counts k = Some q"
  then consider "k = [''inventory_releases_total'', ''inventory-service'']"
      "q = (\<lambda>ep status. ep = EpReleaseReservation \<and> status = 200)"
    | "k = [''inventory_updates_total'', ''inventory-service'']" "q = (\<lambda>ep status. ep = EpUpdateStock \<and> status = 200)"
    by (auto simp: inventory_counts_def split: if_splits)
  then show "w_metrics w' k = w_metrics w k + of_bool (q ep (hp_status resp))"
    using run
    by cases (cases ep; auto simp: unfolded status bad_body_def dest: inventory_quiet_runs reserve_items_metrics
        split: prod.splits option.splits sum.splits if_splits)+
qed

text \<open>
  The same of the inventory service: only declared metrics are touched, and the counters of
  releases and of updates count exactly the 200 answers to a release and to an update.
\<close>

theorem inventory_metrics_tell_the_truth:
  assumes "run_state (for_map (\<lambda>(ep, rq). inventory_endpoint_handler env (inventoryUC env) ep rq) calls) w = (resps, w')"
  shows "labelled_since (w_metrics w) (w_metrics w') \<and>
    w_metrics w' [''inventory_releases_total'', ''inventory-service''] =
      w_metrics w [''inventory_releases_total'', ''inventory-service''] +
      answered (\<lambda>ep status. ep = EpReleaseReservation \<and> status = 200) calls resps \<and>
    w_metrics w' [''inventory_updates_total'', ''inventory-service''] =
      w_metrics w [''inventory_updates_total'', ''inventory-service''] +
      answered (\<lambda>ep status. ep = EpUpdateStock \<and> status = 200) calls resps"
  using inventory_http.calls_counted [OF assms] by (simp add: inventory_counts_def)

subsection \<open>The consumers\<close>

lemma keeps_retry_loop:
  "(\<And>msg. keeps I (c_handler c msg)) \<Longrightarrow> keeps I (ctx_done env) \<Longrightarrow> keeps I (retry_loop env ctx c msg attempt lastErr)"
proof (induction env ctx c msg attempt lastErr rule: retry_loop.induct)
  case (1 env ctx c msg attempt lastErr)
  have wait: "keeps I (wait_done env ctx)" using "1.prems"(2) by (cases ctx) (auto simp: wait_done_def intro: keeps_ret)
  have IH: "keeps I (retry_loop env ctx c msg (attempt + 1) (Some e))" if "attempt \<le> cc_max_retries (c_config c)" for e
    using "1.IH" [of False e] that "1.prems" by simp
  show ?case
    by (subst retry_loop.simps) (cases "attempt \<le> cc_max_retries (c_config c)"; simp only: if_True if_False;
      intro keeps_intros wait "1.prems"(1) IH)
qed

lemma keeps_consumer:
  assumes "\<And>msg. keeps (\<lambda>w. labelled_since m0 (w_metrics w)) (c_handler c msg)"
  shows "keeps (\<lambda>w. labelled_since m0 (w_metrics w)) (Consumer_Start env c reads)"
proof (induction reads)
  case (Cons r reads)
  have "keeps (\<lambda>w. labelled_since m0 (w_metrics w)) (consume env c msg)" for msg
    unfolding consume_def handleWithRetry_def sendToDLQ_def
    by (intro keeps_intros quiet_intros keeps_metric_add keeps_retry_loop assms labelled_uses)
  with Cons.IH show ?case by (cases r) (auto intro!: keeps_intros quiet_intros)
qed (simp add: keeps_ret)

lemma quiet_handlers:
  "keeps (\<lambda>w. P (w_metrics w)) (InventoryEventHandler_Handle (inventory_event_handler env) msg)"
  "keeps (\<lambda>w. P (w_metrics w)) (OrderEventHandler_Handle ienv (order_event_handler ienv) msg)"
  unfolding InventoryEventHandler_Handle_def handleInventoryReserved_def handleReservationFailed_def handleInventoryReleased_def
    inventory_event_handler_def OrderEventHandler_Handle_def handleOrderCreated_def handleOrderCancelled_def reserve_item_def
    publishInventoryReservationFailed_def order_event_handler_def adapter_ReserveStock_def adapter_ReleaseReservation_def Let_def
  by (intro keeps_intros quiet_intros | simp split del: if_split)+

text \<open>Whatever messages the two consumers read, and however often they retry, no metric panics.\<close>

theorem consumer_metrics_labelled:
  "labelled_since (w_metrics w) (w_metrics (snd (run_state (Consumer_Start env (inventoryConsumer env) reads) w))) \<and>
   labelled_since (w_metrics v) (w_metrics (snd (run_state (Consumer_Start ienv (orderConsumer ienv) reads') v)))"
  using keepsD [OF keeps_consumer [of "w_metrics w" "inventoryConsumer env"], of w env reads]
    keepsD [OF keeps_consumer [of "w_metrics v" "orderConsumer ienv"], of v ienv reads']
    quiet_handlers [of "labelled_since (w_metrics w)"] quiet_handlers [of "labelled_since (w_metrics v)"]
  by (simp add: inventoryConsumer_def orderConsumer_def NewConsumer_def)

end
