(* ===== verification/WS_Client.thy ===== *)
theory WS_Client
  imports Go_Json
begin

text \<open>
  The client side of the WebSocket hub (\<^verbatim>\<open>pkg/websocket/client.go\<close>): the send buffer of a
  connection, its subscriptions, and what a message from the browser makes its reader do. A
  send on a Go channel inside \<open>select ... default\<close> has three outcomes: the value is buffered, the
  buffer is full, or the channel is closed and the goroutine panics.
\<close>

subsection \<open>Clients\<close>

text \<open>What a message from the browser makes the reader do, one step at a time.\<close>

datatype action = AAddChannel string | ARemoveChannel string | ASendJSON json

text \<open>
  Where the two goroutines of a connection are. The reader's includes the handler that creates
  it: it offers the client for registration, is registered, reads (with the actions of the
  current message left to do), offers the client for removal, has ended.
\<close>

datatype reader_pc = RRegistering | RRegistered | RReading "action list" | ROffering | RDone

datatype writer_pc = WNotStarted | WRunning | WDone

record WsClient =
  wc_id :: string
  wc_send :: "json list"
  wc_closed :: bool
  wc_channels :: "string list"
  wc_reader :: reader_pc
  wc_writer :: writer_pc
  wc_taken :: "json list"

text \<open>The capacity of \<open>make(chan []byte, 256)\<close>.\<close>

definition send_capacity :: nat where
  "send_capacity = 256"

definition NewClient :: "string \<Rightarrow> WsClient" where
  "NewClient i = \<lparr>wc_id = i, wc_send = [], wc_closed = False, wc_channels = [], wc_reader = RRegistering,
     wc_writer = WNotStarted, wc_taken = []\<rparr>"

definition HasChannel :: "WsClient \<Rightarrow> string \<Rightarrow> bool" where
  "HasChannel c ch \<longleftrightarrow> ch \<in> set (wc_channels c)"

definition AddChannel :: "string \<Rightarrow> WsClient \<Rightarrow> WsClient" where
  "AddChannel ch c = c\<lparr>wc_channels := List.insert ch (wc_channels c)\<rparr>"

definition RemoveChannel :: "string \<Rightarrow> WsClient \<Rightarrow> WsClient" where
  "RemoveChannel ch c = c\<lparr>wc_channels := removeAll ch (wc_channels c)\<rparr>"

datatype send_result = Sent WsClient | BufferFull | SendPanic

definition try_send :: "json \<Rightarrow> WsClient \<Rightarrow> send_result" where
  "try_send m c =
     (if wc_closed c then SendPanic
      else if length (wc_send c) < send_capacity then Sent (c\<lparr>wc_send := wc_send c @ [m]\<rparr>)
      else BufferFull)"

subsection \<open>Messages from the browser (handleMessage)\<close>

record client_message =
  cm_action :: string
  cm_channel :: string
  cm_channels :: "string list"

definition dec_client_message :: "client_message decoder" where
  "dec_client_message = dec_struct
     [(''action'', fld cm_action cm_action_update dec_string),
      (''channel'', fld cm_channel cm_channel_update dec_string),
      (''channels'', fld cm_channels cm_channels_update (dec_slice dec_string ''''))]"

definition sendConfirmation :: "string \<Rightarrow> string list \<Rightarrow> action" where
  "sendConfirmation act channels = ASendJSON
     (JObj [(''action'', JStr act), (''channel'', JArr (map JStr channels)), (''type'', JStr ''confirmation'')])"

definition pong :: json where
  "pong = JObj [(''type'', JStr ''pong''), (''payload'', JNull)]"

definition client_handleMessage :: "json_text \<Rightarrow> action list" where
  "client_handleMessage data =
     (case unmarshal dec_client_message \<lparr>cm_action = '''', cm_channel = '''', cm_channels = []\<rparr> data of
        None \<Rightarrow> []
      | Some msg \<Rightarrow>
          if cm_action msg = ''subscribe'' then
            (if cm_channel msg = '''' then []
             else [AAddChannel (cm_channel msg), sendConfirmation ''subscribed'' [cm_channel msg]]) @
            (if cm_channels msg = [] then []
             else map AAddChannel (cm_channels msg) @ [sendConfirmation ''subscribed'' (cm_channels msg)])
          else if cm_action msg = ''unsubscribe'' then
            (if cm_channel msg = '''' then []
             else [ARemoveChannel (cm_channel msg), sendConfirmation ''unsubscribed'' [cm_channel msg]])
          else if cm_action msg = ''ping'' then [ASendJSON pong]
          else [])"

text \<open>One action of the reader; \<open>sendJSON\<close> drops the message when the buffer is full.\<close>

fun perform :: "action \<Rightarrow> WsClient \<Rightarrow> WsClient option" where
  "perform (AAddChannel ch) c = Some (AddChannel ch c)"
| "perform (ARemoveChannel ch) c = Some (RemoveChannel ch c)"
| "perform (ASendJSON m) c =
     (case try_send m c of Sent c' \<Rightarrow> Some c' | BufferFull \<Rightarrow> Some c | SendPanic \<Rightarrow> None)"

subsection \<open>Facts about single clients\<close>

lemmas client_defs = HasChannel_def AddChannel_def RemoveChannel_def try_send_def NewClient_def

lemma HasChannel_laws:
  "HasChannel (AddChannel ch c) ch' \<longleftrightarrow> ch' = ch \<or> HasChannel c ch'"
  "HasChannel (RemoveChannel ch c) ch' \<longleftrightarrow> ch' \<noteq> ch \<and> HasChannel c ch'"
  by (auto simp: client_defs)

lemma try_send_Sent:
  "try_send m c = Sent c' \<Longrightarrow> \<not> wc_closed c \<and> length (wc_send c) < send_capacity \<and> c' = c\<lparr>wc_send := wc_send c @ [m]\<rparr>"
  by (auto simp: try_send_def split: if_splits)

lemma try_send_open: "\<not> wc_closed c \<Longrightarrow> try_send m c \<noteq> SendPanic"
  by (simp add: try_send_def)

lemma perform_keeps:
  "perform a c = Some c' \<Longrightarrow> wc_closed c' = wc_closed c \<and> wc_reader c' = wc_reader c \<and> wc_writer c' = wc_writer c \<and>
     wc_taken c' = wc_taken c \<and> (length (wc_send c) \<le> send_capacity \<longrightarrow> length (wc_send c') \<le> send_capacity) \<and>
     (wc_send c' = wc_send c \<or> (\<exists>m. wc_send c' = wc_send c @ [m]))"
  by (cases a) (auto simp: client_defs split: if_splits)

lemma perform_open: "\<not> wc_closed c \<Longrightarrow> perform a c \<noteq> None"
  by (cases a) (auto simp: try_send_def)

end
