(* ===== verification/WS_Subscriber.thy ===== *)
theory WS_Subscriber
  imports Go_Json Prelude "HOL-Library.List_Lexorder" "HOL-Library.Char_ord"
begin

text \<open>
  The Redis subscriber of the WebSocket service (\<^verbatim>\<open>internal/websocket/subscriber.go\<close>): which
  channels an event is broadcast to, and the message the browsers receive. The members of a
  decoded \<open>map[string]interface{}\<close> are marshalled again in key order, the last of several with
  the same name wins, and every number goes through a \<open>float64\<close>.
\<close>

subsection \<open>Values of type interface\<close>

definition last_members :: "(string \<times> json) list \<Rightarrow> (string \<times> json) list" where
  "last_members kvs = map (\<lambda>k. (k, the (map_of (rev kvs) k))) (sort (remdups (map fst kvs)))"

fun number :: "float64 \<Rightarrow> json option" where
  "number f = (case finite_or_error f of None \<Rightarrow> None | Some g \<Rightarrow> enc_float g)"

fun iface :: "json \<Rightarrow> json option" and iface_list :: "json list \<Rightarrow> json list option"
  and iface_members :: "(string \<times> json) list \<Rightarrow> (string \<times> json) list option" where
  "iface (JInt i) = number (float_of_int i)"
| "iface (JDec f) = number f"
| "iface (JArr vs) = map_option JArr (iface_list vs)"
| "iface (JObj kvs) = map_option (\<lambda>m. JObj (last_members m)) (iface_members kvs)"
| "iface JNull = Some JNull"
| "iface (JBool b) = Some (JBool b)"
| "iface (JStr s) = Some (JStr s)"
| "iface (JTime t) = Some (JTime t)"
| "iface_list [] = Some []"
| "iface_list (v # vs) =
     (case iface v of None \<Rightarrow> None | Some x \<Rightarrow> map_option ((#) x) (iface_list vs))"
| "iface_members [] = Some []"
| "iface_members ((k, v) # kvs) =
     (case iface v of None \<Rightarrow> None | Some x \<Rightarrow> map_option ((#) (k, x)) (iface_members kvs))"

subsection \<open>Events\<close>

record EventMessage =
  em_event_id :: string
  em_event_type :: string
  em_data :: json

definition dec_EventMessage :: "EventMessage decoder" where
  "dec_EventMessage = dec_struct
     [(''event_id'', fld em_event_id em_event_id_update dec_string),
      (''event_type'', fld em_event_type em_event_type_update dec_string),
      (''data'', fld em_data em_data_update (\<lambda>_. iface))]"

text \<open>\<open>ws.Message\<close>: a broadcast is the channel and the marshalled message.\<close>

type_synonym broadcast = "string \<times> json"

definition ws_message :: "EventMessage \<Rightarrow> json" where
  "ws_message event = JObj [(''type'', JStr (em_event_type event)), (''payload'', em_data event)]"

text \<open>\<open>m[key].(string)\<close> of a decoded object, the empty string when there is none.\<close>

definition extract_id :: "string \<Rightarrow> json \<Rightarrow> string" where
  "extract_id key data =
     (case obj_get key data of
        Some (JStr s) \<Rightarrow> s
      | Some (JTime t) \<Rightarrow> rfc3339_nano_text t
      | _ \<Rightarrow> '''')"

definition extractOrderID :: "json \<Rightarrow> string" where
  "extractOrderID = extract_id ''order_id''"

definition extractCustomerID :: "json \<Rightarrow> string" where
  "extractCustomerID = extract_id ''customer_id''"

definition extractProductID :: "json \<Rightarrow> string" where
  "extractProductID = extract_id ''product_id''"

definition handleOrderEvent :: "EventMessage \<Rightarrow> json \<Rightarrow> broadcast list" where
  "handleOrderEvent event msg =
     (if em_event_type event = ''order.status.changed'' then
        (if extractOrderID (em_data event) = '''' then []
         else [(''order:'' @ extractOrderID (em_data event), msg)]) @ [(''orders'', msg)]
      else if em_event_type event \<in> {''order.created'', ''order.cancelled'', ''order.confirmed''} then
        (if extractCustomerID (em_data event) = '''' then []
         else [(''customer:'' @ extractCustomerID (em_data event), msg)])
      else [(''orders'', msg)])"

definition handleInventoryEvent :: "EventMessage \<Rightarrow> json \<Rightarrow> broadcast list" where
  "handleInventoryEvent event msg =
     (if em_event_type event = ''inventory.updated'' then
        (if extractProductID (em_data event) = '''' then []
         else [(''product:'' @ extractProductID (em_data event), msg)]) @ [(''inventory'', msg)]
      else if em_event_type event = ''inventory.low_stock'' then [(''inventory:low_stock'', msg)]
      else [(''inventory'', msg)])"

text \<open>The broadcasts a message on a Redis channel makes, in order; an error is logged and makes none.\<close>

definition subscriber_handleMessage :: "string \<Rightarrow> json_text \<Rightarrow> broadcast list option" where
  "subscriber_handleMessage channel payload =
     (case unmarshal dec_EventMessage \<lparr>em_event_id = '''', em_event_type = '''', em_data = JNull\<rparr> payload of
        None \<Rightarrow> None
      | Some event \<Rightarrow>
          Some (if channel = ''order.events'' then handleOrderEvent event (ws_message event)
                else if channel = ''inventory.events'' then handleInventoryEvent event (ws_message event)
                else []))"

definition event_broadcasts :: "string \<Rightarrow> json_text \<Rightarrow> broadcast list" where
  "event_broadcasts channel payload =
     (case subscriber_handleMessage channel payload of None \<Rightarrow> [] | Some bs \<Rightarrow> bs)"

text \<open>
  \<open>Start\<close> on the successive outcomes of its \<open>select\<close>: the context is done, a message arrives, or
  the Redis channel is closed. The result is the list of broadcasts made and the error returned,
  none while it is still waiting.
\<close>

datatype sub_wakeup = SubDone | SubMessage string json_text | SubClosed

fun Subscriber_Start :: "sub_wakeup list \<Rightarrow> broadcast list \<times> go_error option" where
  "Subscriber_Start [] = ([], None)"
| "Subscriber_Start (SubDone # ws) = ([], Some (Sentinel ''context canceled''))"
| "Subscriber_Start (SubClosed # ws) = ([], Some (External ''redis channel closed''))"
| "Subscriber_Start (SubMessage channel payload # ws) =
     (case Subscriber_Start ws of (bs, e) \<Rightarrow> (event_broadcasts channel payload @ bs, e))"

end
