(* ===== verification/WS_Hub.thy ===== *)
theory WS_Hub
  imports WS_Client WS_Subscriber Event_System
begin

text \<open>
  The WebSocket hub (\<^verbatim>\<open>pkg/websocket/hub.go\<close>) with the goroutines that use it: \<open>Run\<close>, the
  readers and writers of the connections (\<^verbatim>\<open>pkg/websocket/client.go\<close>), the handler that accepts
  them (\<^verbatim>\<open>internal/websocket/handler.go\<close>) and the Redis subscriber that broadcasts. The model is
  an event system: a state with the program counters of the goroutines, and one event per
  indivisible step, so that every interleaving is a sequence of events.

  A send on an unbuffered channel is one event, in which the receiver continues and so does the
  sender. The write lock of the hub is taken and released within one event, which is enabled
  while nobody holds a read lock; the loops over \<open>h.clients\<close> hold a read lock from their first
  to their last event and visit the clients in any order, as a Go map does. Clients are pointers
  into a heap. After a panic the process is gone and nothing is enabled.
\<close>

subsection \<open>State\<close>

datatype run_pc =
    RunWaiting
  | RunRegistering nat
  | RunRemoving nat
  | RunSending json "nat list" "nat list"
  | RunDropping "nat list"

text \<open>
  The subscriber: broadcasts still to make; a broadcast in progress (channel, message, clients
  not visited yet, the client it is about to send to, clients that were full) and those still
  to make; the clients it is handing over for removal.
\<close>

datatype sub_pc =
    SubTodo "broadcast list"
  | SubSending string json "nat list" "nat option" "nat list" "broadcast list"
  | SubUnregistering "nat list" "broadcast list"

record Hub =
  hb_clients :: "nat list"
  hb_heap :: "nat \<Rightarrow> WsClient option"
  hb_broadcast :: "json list"
  hb_run :: run_pc
  hb_sub :: sub_pc
  hb_active :: int
  hb_sent :: "string \<Rightarrow> int"
  hb_panic :: bool

definition NewHub :: Hub where
  "NewHub = \<lparr>hb_clients = [], hb_heap = (\<lambda>_. None), hb_broadcast = [], hb_run = RunWaiting, hb_sub = SubTodo [],
     hb_active = 0, hb_sent = (\<lambda>_. 0), hb_panic = False\<rparr>"

definition broadcast_capacity :: nat where
  "broadcast_capacity = 256"

text \<open>Nobody holds a read lock; \<open>Run\<close> itself has released its own by the time it writes.\<close>

fun sub_unlocked :: "sub_pc \<Rightarrow> bool" where
  "sub_unlocked (SubSending _ _ _ _ _ _) = False"
| "sub_unlocked _ = True"

definition unlocked :: "Hub \<Rightarrow> bool" where
  "unlocked h \<longleftrightarrow> sub_unlocked (hb_sub h)"

definition put_client :: "nat \<Rightarrow> WsClient \<Rightarrow> Hub \<Rightarrow> Hub" where
  "put_client c x h = h\<lparr>hb_heap := (hb_heap h)(c \<mapsto> x)\<rparr>"

definition panicked :: "Hub \<Rightarrow> Hub" where
  "panicked h = h\<lparr>hb_panic := True\<rparr>"

text \<open>\<open>if _, ok := h.clients[client]; ok { delete; close(client.send) }\<close> and the gauge; closing twice panics.\<close>

definition drop_client :: "nat \<Rightarrow> Hub \<Rightarrow> Hub" where
  "drop_client c h =
     (if c \<in> set (hb_clients h) then
        (case hb_heap h c of
           None \<Rightarrow> panicked h
         | Some x \<Rightarrow>
             if wc_closed x then panicked h
             else put_client c (x\<lparr>wc_closed := True\<rparr>)
                    (h\<lparr>hb_clients := removeAll c (hb_clients h), hb_active := hb_active h - 1\<rparr>))
      else h\<lparr>hb_active := hb_active h - 1\<rparr>)"

subsection \<open>Events\<close>

datatype ws_event =
    Connect nat string
  | RecvRegister nat
  | RunInsert
  | Started nat
  | Read nat json_text
  | ReadAct nat
  | ReadFail nat
  | RecvUnregister nat
  | RecvUnregisterSub
  | RunRemove
  | Write nat bool
  | WriteClosed nat
  | PingFail nat
  | Broadcast json
  | RunReceive
  | RunSend nat
  | RunSendDone
  | RunDrop
  | SubReceive string json_text
  | SubLock
  | SubPick nat
  | SubPut
  | SubUnlock

text \<open>The handler of a new connection, and what the reader and the writer of a connection do.\<close>

definition connect :: "nat \<Rightarrow> string \<Rightarrow> Hub \<Rightarrow> Hub option" where
  "connect c i h = (case hb_heap h c of None \<Rightarrow> Some (put_client c (NewClient i) h) | Some _ \<Rightarrow> None)"

definition started :: "nat \<Rightarrow> Hub \<Rightarrow> Hub option" where
  "started c h = (case hb_heap h c of
     Some x \<Rightarrow> if wc_reader x = RRegistered
       then Some (put_client c (x\<lparr>wc_reader := RReading [], wc_writer := WRunning\<rparr>) (h\<lparr>hb_active := hb_active h + 1\<rparr>))
       else None
   | None \<Rightarrow> None)"

definition read_message :: "nat \<Rightarrow> json_text \<Rightarrow> Hub \<Rightarrow> Hub option" where
  "read_message c data h = (case hb_heap h c of
     Some x \<Rightarrow> if wc_reader x = RReading []
       then Some (put_client c (x\<lparr>wc_reader := RReading (client_handleMessage data)\<rparr>) h) else None
   | None \<Rightarrow> None)"

definition read_act :: "nat \<Rightarrow> Hub \<Rightarrow> Hub option" where
  "read_act c h = (case hb_heap h c of
     Some x \<Rightarrow> (case wc_reader x of
        RReading (a # as) \<Rightarrow> (case perform a x of
            Some x' \<Rightarrow> Some (put_client c (x'\<lparr>wc_reader := RReading as\<rparr>) h)
          | None \<Rightarrow> Some (panicked h))
      | _ \<Rightarrow> None)
   | None \<Rightarrow> None)"

definition read_fail :: "nat \<Rightarrow> Hub \<Rightarrow> Hub option" where
  "read_fail c h = (case hb_heap h c of
     Some x \<Rightarrow> if wc_reader x = RReading [] then Some (put_client c (x\<lparr>wc_reader := ROffering\<rparr>) h) else None
   | None \<Rightarrow> None)"

text \<open>The writer takes a message; it goes on when it could be written and ends otherwise.\<close>

definition write_message :: "nat \<Rightarrow> bool \<Rightarrow> Hub \<Rightarrow> Hub option" where
  "write_message c good h = (case hb_heap h c of
     Some x \<Rightarrow> (case wc_send x of
        m # ms \<Rightarrow> if wc_writer x = WRunning
          then Some (put_client c (x\<lparr>wc_send := ms, wc_taken := wc_taken x @ [m],
                 wc_writer := (if good then WRunning else WDone)\<rparr>) h)
          else None
      | [] \<Rightarrow> None)
   | None \<Rightarrow> None)"

definition write_closed :: "nat \<Rightarrow> Hub \<Rightarrow> Hub option" where
  "write_closed c h = (case hb_heap h c of
     Some x \<Rightarrow> if wc_writer x = WRunning \<and> wc_send x = [] \<and> wc_closed x
       then Some (put_client c (x\<lparr>wc_writer := WDone\<rparr>) h) else None
   | None \<Rightarrow> None)"

definition ping_fail :: "nat \<Rightarrow> Hub \<Rightarrow> Hub option" where
  "ping_fail c h = (case hb_heap h c of
     Some x \<Rightarrow> if wc_writer x = WRunning then Some (put_client c (x\<lparr>wc_writer := WDone\<rparr>) h) else None
   | None \<Rightarrow> None)"

text \<open>\<open>Run\<close>: registration.\<close>

definition recv_register :: "nat \<Rightarrow> Hub \<Rightarrow> Hub option" where
  "recv_register c h = (case hb_heap h c of
     Some x \<Rightarrow> if hb_run h = RunWaiting \<and> wc_reader x = RRegistering
       then Some (put_client c (x\<lparr>wc_reader := RRegistered\<rparr>) (h\<lparr>hb_run := RunRegistering c\<rparr>)) else None
   | None \<Rightarrow> None)"

definition run_insert :: "Hub \<Rightarrow> Hub option" where
  "run_insert h = (case hb_run h of
     RunRegistering c \<Rightarrow> if unlocked h
       then Some (h\<lparr>hb_clients := List.insert c (hb_clients h), hb_run := RunWaiting\<rparr>) else None
   | _ \<Rightarrow> None)"

text \<open>\<open>Run\<close>: removal, offered by a reader or by the subscriber.\<close>

definition recv_unregister :: "nat \<Rightarrow> Hub \<Rightarrow> Hub option" where
  "recv_unregister c h = (case hb_heap h c of
     Some x \<Rightarrow> if hb_run h = RunWaiting \<and> wc_reader x = ROffering
       then Some (put_client c (x\<lparr>wc_reader := RDone\<rparr>) (h\<lparr>hb_run := RunRemoving c\<rparr>)) else None
   | None \<Rightarrow> None)"

definition sub_after :: "nat list \<Rightarrow> broadcast list \<Rightarrow> sub_pc" where
  "sub_after full rest = (if full = [] then SubTodo rest else SubUnregistering full rest)"

definition recv_unregister_sub :: "Hub \<Rightarrow> Hub option" where
  "recv_unregister_sub h = (case hb_sub h of
     SubUnregistering (c # cs) rest \<Rightarrow> if hb_run h = RunWaiting
       then Some (h\<lparr>hb_run := RunRemoving c, hb_sub := sub_after cs rest\<rparr>) else None
   | _ \<Rightarrow> None)"

definition run_remove :: "Hub \<Rightarrow> Hub option" where
  "run_remove h = (case hb_run h of
     RunRemoving c \<Rightarrow> if unlocked h then Some (drop_client c (h\<lparr>hb_run := RunWaiting\<rparr>)) else None
   | _ \<Rightarrow> None)"

text \<open>\<open>Run\<close>: a message for every client.\<close>

definition broadcast_message :: "json \<Rightarrow> Hub \<Rightarrow> Hub option" where
  "broadcast_message m h = (if length (hb_broadcast h) < broadcast_capacity
     then Some (h\<lparr>hb_broadcast := hb_broadcast h @ [m]\<rparr>) else None)"

definition run_receive :: "Hub \<Rightarrow> Hub option" where
  "run_receive h = (case (hb_run h, hb_broadcast h) of
     (RunWaiting, m # ms) \<Rightarrow> Some (h\<lparr>hb_run := RunSending m (hb_clients h) [], hb_broadcast := ms\<rparr>)
   | _ \<Rightarrow> None)"

definition run_send :: "nat \<Rightarrow> Hub \<Rightarrow> Hub option" where
  "run_send c h = (case hb_run h of
     RunSending m todo full \<Rightarrow> if c \<in> set todo
       then (let h' = h\<lparr>hb_run := RunSending m (removeAll c todo) full\<rparr>
             in case hb_heap h c of
                  None \<Rightarrow> Some (panicked h')
                | Some x \<Rightarrow> (case try_send m x of
                      Sent x' \<Rightarrow> Some (put_client c x' h')
                    | BufferFull \<Rightarrow> Some (h\<lparr>hb_run := RunSending m (removeAll c todo) (full @ [c])\<rparr>)
                    | SendPanic \<Rightarrow> Some (panicked h')))
       else None
   | _ \<Rightarrow> None)"

definition run_after :: "nat list \<Rightarrow> run_pc" where
  "run_after full = (if full = [] then RunWaiting else RunDropping full)"

definition run_send_done :: "Hub \<Rightarrow> Hub option" where
  "run_send_done h = (case hb_run h of
     RunSending m [] full \<Rightarrow> Some (h\<lparr>hb_run := run_after full\<rparr>)
   | _ \<Rightarrow> None)"

definition run_drop :: "Hub \<Rightarrow> Hub option" where
  "run_drop h = (case hb_run h of
     RunDropping (c # cs) \<Rightarrow> if unlocked h then Some (drop_client c (h\<lparr>hb_run := run_after cs\<rparr>)) else None
   | _ \<Rightarrow> None)"

text \<open>The subscriber: an event from Redis, and \<open>BroadcastToChannel\<close> for each of its broadcasts.\<close>

definition sub_receive :: "string \<Rightarrow> json_text \<Rightarrow> Hub \<Rightarrow> Hub option" where
  "sub_receive channel payload h = (case hb_sub h of
     SubTodo [] \<Rightarrow> Some (h\<lparr>hb_sub := SubTodo (event_broadcasts channel payload)\<rparr>)
   | _ \<Rightarrow> None)"

definition sub_lock :: "Hub \<Rightarrow> Hub option" where
  "sub_lock h = (case hb_sub h of
     SubTodo ((ch, m) # rest) \<Rightarrow> Some (h\<lparr>hb_sub := SubSending ch m (hb_clients h) None [] rest\<rparr>)
   | _ \<Rightarrow> None)"

definition sub_pick :: "nat \<Rightarrow> Hub \<Rightarrow> Hub option" where
  "sub_pick c h = (case hb_sub h of
     SubSending ch m todo None full rest \<Rightarrow> if c \<in> set todo
       then (case hb_heap h c of
               None \<Rightarrow> Some (panicked h)
             | Some x \<Rightarrow> Some (h\<lparr>hb_sub := SubSending ch m (removeAll c todo) (if HasChannel x ch then Some c else None) full rest\<rparr>))
       else None
   | _ \<Rightarrow> None)"

definition sub_put :: "Hub \<Rightarrow> Hub option" where
  "sub_put h = (case hb_sub h of
     SubSending ch m todo (Some c) full rest \<Rightarrow>
       (let h' = h\<lparr>hb_sub := SubSending ch m todo None full rest\<rparr>
        in case hb_heap h c of
             None \<Rightarrow> Some (panicked h')
           | Some x \<Rightarrow> (case try_send m x of
                 Sent x' \<Rightarrow> Some (put_client c x' (h'\<lparr>hb_sent := (hb_sent h)(ch := hb_sent h ch + 1)\<rparr>))
               | BufferFull \<Rightarrow> Some (h\<lparr>hb_sub := SubSending ch m todo None (full @ [c]) rest\<rparr>)
               | SendPanic \<Rightarrow> Some (panicked h')))
   | _ \<Rightarrow> None)"

definition sub_unlock :: "Hub \<Rightarrow> Hub option" where
  "sub_unlock h = (case hb_sub h of
     SubSending ch m [] None full rest \<Rightarrow> Some (h\<lparr>hb_sub := sub_after full rest\<rparr>)
   | _ \<Rightarrow> None)"

fun ws_event_step :: "ws_event \<Rightarrow> Hub \<Rightarrow> Hub option" where
  "ws_event_step (Connect c i) = connect c i"
| "ws_event_step (RecvRegister c) = recv_register c"
| "ws_event_step RunInsert = run_insert"
| "ws_event_step (Started c) = started c"
| "ws_event_step (Read c data) = read_message c data"
| "ws_event_step (ReadAct c) = read_act c"
| "ws_event_step (ReadFail c) = read_fail c"
| "ws_event_step (RecvUnregister c) = recv_unregister c"
| "ws_event_step RecvUnregisterSub = recv_unregister_sub"
| "ws_event_step RunRemove = run_remove"
| "ws_event_step (Write c good) = write_message c good"
| "ws_event_step (WriteClosed c) = write_closed c"
| "ws_event_step (PingFail c) = ping_fail c"
| "ws_event_step (Broadcast m) = broadcast_message m"
| "ws_event_step RunReceive = run_receive"
| "ws_event_step (RunSend c) = run_send c"
| "ws_event_step RunSendDone = run_send_done"
| "ws_event_step RunDrop = run_drop"
| "ws_event_step (SubReceive channel payload) = sub_receive channel payload"
| "ws_event_step SubLock = sub_lock"
| "ws_event_step (SubPick c) = sub_pick c"
| "ws_event_step SubPut = sub_put"
| "ws_event_step SubUnlock = sub_unlock"

definition ws_step :: "ws_event \<Rightarrow> Hub \<Rightarrow> Hub option" where
  "ws_step e h = (if hb_panic h then None else ws_event_step e h)"

abbreviation ws_reachable :: "Hub \<Rightarrow> bool" where
  "ws_reachable \<equiv> reachable ws_step NewHub"

text \<open>A schedule: a sequence of events, each enabled in the state its predecessors lead to.\<close>

abbreviation run_events :: "ws_event list \<Rightarrow> Hub \<Rightarrow> Hub option" where
  "run_events \<equiv> run_steps ws_step"

text \<open>\<open>ClientCount\<close> and \<open>GetStats\<close>: the number of clients, and per channel the number of subscribers.\<close>

definition ClientCount :: "Hub \<Rightarrow> nat" where
  "ClientCount h = length (hb_clients h)"

definition subscribed :: "Hub \<Rightarrow> string \<Rightarrow> nat \<Rightarrow> bool" where
  "subscribed h ch c \<longleftrightarrow> (case hb_heap h c of None \<Rightarrow> False | Some x \<Rightarrow> HasChannel x ch)"

definition stats_channels :: "Hub \<Rightarrow> string \<Rightarrow> nat" where
  "stats_channels h ch = length (filter (subscribed h ch) (hb_clients h))"

end
