(* ===== verification/WS_Safety.thy ===== *)
theory WS_Safety
  imports WS_Hub "HOL-Library.Sublist"
begin

text \<open>
  Safety of every interleaving of the hub's goroutines: the invariant that keeps \<open>Run\<close> and the
  subscriber from sending on a closed channel or closing one twice, and the two defects of the
  connection's own goroutine: it panics when it answers a client that the hub has dropped, and
  such a client is counted down twice.
\<close>

subsection \<open>The invariant\<close>

definition is_open :: "Hub \<Rightarrow> nat \<Rightarrow> bool" where
  "is_open h c \<longleftrightarrow> (\<exists>x. hb_heap h c = Some x \<and> \<not> wc_closed x)"

text \<open>Open, and no longer waiting to be registered.\<close>

definition received :: "Hub \<Rightarrow> nat \<Rightarrow> bool" where
  "received h c \<longleftrightarrow> (\<exists>x. hb_heap h c = Some x \<and> \<not> wc_closed x \<and> wc_reader x \<noteq> RRegistering)"

definition clients_inv :: "Hub \<Rightarrow> bool" where
  "clients_inv h \<longleftrightarrow> distinct (hb_clients h) \<and> (\<forall>c \<in> set (hb_clients h). is_open h c)"

definition heap_inv :: "Hub \<Rightarrow> bool" where
  "heap_inv h \<longleftrightarrow> (\<forall>c x. hb_heap h c = Some x \<longrightarrow> length (wc_send x) \<le> send_capacity \<and>
     (wc_reader x = RRegistering \<longrightarrow> \<not> wc_closed x \<and> c \<notin> set (hb_clients h)))"

fun run_inv :: "Hub \<Rightarrow> run_pc \<Rightarrow> bool" where
  "run_inv h (RunRegistering c) = received h c"
| "run_inv h (RunSending m todo full) = (set todo \<subseteq> set (hb_clients h))"
| "run_inv h (RunDropping cs) = (cs \<noteq> [])"
| "run_inv h _ = True"

fun sub_inv :: "Hub \<Rightarrow> sub_pc \<Rightarrow> bool" where
  "sub_inv h (SubSending ch m todo cur full rest) = (set todo \<subseteq> set (hb_clients h) \<and> set_option cur \<subseteq> set (hb_clients h))"
| "sub_inv h (SubUnregistering cs rest) = (cs \<noteq> [])"
| "sub_inv h _ = True"

definition ws_inv :: "Hub \<Rightarrow> bool" where
  "ws_inv h \<longleftrightarrow> clients_inv h \<and> heap_inv h \<and> run_inv h (hb_run h) \<and> sub_inv h (hb_sub h) \<and>
     length (hb_broadcast h) \<le> broadcast_capacity"

lemma put_client_sel [simp]:
  "hb_clients (put_client c x h) = hb_clients h" "hb_run (put_client c x h) = hb_run h"
  "hb_sub (put_client c x h) = hb_sub h" "hb_broadcast (put_client c x h) = hb_broadcast h"
  "hb_active (put_client c x h) = hb_active h" "hb_panic (put_client c x h) = hb_panic h"
  "hb_heap (put_client c x h) = (hb_heap h)(c \<mapsto> x)"
  by (simp_all add: put_client_def)

lemma panicked_sel [simp]:
  "hb_clients (panicked h) = hb_clients h" "hb_run (panicked h) = hb_run h" "hb_sub (panicked h) = hb_sub h"
  "hb_broadcast (panicked h) = hb_broadcast h" "hb_heap (panicked h) = hb_heap h" "hb_panic (panicked h)"
  "hb_active (panicked h) = hb_active h"
  by (simp_all add: panicked_def)

text \<open>The invariant looks at these components only, and grows with the set of open clients.\<close>

lemma run_inv_mono:
  "run_inv h pc \<Longrightarrow> (\<And>c. received h c \<Longrightarrow> received h' c) \<Longrightarrow> set (hb_clients h) \<subseteq> set (hb_clients h') \<Longrightarrow> run_inv h' pc"
  by (cases pc) auto

lemma sub_inv_mono: "sub_inv h pc \<Longrightarrow> set (hb_clients h) \<subseteq> set (hb_clients h') \<Longrightarrow> sub_inv h' pc"
  by (cases pc) auto

lemma sub_inv_unlocked: "sub_inv h pc \<Longrightarrow> sub_unlocked pc \<Longrightarrow> sub_inv h' pc"
  by (cases pc) auto

lemma ws_inv_panicked: "ws_inv h \<Longrightarrow> ws_inv (panicked h)"
  unfolding ws_inv_def clients_inv_def heap_inv_def is_open_def
  by (auto intro: run_inv_mono [of h] sub_inv_mono [of h] simp: received_def)

text \<open>A change of one client that keeps it open.\<close>

lemma ws_inv_put:
  assumes inv: "ws_inv h" and x: "hb_heap h c = Some x" and "wc_closed x' = wc_closed x"
    and "length (wc_send x') \<le> send_capacity" and "wc_reader x' = RRegistering \<longrightarrow> wc_reader x = RRegistering"
    and h': "hb_clients h' = hb_clients h" "hb_heap h' = (hb_heap h)(c \<mapsto> x')" "hb_broadcast h' = hb_broadcast h"
    and pcs: "run_inv h' (hb_run h')" "sub_inv h' (hb_sub h')"
  shows "ws_inv h'"
proof -
  have "is_open h' d = is_open h d" for d using x assms(3) by (auto simp: is_open_def h')
  moreover have "heap_inv h'" using inv x assms(3-5) by (auto simp: ws_inv_def heap_inv_def h')
  ultimately show ?thesis using inv pcs by (auto simp: ws_inv_def clients_inv_def h')
qed

lemma ws_inv_put_same:
  assumes "ws_inv h" and "hb_heap h c = Some x" and "wc_closed x' = wc_closed x"
    and "length (wc_send x') \<le> send_capacity" and "wc_reader x' = RRegistering \<longrightarrow> wc_reader x = RRegistering"
    and h': "hb_clients h' = hb_clients h" "hb_heap h' = (hb_heap h)(c \<mapsto> x')" "hb_broadcast h' = hb_broadcast h"
      "hb_run h' = hb_run h" "hb_sub h' = hb_sub h"
  shows "ws_inv h'"
proof (rule ws_inv_put [OF assms(1-8)])
  have inv: "run_inv h (hb_run h)" "sub_inv h (hb_sub h)" using assms(1) by (simp_all add: ws_inv_def)
  have sub: "set (hb_clients h) \<subseteq> set (hb_clients h')" using h'(1) by simp
  show "run_inv h' (hb_run h')"
    unfolding h'(4) by (rule run_inv_mono [OF inv(1) _ sub]) (use assms(2,3,5) in \<open>auto simp: received_def h'(2)\<close>)
  show "sub_inv h' (hb_sub h')"
    unfolding h'(5) by (rule sub_inv_mono [OF inv(2) sub])
qed

text \<open>A step that changes no client and no table.\<close>

lemma ws_inv_pcs:
  assumes "ws_inv h" and h': "hb_clients h' = hb_clients h" "hb_heap h' = hb_heap h"
    and "length (hb_broadcast h') \<le> broadcast_capacity"
    and "run_inv h (hb_run h')" and "sub_inv h (hb_sub h')"
  shows "ws_inv h'"
proof -
  have "is_open h' = is_open h" "received h' = received h" by (simp_all add: is_open_def received_def fun_eq_iff h')
  with assms show ?thesis
    by (auto simp: ws_inv_def clients_inv_def heap_inv_def intro: run_inv_mono [of h] sub_inv_mono [of h])
qed

lemma ws_inv_drop:
  assumes "ws_inv h" and "run_inv h pc" and "\<And>h'. run_inv h' pc" and "unlocked h"
  shows "ws_inv (drop_client c (h\<lparr>hb_run := pc\<rparr>)) \<and> hb_panic (drop_client c (h\<lparr>hb_run := pc\<rparr>)) = hb_panic h"
proof (cases "c \<in> set (hb_clients h)")
  case True
  with assms(1) obtain x where x: "hb_heap h c = Some x" "\<not> wc_closed x"
    by (auto simp: ws_inv_def clients_inv_def is_open_def)
  let ?h' = "put_client c (x\<lparr>wc_closed := True\<rparr>)
    (h\<lparr>hb_run := pc, hb_clients := removeAll c (hb_clients h), hb_active := hb_active h - 1\<rparr>)"
  have h': "drop_client c (h\<lparr>hb_run := pc\<rparr>) = ?h'" using True x by (simp add: drop_client_def)
  have "is_open ?h' d" if "is_open h d" "d \<noteq> c" for d using that by (auto simp: is_open_def)
  then have "clients_inv ?h'" using assms(1) by (auto simp: ws_inv_def clients_inv_def distinct_removeAll)
  moreover have "heap_inv ?h'" using assms(1) x True by (auto simp: ws_inv_def heap_inv_def)
  ultimately show ?thesis
    using assms(1,3,4) unfolding h' by (auto simp: ws_inv_def unlocked_def intro: sub_inv_unlocked [of h])
next
  case False
  then have "drop_client c (h\<lparr>hb_run := pc\<rparr>) = h\<lparr>hb_run := pc, hb_active := hb_active h - 1\<rparr>"
    by (simp add: drop_client_def)
  moreover have "ws_inv (h\<lparr>hb_run := pc, hb_active := hb_active h - 1\<rparr>)"
    by (rule ws_inv_pcs [OF assms(1)]) (use assms(1,2) in \<open>simp_all add: ws_inv_def\<close>)
  ultimately show ?thesis by simp
qed

lemma ws_inv_open: "ws_inv h \<Longrightarrow> c \<in> set (hb_clients h) \<Longrightarrow> \<exists>x. hb_heap h c = Some x \<and> \<not> wc_closed x"
  by (auto simp: ws_inv_def clients_inv_def is_open_def)

lemma ws_inv_registered: "ws_inv h \<Longrightarrow> c \<in> set (hb_clients h) \<Longrightarrow> hb_heap h c = Some x \<Longrightarrow> wc_reader x \<noteq> RRegistering"
  by (auto simp: ws_inv_def heap_inv_def)

lemma ws_inv_length: "ws_inv h \<Longrightarrow> hb_heap h c = Some x \<Longrightarrow> length (wc_send x) \<le> send_capacity"
  by (auto simp: ws_inv_def heap_inv_def)

lemma ws_inv_run: "ws_inv h \<Longrightarrow> run_inv h (hb_run h)" and ws_inv_sub: "ws_inv h \<Longrightarrow> sub_inv h (hb_sub h)"
  by (simp_all add: ws_inv_def)

lemma ws_inv_counters [simp]:
  "ws_inv (h\<lparr>hb_active := n\<rparr>) = ws_inv h" "ws_inv (h\<lparr>hb_sent := f\<rparr>) = ws_inv h"
  by (cases "hb_run h"; cases "hb_sub h"; simp add: ws_inv_def clients_inv_def heap_inv_def is_open_def received_def)+

text \<open>The steps of the connections' goroutines.\<close>

lemma ws_inv_update:
  assumes "ws_inv h" and "hb_heap h c = Some x" and "wc_closed x' = wc_closed x"
    and "length (wc_send x') \<le> length (wc_send x) \<or> length (wc_send x') \<le> send_capacity" and "wc_reader x' = RRegistering \<longrightarrow> wc_reader x = RRegistering"
  shows "ws_inv (put_client c x' h)"
  using ws_inv_length [OF assms(1,2)] assms(4)
  by (intro ws_inv_put_same [OF assms(1-3) _ assms(5)]) auto

lemma client_steps_inv:
  assumes inv: "ws_inv h"
  shows "started c h = Some h' \<Longrightarrow> ws_inv h' \<and> hb_panic h' = hb_panic h"
    and "read_message c data h = Some h' \<Longrightarrow> ws_inv h' \<and> hb_panic h' = hb_panic h"
    and "read_fail c h = Some h' \<Longrightarrow> ws_inv h' \<and> hb_panic h' = hb_panic h"
    and "write_closed c h = Some h' \<Longrightarrow> ws_inv h' \<and> hb_panic h' = hb_panic h"
    and "ping_fail c h = Some h' \<Longrightarrow> ws_inv h' \<and> hb_panic h' = hb_panic h"
    and "write_message c good h = Some h' \<Longrightarrow> ws_inv h' \<and> hb_panic h' = hb_panic h"
    and "read_act c h = Some h' \<Longrightarrow> ws_inv h'"
proof -
  note upd = ws_inv_update
  show "started c h = Some h' \<Longrightarrow> ws_inv h' \<and> hb_panic h' = hb_panic h"
    using inv by (auto simp: started_def split: option.splits if_splits intro!: upd)
  show "read_message c data h = Some h' \<Longrightarrow> ws_inv h' \<and> hb_panic h' = hb_panic h"
    using inv by (auto simp: read_message_def split: option.splits if_splits intro!: upd)
  show "read_fail c h = Some h' \<Longrightarrow> ws_inv h' \<and> hb_panic h' = hb_panic h"
    using inv by (auto simp: read_fail_def split: option.splits if_splits intro!: upd)
  show "write_closed c h = Some h' \<Longrightarrow> ws_inv h' \<and> hb_panic h' = hb_panic h"
    using inv by (auto simp: write_closed_def split: option.splits if_splits intro!: upd)
  show "ping_fail c h = Some h' \<Longrightarrow> ws_inv h' \<and> hb_panic h' = hb_panic h"
    using inv by (auto simp: ping_fail_def split: option.splits if_splits intro!: upd)
  show "write_message c good h = Some h' \<Longrightarrow> ws_inv h' \<and> hb_panic h' = hb_panic h"
    using inv by (auto simp: write_message_def split: option.splits if_splits list.splits intro!: upd)
  show "read_act c h = Some h' \<Longrightarrow> ws_inv h'"
    using inv by (auto simp: read_act_def split: option.splits reader_pc.splits list.splits
        intro!: upd ws_inv_panicked dest: perform_keeps ws_inv_length [OF inv])
qed

lemma connect_inv:
  assumes inv: "ws_inv h" and "connect c i h = Some h'"
  shows "ws_inv h' \<and> hb_panic h' = hb_panic h"
proof -
  from assms(2) have c: "hb_heap h c = None" and h': "h' = put_client c (NewClient i) h"
    by (auto simp: connect_def split: option.splits)
  have fresh: "c \<notin> set (hb_clients h)" using ws_inv_open [OF inv, of c] c by auto
  have op: "is_open h d \<Longrightarrow> is_open h' d" "received h d \<Longrightarrow> received h' d" for d
    using c by (auto simp: is_open_def received_def h')
  have "clients_inv h'" using inv op(1) by (auto simp: ws_inv_def clients_inv_def h')
  moreover have "heap_inv h'" using inv fresh by (auto simp: ws_inv_def heap_inv_def h' NewClient_def)
  moreover have "run_inv h' (hb_run h')" using run_inv_mono [OF ws_inv_run [OF inv], of h'] op(2) by (simp add: h')
  moreover have "sub_inv h' (hb_sub h')" using sub_inv_mono [OF ws_inv_sub [OF inv], of h'] by (simp add: h')
  ultimately show ?thesis using inv by (simp add: ws_inv_def h')
qed

text \<open>The steps of \<open>Run\<close>.\<close>

lemma recv_register_inv:
  assumes inv: "ws_inv h" and "recv_register c h = Some h'"
  shows "ws_inv h' \<and> hb_panic h' = hb_panic h"
proof -
  from assms(2) obtain x where x: "hb_heap h c = Some x" "wc_reader x = RRegistering" and
    h': "h' = put_client c (x\<lparr>wc_reader := RRegistered\<rparr>) (h\<lparr>hb_run := RunRegistering c\<rparr>)"
    by (auto simp: recv_register_def split: option.splits if_splits)
  have "\<not> wc_closed x" using inv x by (auto simp: ws_inv_def heap_inv_def)
  then have "received h' c" by (simp add: received_def h')
  moreover have "sub_inv h' (hb_sub h')" using sub_inv_mono [OF ws_inv_sub [OF inv], of h'] by (simp add: h')
  ultimately have "ws_inv h'"
    using ws_inv_length [OF inv x(1)] by (intro ws_inv_put [OF inv x(1)]) (simp_all add: h')
  then show ?thesis by (simp add: h')
qed

lemma run_insert_inv:
  assumes inv: "ws_inv h" and "run_insert h = Some h'"
  shows "ws_inv h' \<and> hb_panic h' = hb_panic h"
proof -
  from assms(2) obtain c where c: "hb_run h = RunRegistering c" "unlocked h"
    and h': "h' = h\<lparr>hb_clients := List.insert c (hb_clients h), hb_run := RunWaiting\<rparr>"
    by (auto simp: run_insert_def split: run_pc.splits if_splits)
  have "received h c" using ws_inv_run [OF inv] c by simp
  then show ?thesis
    using inv c(2)
    by (auto simp: h' ws_inv_def clients_inv_def heap_inv_def is_open_def received_def unlocked_def intro: sub_inv_unlocked [of h])
qed

lemma recv_unregister_inv:
  assumes inv: "ws_inv h" and "recv_unregister c h = Some h'"
  shows "ws_inv h' \<and> hb_panic h' = hb_panic h"
proof -
  from assms(2) obtain x where x: "hb_heap h c = Some x" "wc_reader x = ROffering"
    and h': "h' = put_client c (x\<lparr>wc_reader := RDone\<rparr>) (h\<lparr>hb_run := RunRemoving c\<rparr>)"
    by (auto simp: recv_unregister_def split: option.splits if_splits)
  have "sub_inv h' (hb_sub h')" using sub_inv_mono [OF ws_inv_sub [OF inv], of h'] by (simp add: h')
  then have "ws_inv h'"
    using ws_inv_length [OF inv x(1)] by (intro ws_inv_put [OF inv x(1)]) (simp_all add: h')
  then show ?thesis by (simp add: h')
qed

lemma ws_inv_drop_pc:
  assumes "ws_inv h" and "\<And>h'. run_inv h' pc" and "unlocked h" and "h' = drop_client c (h\<lparr>hb_run := pc\<rparr>)"
  shows "ws_inv h' \<and> hb_panic h' = hb_panic h"
  using ws_inv_drop [OF assms(1,2,2,3)] assms(4) by simp

lemma run_inv_after [simp]: "run_inv h (run_after full)"
  by (simp add: run_after_def)

lemma sub_inv_after [simp]: "sub_inv h (sub_after full rest)"
  by (simp add: sub_after_def)

lemma run_steps_inv:
  assumes inv: "ws_inv h"
  shows "recv_unregister_sub h = Some h' \<Longrightarrow> ws_inv h' \<and> hb_panic h' = hb_panic h"
    and "run_remove h = Some h' \<Longrightarrow> ws_inv h' \<and> hb_panic h' = hb_panic h"
    and "broadcast_message m h = Some h' \<Longrightarrow> ws_inv h' \<and> hb_panic h' = hb_panic h"
    and "run_receive h = Some h' \<Longrightarrow> ws_inv h' \<and> hb_panic h' = hb_panic h"
    and "run_send_done h = Some h' \<Longrightarrow> ws_inv h' \<and> hb_panic h' = hb_panic h"
    and "run_drop h = Some h' \<Longrightarrow> ws_inv h' \<and> hb_panic h' = hb_panic h"
proof -
  note pcs = ws_inv_pcs [OF inv] ws_inv_run [OF inv] ws_inv_sub [OF inv]
  have cap: "length (hb_broadcast h) \<le> broadcast_capacity" using inv by (simp add: ws_inv_def)
  show "recv_unregister_sub h = Some h' \<Longrightarrow> ws_inv h' \<and> hb_panic h' = hb_panic h"
    using cap by (auto simp: recv_unregister_sub_def split: sub_pc.splits list.splits if_splits intro!: pcs)
  show "run_remove h = Some h' \<Longrightarrow> ws_inv h' \<and> hb_panic h' = hb_panic h"
    using ws_inv_drop_pc [OF inv, of RunWaiting] by (auto simp: run_remove_def split: run_pc.splits if_splits)
  show "broadcast_message m h = Some h' \<Longrightarrow> ws_inv h' \<and> hb_panic h' = hb_panic h"
    using cap by (auto simp: broadcast_message_def split: if_splits intro!: pcs)
  show "run_receive h = Some h' \<Longrightarrow> ws_inv h' \<and> hb_panic h' = hb_panic h"
    using cap by (auto simp: run_receive_def split: run_pc.splits list.splits intro!: pcs)
  show "run_send_done h = Some h' \<Longrightarrow> ws_inv h' \<and> hb_panic h' = hb_panic h"
    using cap by (auto simp: run_send_done_def split: run_pc.splits list.splits intro!: pcs)
  show "run_drop h = Some h' \<Longrightarrow> ws_inv h' \<and> hb_panic h' = hb_panic h"
  proof -
    assume "run_drop h = Some h'"
    then obtain c cs where "unlocked h" "h' = drop_client c (h\<lparr>hb_run := run_after cs\<rparr>)"
      by (auto simp: run_drop_def split: run_pc.splits list.splits if_splits)
    then show ?thesis by (rule ws_inv_drop_pc [OF inv run_inv_after])
  qed
qed

text \<open>A send to a client of the table: it is open, so the send does not panic.\<close>

lemma send_to_registered:
  assumes inv: "ws_inv h" and "c \<in> set (hb_clients h)"
  obtains x where "hb_heap h c = Some x" "try_send m x = BufferFull"
    | x where "hb_heap h c = Some x" "try_send m x = Sent (x\<lparr>wc_send := wc_send x @ [m]\<rparr>)"
      "length (wc_send x) < send_capacity" "wc_reader x \<noteq> RRegistering"
proof -
  from ws_inv_open [OF assms] obtain x where x: "hb_heap h c = Some x" "\<not> wc_closed x" by blast
  show thesis
  proof (cases "length (wc_send x) < send_capacity")
    case True
    then show thesis using that(2) [OF x(1)] ws_inv_registered [OF assms x(1)] x(2) by (simp add: try_send_def)
  next
    case False
    then show thesis using that(1) [OF x(1)] x(2) by (simp add: try_send_def)
  qed
qed

lemma run_send_inv:
  assumes inv: "ws_inv h" and "run_send c h = Some h'"
  shows "ws_inv h' \<and> hb_panic h' = hb_panic h"
proof -
  from assms(2) obtain m todo full where pc: "hb_run h = RunSending m todo full" "c \<in> set todo"
    by (auto simp: run_send_def split: run_pc.splits if_splits)
  have todo: "set todo \<subseteq> set (hb_clients h)" using ws_inv_run [OF inv] pc by simp
  then have c: "c \<in> set (hb_clients h)" using pc(2) by blast
  have cap: "length (hb_broadcast h) \<le> broadcast_capacity" using inv by (simp add: ws_inv_def)
  from inv c show ?thesis
  proof (cases rule: send_to_registered [where m = m])
    case (1 x)
    with assms(2) pc have h': "h' = h\<lparr>hb_run := RunSending m (removeAll c todo) (full @ [c])\<rparr>"
      by (simp add: run_send_def)
    then show ?thesis using todo cap ws_inv_sub [OF inv] by (auto intro!: ws_inv_pcs [OF inv])
  next
    case (2 x)
    with assms(2) pc have h': "h' = put_client c (x\<lparr>wc_send := wc_send x @ [m]\<rparr>)
        (h\<lparr>hb_run := RunSending m (removeAll c todo) full\<rparr>)"
      by (simp add: run_send_def)
    have "sub_inv h' (hb_sub h')" using sub_inv_mono [OF ws_inv_sub [OF inv], of h'] by (simp add: h')
    moreover have "run_inv h' (hb_run h')" using todo by (auto simp: h')
    ultimately have "ws_inv h'"
      using 2 by (intro ws_inv_put [OF inv 2(1), where x' = "x\<lparr>wc_send := wc_send x @ [m]\<rparr>"]) (simp_all add: h')
    then show ?thesis by (simp add: h')
  qed
qed

text \<open>The steps of the subscriber.\<close>

lemma sub_put_inv:
  assumes inv: "ws_inv h" and "sub_put h = Some h'"
  shows "ws_inv h' \<and> hb_panic h' = hb_panic h"
proof -
  from assms(2) obtain ch m todo c full rest where pc: "hb_sub h = SubSending ch m todo (Some c) full rest"
    by (auto simp: sub_put_def split: sub_pc.splits option.splits)
  have todo: "set todo \<subseteq> set (hb_clients h)" and c: "c \<in> set (hb_clients h)" using ws_inv_sub [OF inv] pc by simp_all
  have cap: "length (hb_broadcast h) \<le> broadcast_capacity" using inv by (simp add: ws_inv_def)
  from inv c show ?thesis
  proof (cases rule: send_to_registered [where m = m])
    case (1 x)
    with assms(2) pc have h': "h' = h\<lparr>hb_sub := SubSending ch m todo None (full @ [c]) rest\<rparr>"
      by (simp add: sub_put_def)
    then show ?thesis using todo cap ws_inv_run [OF inv] by (auto intro!: ws_inv_pcs [OF inv])
  next
    case (2 x)
    let ?x = "x\<lparr>wc_send := wc_send x @ [m]\<rparr>"
    from 2 assms(2) pc have h': "h' = put_client c ?x (h\<lparr>hb_sub := SubSending ch m todo None full rest,
        hb_sent := (hb_sent h)(ch := hb_sent h ch + 1)\<rparr>)"
      by (simp add: sub_put_def)
    have "received h d \<Longrightarrow> received h' d" for d using 2 by (auto simp: received_def h')
    then have "run_inv h' (hb_run h')" using run_inv_mono [OF ws_inv_run [OF inv], of h'] by (simp add: h')
    moreover have "sub_inv h' (hb_sub h')" using todo by (simp add: h')
    ultimately have "ws_inv h'"
      using 2 by (intro ws_inv_put [OF inv 2(1), where x' = ?x]) (simp_all add: h')
    then show ?thesis by (simp add: h')
  qed
qed

lemma sub_steps_inv:
  assumes inv: "ws_inv h"
  shows "sub_receive channel payload h = Some h' \<Longrightarrow> ws_inv h' \<and> hb_panic h' = hb_panic h"
    and "sub_lock h = Some h' \<Longrightarrow> ws_inv h' \<and> hb_panic h' = hb_panic h"
    and "sub_pick c h = Some h' \<Longrightarrow> ws_inv h' \<and> hb_panic h' = hb_panic h"
    and "sub_unlock h = Some h' \<Longrightarrow> ws_inv h' \<and> hb_panic h' = hb_panic h"
proof -
  note pcs = ws_inv_pcs [OF inv] ws_inv_run [OF inv]
  have cap: "length (hb_broadcast h) \<le> broadcast_capacity" using inv by (simp add: ws_inv_def)
  show "sub_receive channel payload h = Some h' \<Longrightarrow> ws_inv h' \<and> hb_panic h' = hb_panic h"
    using cap by (auto simp: sub_receive_def split: sub_pc.splits list.splits intro!: pcs)
  show "sub_lock h = Some h' \<Longrightarrow> ws_inv h' \<and> hb_panic h' = hb_panic h"
    using cap by (auto simp: sub_lock_def split: sub_pc.splits list.splits intro!: pcs)
  show "sub_unlock h = Some h' \<Longrightarrow> ws_inv h' \<and> hb_panic h' = hb_panic h"
    using cap by (auto simp: sub_unlock_def split: sub_pc.splits list.splits option.splits intro!: pcs)
  show "sub_pick c h = Some h' \<Longrightarrow> ws_inv h' \<and> hb_panic h' = hb_panic h"
  proof -
    assume step: "sub_pick c h = Some h'"
    then obtain ch m todo full rest where pc: "hb_sub h = SubSending ch m todo None full rest" "c \<in> set todo"
      by (auto simp: sub_pick_def split: sub_pc.splits option.splits if_splits)
    have todo: "set todo \<subseteq> set (hb_clients h)" using ws_inv_sub [OF inv] pc by simp
    with pc(2) ws_inv_open [OF inv, of c] obtain x where x: "hb_heap h c = Some x" by blast
    with step pc have "h' = h\<lparr>hb_sub := SubSending ch m (removeAll c todo) (if HasChannel x ch then Some c else None) full rest\<rparr>"
      by (simp add: sub_pick_def)
    then show ?thesis using todo pc(2) cap by (auto intro!: pcs)
  qed
qed

lemma ws_event_step_inv:
  assumes "ws_inv h" and "ws_event_step e h = Some h'"
  shows "ws_inv h' \<and> (hb_panic h' = hb_panic h \<or> (\<exists>c. e = ReadAct c))"
proof -
  note inv = assms(1)
  show ?thesis
  proof (cases e)
    case (ReadAct c)
    then show ?thesis using client_steps_inv(7) [OF inv, of c h'] assms(2) by simp
  next
    case (Connect c i)
    then show ?thesis using connect_inv [OF inv, of c i h'] assms(2) by simp
  next
    case (RecvRegister c)
    then show ?thesis using recv_register_inv [OF inv, of c h'] assms(2) by simp
  next
    case (RecvUnregister c)
    then show ?thesis using recv_unregister_inv [OF inv, of c h'] assms(2) by simp
  next
    case (RunSend c)
    then show ?thesis using run_send_inv [OF inv, of c h'] assms(2) by simp
  next
    case RunInsert
    then show ?thesis using run_insert_inv [OF inv, of h'] assms(2) by simp
  next
    case SubPut
    then show ?thesis using sub_put_inv [OF inv, of h'] assms(2) by simp
  qed (use assms(2) in \<open>simp_all add: client_steps_inv(1-6) [OF inv] run_steps_inv [OF inv] sub_steps_inv [OF inv]\<close>)
qed

interpretation hub: step_invariant ws_step NewHub ws_inv
proof unfold_locales
  show "ws_inv NewHub" by (simp add: NewHub_def ws_inv_def clients_inv_def heap_inv_def broadcast_capacity_def)
  show "ws_inv h \<Longrightarrow> ws_step e h = Some h' \<Longrightarrow> ws_inv h'" for h e h'
    using ws_event_step_inv [of h e h'] by (auto simp: ws_step_def split: if_splits)
qed

lemmas ws_reachable_inv = hub.inv_reachable

subsection \<open>The only panic\<close>

lemma read_act_panics:
  assumes "read_act c h = Some h'" and "hb_panic h'" and "\<not> hb_panic h"
  obtains x m as where "hb_heap h c = Some x" "wc_closed x" "wc_reader x = RReading (ASendJSON m # as)"
proof -
  from assms obtain x a as where x: "hb_heap h c = Some x" "wc_reader x = RReading (a # as)" "perform a x = None"
    by (auto simp: read_act_def split: option.splits reader_pc.splits list.splits)
  then have "wc_closed x" "\<exists>m. a = ASendJSON m" using perform_open [of x a] by (cases a; auto)+
  with x that show thesis by blast
qed

lemma ws_step_not_panicked: "ws_step e h = Some h' \<Longrightarrow> \<not> hb_panic h \<and> ws_event_step e h = Some h'"
  by (simp add: ws_step_def split: if_splits)

lemma hub_safe:
  assumes "ws_reachable h"
  shows "distinct (hb_clients h)"
    and "\<forall>c \<in> set (hb_clients h). \<exists>x. hb_heap h c = Some x \<and> \<not> wc_closed x"
    and "\<forall>c x. hb_heap h c = Some x \<longrightarrow> length (wc_send x) \<le> send_capacity"
    and "length (hb_broadcast h) \<le> broadcast_capacity"
    and "\<forall>e h'. ws_step e h = Some h' \<and> hb_panic h' \<longrightarrow>
           (\<exists>c x m as. e = ReadAct c \<and> c \<notin> set (hb_clients h) \<and> hb_heap h c = Some x \<and> wc_closed x \<and>
              wc_reader x = RReading (ASendJSON m # as))"
proof -
  note inv = ws_reachable_inv [OF assms]
  show "distinct (hb_clients h)" using inv by (simp add: ws_inv_def clients_inv_def)
  show "\<forall>c \<in> set (hb_clients h). \<exists>x. hb_heap h c = Some x \<and> \<not> wc_closed x" using ws_inv_open [OF inv] by blast
  show "\<forall>c x. hb_heap h c = Some x \<longrightarrow> length (wc_send x) \<le> send_capacity" using ws_inv_length [OF inv] by blast
  show "length (hb_broadcast h) \<le> broadcast_capacity" using inv by (simp add: ws_inv_def)
  show "\<forall>e h'. ws_step e h = Some h' \<and> hb_panic h' \<longrightarrow>
           (\<exists>c x m as. e = ReadAct c \<and> c \<notin> set (hb_clients h) \<and> hb_heap h c = Some x \<and> wc_closed x \<and>
              wc_reader x = RReading (ASendJSON m # as))"
  proof (intro allI impI)
    fix e h' assume "ws_step e h = Some h' \<and> hb_panic h'"
    then have step: "\<not> hb_panic h" "ws_event_step e h = Some h'" "hb_panic h'" using ws_step_not_panicked by blast+
    then obtain c where e: "e = ReadAct c" using ws_event_step_inv [OF inv] by blast
    with step have "read_act c h = Some h'" by simp
    then obtain x m as where x: "hb_heap h c = Some x" "wc_closed x" "wc_reader x = RReading (ASendJSON m # as)"
      using step by (blast elim: read_act_panics)
    moreover have "c \<notin> set (hb_clients h)" using ws_inv_open [OF inv, of c] x by auto
    ultimately show "\<exists>c x m as. e = ReadAct c \<and> c \<notin> set (hb_clients h) \<and> hb_heap h c = Some x \<and> wc_closed x \<and>
              wc_reader x = RReading (ASendJSON m # as)" using e by blast
  qed
qed

text \<open>
  C3: in every reachable state of the hub and under every interleaving of its goroutines, no
  client is registered twice, the send channel of every registered client is open, no send
  buffer and no broadcast buffer holds more than its capacity, and the only step that can end
  in a panic is the reader of a connection that answers (\<open>sendJSON\<close>) after the hub has dropped
  its client: neither \<open>Run\<close>, nor the subscriber, nor the writers ever send on a closed channel
  or close one twice.
\<close>

theorem hub_safety:
  assumes "ws_reachable h"
  shows "(distinct (hb_clients h)) \<and>
    (\<forall>c \<in> set (hb_clients h). \<exists>x. hb_heap h c = Some x \<and> \<not> wc_closed x) \<and>
    (\<forall>c x. hb_heap h c = Some x \<longrightarrow> length (wc_send x) \<le> send_capacity) \<and>
    (length (hb_broadcast h) \<le> broadcast_capacity) \<and>
    (\<forall>e h'. ws_step e h = Some h' \<and> hb_panic h' \<longrightarrow>
           (\<exists>c x m as. e = ReadAct c \<and> c \<notin> set (hb_clients h) \<and> hb_heap h c = Some x \<and> wc_closed x \<and>
              wc_reader x = RReading (ASendJSON m # as)))"
  by (intro conjI hub_safe [OF assms])

text \<open>A hub with one registered client whose goroutines run.\<close>

definition one_client_events :: "ws_event list" where
  "one_client_events = [Connect 0 ''a'', RecvRegister 0, RunInsert, Started 0]"

definition one_client :: "json list \<Rightarrow> Hub" where
  "one_client ms = NewHub\<lparr>hb_clients := [0], hb_active := 1,
     hb_heap := [0 \<mapsto> (NewClient ''a'')\<lparr>wc_reader := RReading [], wc_writer := WRunning, wc_send := ms\<rparr>]\<rparr>"

lemmas ws_eval = ws_step_def connect_def recv_register_def run_insert_def started_def read_message_def read_act_def
  read_fail_def recv_unregister_def recv_unregister_sub_def run_remove_def write_message_def broadcast_message_def
  run_receive_def run_send_def run_send_done_def run_drop_def drop_client_def run_after_def sub_after_def
  sub_receive_def sub_lock_def sub_pick_def sub_put_def sub_unlock_def
  put_client_def NewClient_def NewHub_def unlocked_def broadcast_capacity_def

lemma one_client_run: "run_events one_client_events NewHub = Some (one_client [])"
  by (simp add: one_client_events_def one_client_def ws_eval)

lemma one_client_reachable: "ws_reachable (one_client [])"
  by (rule reachable_run [OF reachable_start one_client_run])

theorem hub_safety_witness:
  "ws_reachable (one_client []) \<and> \<not> wc_closed (the (hb_heap (one_client []) 0)) \<and>
   (\<exists>h'. ws_step (Broadcast pong) (one_client []) = Some h' \<and> \<not> hb_panic h')"
proof -
  have mem: "0 \<in> set (hb_clients (one_client []))" by (simp add: one_client_def)
  obtain h' where h': "ws_step (Broadcast pong) (one_client []) = Some h'" by (simp add: one_client_def ws_eval)
  have "\<not> hb_panic h'" using hub_safety [OF one_client_reachable] h' by blast
  moreover have "\<not> wc_closed (the (hb_heap (one_client []) 0))" using hub_safety [OF one_client_reachable] mem by fastforce
  ultimately show ?thesis using h' one_client_reachable by blast
qed

subsection \<open>Slow clients that the hub drops\<close>

definition ping_text :: json_text where
  "ping_text = Some (JObj [(''action'', JStr ''ping'')])"

lemma handle_ping: "client_handleMessage ping_text = [ASendJSON pong]"
  by (simp add: client_handleMessage_def ping_text_def unmarshal_def dec_client_message_def field_for_def fld_def)

lemma run_drop_registered:
  assumes "hb_run h = RunDropping [c]" and "unlocked h" and "\<not> hb_panic h" and "c \<in> set (hb_clients h)"
    and "hb_heap h c = Some x" and "\<not> wc_closed x"
  shows "ws_step RunDrop h = Some (put_client c (x\<lparr>wc_closed := True\<rparr>)
    (h\<lparr>hb_run := RunWaiting, hb_clients := removeAll c (hb_clients h), hb_active := hb_active h - 1\<rparr>))"
  using assms by (simp add: ws_step_def run_drop_def drop_client_def run_after_def)

lemma dropped_client_runs:
  assumes "ws_reachable h" and "\<not> hb_panic h" and "hb_run h = RunDropping [c]" and "unlocked h"
    and "c \<in> set (hb_clients h)" and "hb_heap h c = Some x" and "wc_reader x = RReading []"
  shows "\<exists>h'. run_events [RunDrop, Read c ping_text, ReadAct c] h = Some h' \<and> hb_panic h'"
    and "\<exists>h'. run_events [RunDrop, ReadFail c, RecvUnregister c, RunRemove] h = Some h' \<and> \<not> hb_panic h' \<and>
           hb_active h' = hb_active h - 2"
proof -
  have "\<not> wc_closed x" using ws_inv_open [OF ws_reachable_inv [OF assms(1)] assms(5)] assms(6) by simp
  note drop = run_drop_registered [OF assms(3,4,2,5,6) this]
  show "\<exists>h'. run_events [RunDrop, Read c ping_text, ReadAct c] h = Some h' \<and> hb_panic h'"
    using assms(2,7) by (simp add: drop) (simp add: ws_step_def read_message_def read_act_def handle_ping try_send_def)
  show "\<exists>h'. run_events [RunDrop, ReadFail c, RecvUnregister c, RunRemove] h = Some h' \<and> \<not> hb_panic h' \<and>
           hb_active h' = hb_active h - 2"
    using assms(2,4,7)
    by (simp add: drop)
      (simp add: ws_step_def read_fail_def recv_unregister_def run_remove_def unlocked_def drop_client_def put_client_def)
qed

text \<open>
  C34: when a broadcast finds the buffer of a client full, \<open>Run\<close> closes its send channel although
  the reader of the connection still runs. The client's next request that is answered (here a
  ping) then panics the process; and if its connection fails instead, the reader unregisters it
  a second time and the gauge of active connections is decremented twice for one connection.
\<close>

theorem dropped_slow_client:
  assumes "ws_reachable h" and "\<not> hb_panic h" and "hb_run h = RunDropping [c]" and "unlocked h"
    and "c \<in> set (hb_clients h)" and "hb_heap h c = Some x" and "wc_reader x = RReading []"
  shows "(\<exists>h'. run_events [RunDrop, Read c ping_text, ReadAct c] h = Some h' \<and> hb_panic h') \<and>
    (\<exists>h'. run_events [RunDrop, ReadFail c, RecvUnregister c, RunRemove] h = Some h' \<and> \<not> hb_panic h' \<and>
           hb_active h' = hb_active h - 2)"
  by (intro conjI dropped_client_runs [OF assms])

text \<open>Such a state is reached: the browser sends 256 pings and reads no answer, and a broadcast follows.\<close>

lemma one_client_ping:
  "length ms < send_capacity \<Longrightarrow> run_events [Read 0 ping_text, ReadAct 0] (one_client ms) = Some (one_client (ms @ [pong]))"
  by (simp add: ws_step_def one_client_def read_message_def read_act_def handle_ping try_send_def put_client_def NewHub_def
      NewClient_def)

lemma one_client_pings: "n \<le> send_capacity \<Longrightarrow> ws_reachable (one_client (replicate n pong))"
proof (induction n)
  case 0
  show ?case using one_client_reachable by simp
next
  case (Suc n)
  then show ?case
    using reachable_run [OF Suc.IH one_client_ping] by (simp add: replicate_append_same)
qed

definition one_client_full :: Hub where
  "one_client_full = (one_client (replicate send_capacity pong))\<lparr>hb_run := RunDropping [0]\<rparr>"

lemma one_client_full_reachable: "ws_reachable one_client_full"
proof (rule reachable_run [OF one_client_pings [OF order_refl]])
  show "run_events [Broadcast pong, RunReceive, RunSend 0, RunSendDone] (one_client (replicate send_capacity pong)) =
      Some one_client_full"
    by (simp add: one_client_full_def one_client_def try_send_def ws_eval)
qed

theorem dropped_slow_client_witness:
  "ws_reachable one_client_full \<and> (\<exists>h'. run_events [RunDrop, Read 0 ping_text, ReadAct 0] one_client_full = Some h' \<and> hb_panic h') \<and>
   (\<exists>h'. run_events [RunDrop, ReadFail 0, RecvUnregister 0, RunRemove] one_client_full = Some h' \<and> hb_active h' = - 1)"
proof -
  have *: "\<not> hb_panic one_client_full" "hb_run one_client_full = RunDropping [0]" "unlocked one_client_full"
    "0 \<in> set (hb_clients one_client_full)" "hb_active one_client_full = 1"
    "hb_heap one_client_full 0 = Some ((NewClient ''a'')\<lparr>wc_reader := RReading [], wc_writer := WRunning,
       wc_send := replicate send_capacity pong\<rparr>)"
    by (simp_all add: one_client_full_def one_client_def NewHub_def unlocked_def)
  show ?thesis
    using dropped_slow_client [OF one_client_full_reachable *(1-4) *(6)] one_client_full_reachable *(5) by fastforce
qed

end
