(* ===== verification/WS_Delivery.thy ===== *)
theory WS_Delivery
  imports WS_Safety
begin

text \<open>
  Delivery by the WebSocket hub: \<open>BroadcastToChannel\<close>, the loop over the clients with its
  sends, refines its specification: exactly the subscribers with room receive the message,
  once each, and the full ones are handed over for removal.
\<close>

subsection \<open>BroadcastToChannel refines its specification\<close>

type_synonym heap = "nat \<Rightarrow> WsClient option"

definition has_room :: "Hub \<Rightarrow> nat \<Rightarrow> bool" where
  "has_room h c \<longleftrightarrow> (case hb_heap h c of None \<Rightarrow> False | Some x \<Rightarrow> length (wc_send x) < send_capacity)"

definition delivers :: "Hub \<Rightarrow> string \<Rightarrow> nat \<Rightarrow> bool" where
  "delivers h ch c \<longleftrightarrow> subscribed h ch c \<and> has_room h c"

definition overflows :: "Hub \<Rightarrow> string \<Rightarrow> nat \<Rightarrow> bool" where
  "overflows h ch c \<longleftrightarrow> subscribed h ch c \<and> \<not> has_room h c"

definition push_message :: "json \<Rightarrow> WsClient \<Rightarrow> WsClient" where
  "push_message m x = x\<lparr>wc_send := wc_send x @ [m]\<rparr>"

definition delivered_heap :: "string \<Rightarrow> json \<Rightarrow> nat list \<Rightarrow> Hub \<Rightarrow> heap" where
  "delivered_heap ch m cs h = (\<lambda>c. if c \<in> set cs \<and> delivers h ch c then map_option (push_message m) (hb_heap h c) else hb_heap h c)"

definition visited :: "string \<Rightarrow> json \<Rightarrow> nat list \<Rightarrow> sub_pc \<Rightarrow> Hub \<Rightarrow> Hub" where
  "visited ch m cs pc h = h\<lparr>hb_heap := delivered_heap ch m cs h, hb_sub := pc,
     hb_sent := (hb_sent h)(ch := hb_sent h ch + int (length (filter (delivers h ch) cs)))\<rparr>"

text \<open>
  What a broadcast to a channel does: every registered subscriber with room gets the message,
  every other subscriber is handed over for removal, nobody else is touched.
\<close>

definition broadcast_spec :: "string \<Rightarrow> json \<Rightarrow> nat list \<Rightarrow> broadcast list \<Rightarrow> Hub \<Rightarrow> Hub" where
  "broadcast_spec ch m order rest h = visited ch m order (sub_after (filter (overflows h ch) order) rest) h"

definition visit :: "Hub \<Rightarrow> string \<Rightarrow> nat \<Rightarrow> ws_event list" where
  "visit h ch c = SubPick c # (if subscribed h ch c then [SubPut] else [])"

definition broadcast_events :: "Hub \<Rightarrow> string \<Rightarrow> nat list \<Rightarrow> ws_event list" where
  "broadcast_events h ch order = SubLock # concat (map (visit h ch) order) @ [SubUnlock]"

lemma visited_sel [simp]:
  "hb_sub (visited ch m cs pc h) = pc" "hb_panic (visited ch m cs pc h) = hb_panic h"
  "hb_clients (visited ch m cs pc h) = hb_clients h" "hb_heap (visited ch m cs pc h) = delivered_heap ch m cs h"
  by (simp_all add: visited_def)

lemma visited_other:
  assumes "d \<noteq> c"
  shows "hb_heap (visited ch m [c] pc h) d = hb_heap h d" and "subscribed (visited ch m [c] pc h) ch d = subscribed h ch d"
    and "has_room (visited ch m [c] pc h) d = has_room h d"
  using assms by (simp_all add: delivered_heap_def subscribed_def has_room_def)

lemma visit_one:
  assumes "hb_sub h = SubSending ch m t None full rest" and "c \<in> set t" and "hb_heap h c = Some x" and "\<not> wc_closed x"
    and "\<not> hb_panic h"
  shows "run_events (visit h ch c) h =
    Some (visited ch m [c] (SubSending ch m (removeAll c t) None (full @ filter (overflows h ch) [c]) rest) h)"
proof (cases "HasChannel x ch")
  case True
  with assms show ?thesis
    by (cases "length (wc_send x) < send_capacity")
      (auto simp: visit_def subscribed_def ws_step_def sub_pick_def sub_put_def try_send_def visited_def
        delivered_heap_def delivers_def overflows_def has_room_def push_message_def put_client_def fun_eq_iff intro!: Hub.equality)
next
  case False
  with assms show ?thesis
    by (auto simp: visit_def subscribed_def ws_step_def sub_pick_def visited_def delivered_heap_def delivers_def
        overflows_def has_room_def fun_eq_iff intro!: Hub.equality)
qed

lemma visited_Cons:
  assumes "c \<notin> set cs"
  shows "visited ch m cs pc (visited ch m [c] pc' h) = visited ch m (c # cs) pc h"
proof -
  let ?h = "visited ch m [c] pc' h"
  have other: "delivers ?h ch d = delivers h ch d" "hb_heap ?h d = hb_heap h d" if "d \<in> set cs" for d
    using visited_other [of d c ch m pc' h] that assms by (auto simp: delivers_def)
  have filt: "filter (delivers ?h ch) cs = filter (delivers h ch) cs" using other by (simp cong: filter_cong)
  have "delivered_heap ch m cs ?h = delivered_heap ch m (c # cs) h"
    using other assms by (auto simp: delivered_heap_def fun_eq_iff)
  then show ?thesis using filt by (auto simp: visited_def fun_eq_iff)
qed

lemma visit_all:
  assumes "hb_sub h = SubSending ch m t None full rest" and "set t = set order" and "distinct order"
    and "\<forall>c \<in> set order. is_open h c" and "\<not> hb_panic h"
  shows "run_events (concat (map (visit h ch) order)) h =
    Some (visited ch m order (SubSending ch m [] None (full @ filter (overflows h ch) order) rest) h)"
  using assms
proof (induction order arbitrary: h t full)
  case Nil
  then show ?case by (auto simp: visited_def delivered_heap_def intro!: Hub.equality)
next
  case (Cons c order)
  from Cons.prems obtain x where x: "hb_heap h c = Some x" "\<not> wc_closed x" by (auto simp: is_open_def)
  let ?full = "full @ filter (overflows h ch) [c]"
  let ?h = "visited ch m [c] (SubSending ch m (removeAll c t) None ?full rest) h"
  have one: "run_events (visit h ch c) h = Some ?h" using visit_one [OF Cons.prems(1) _ x] Cons.prems(2,5) by simp
  have other: "hb_heap ?h d = hb_heap h d" "subscribed ?h ch d = subscribed h ch d" "has_room ?h d = has_room h d"
    if "d \<in> set order" for d
  proof -
    have "d \<noteq> c" using that Cons.prems(3) by auto
    then show "hb_heap ?h d = hb_heap h d" "subscribed ?h ch d = subscribed h ch d" "has_room ?h d = has_room h d"
      by (rule visited_other)+
  qed
  have opn: "\<forall>d \<in> set order. is_open ?h d" using Cons.prems(4) other(1) by (simp add: is_open_def)
  have rest: "run_events (concat (map (visit ?h ch) order)) ?h =
      Some (visited ch m order (SubSending ch m [] None (?full @ filter (overflows ?h ch) order) rest) ?h)"
    by (rule Cons.IH [where t = "removeAll c t"]) (use Cons.prems opn in auto)
  have same: "map (visit ?h ch) order = map (visit h ch) order" "filter (overflows ?h ch) order = filter (overflows h ch) order"
    using other by (simp_all add: visit_def overflows_def cong: filter_cong)
  show ?case
    using one rest Cons.prems(3) unfolding same by (simp add: run_steps_append visited_Cons)
qed

text \<open>
  C12: \<open>BroadcastToChannel\<close> implements its specification: started in any reachable state and
  visiting the registered clients in any order, it gives the message to exactly the registered
  subscribers of the channel whose buffer has room, counts exactly those as sent, hands exactly
  the subscribers with a full buffer over for removal, and changes no other client.
\<close>

theorem BroadcastToChannel_refines_spec:
  assumes "ws_reachable h" and "\<not> hb_panic h" and "hb_sub h = SubTodo ((ch, m) # rest)"
    and "distinct order" and "set order = set (hb_clients h)"
  shows "run_events (broadcast_events h ch order) h = Some (broadcast_spec ch m order rest h)"
proof -
  note inv = ws_reachable_inv [OF assms(1)]
  let ?h = "h\<lparr>hb_sub := SubSending ch m (hb_clients h) None [] rest\<rparr>"
  have lock: "ws_step SubLock h = Some ?h" using assms(2,3) by (simp add: ws_step_def sub_lock_def)
  have same: "subscribed ?h = subscribed h" "has_room ?h = has_room h" "hb_heap ?h = hb_heap h" "is_open ?h = is_open h"
    by (simp_all add: subscribed_def has_room_def is_open_def fun_eq_iff)
  have flags: "visit ?h = visit h" "overflows ?h = overflows h" "delivers ?h = delivers h"
    using same by (simp_all add: visit_def overflows_def delivers_def fun_eq_iff)
  have "run_events (concat (map (visit ?h ch) order)) ?h =
      Some (visited ch m order (SubSending ch m [] None ([] @ filter (overflows ?h ch) order) rest) ?h)"
    by (rule visit_all [where t = "hb_clients h"])
      (use assms(2,4,5) inv same(4) in \<open>simp_all add: ws_inv_def clients_inv_def\<close>)
  moreover have "delivered_heap ch m order ?h = delivered_heap ch m order h"
    by (simp add: delivered_heap_def flags fun_eq_iff)
  then have "visited ch m order pc ?h = visited ch m order pc h" for pc
    by (simp add: visited_def flags)
  ultimately have "run_events (concat (map (visit h ch) order)) ?h =
      Some (visited ch m order (SubSending ch m [] None (filter (overflows h ch) order) rest) h)"
    by (simp only: flags append_Nil)
  moreover have "ws_step SubUnlock (visited ch m order (SubSending ch m [] None full rest) h) =
      Some (visited ch m order (sub_after full rest) h)" for full
    using assms(2) by (simp add: ws_step_def sub_unlock_def) (simp add: visited_def)
  ultimately show ?thesis
    by (simp add: broadcast_events_def run_steps_append lock broadcast_spec_def)
qed


text \<open>One subscriber of the inventory channel, and an event for it.\<close>

definition subscribe_text :: json_text where
  "subscribe_text = Some (JObj [(''action'', JStr ''subscribe''), (''channel'', JStr ''inventory'')])"

definition stock_text :: json_text where
  "stock_text = Some (JObj [(''event_type'', JStr ''inventory.updated'')])"

definition stock_message :: json where
  "stock_message = JObj [(''type'', JStr ''inventory.updated''), (''payload'', JNull)]"

definition subscriber_client :: WsClient where
  "subscriber_client = (NewClient ''a'')\<lparr>wc_reader := RReading [], wc_writer := WRunning, wc_channels := [''inventory''],
     wc_send := [JObj [(''action'', JStr ''subscribed''), (''channel'', JArr [JStr ''inventory'']), (''type'', JStr ''confirmation'')]]\<rparr>"

definition one_subscriber :: Hub where
  "one_subscriber = NewHub\<lparr>hb_clients := [0], hb_active := 1, hb_sub := SubTodo [(''inventory'', stock_message)],
     hb_heap := [0 \<mapsto> subscriber_client]\<rparr>"

lemma handle_subscribe: "client_handleMessage subscribe_text = [AAddChannel ''inventory'', sendConfirmation ''subscribed'' [''inventory'']]"
  by (simp add: client_handleMessage_def subscribe_text_def unmarshal_def dec_client_message_def fld_def field_for_def)

lemma stock_broadcasts: "event_broadcasts ''inventory.events'' stock_text = [(''inventory'', stock_message)]"
  by (simp add: event_broadcasts_def subscriber_handleMessage_def stock_text_def unmarshal_def dec_EventMessage_def fld_def
      field_for_def handleInventoryEvent_def ws_message_def extractProductID_def extract_id_def stock_message_def)

lemma one_subscriber_reachable: "ws_reachable one_subscriber"
proof (rule reachable_run [OF one_client_reachable])
  show "run_events [Read 0 subscribe_text, ReadAct 0, ReadAct 0, SubReceive ''inventory.events'' stock_text] (one_client []) =
      Some one_subscriber"
    by (simp add: one_subscriber_def subscriber_client_def one_client_def handle_subscribe stock_broadcasts try_send_def
        send_capacity_def AddChannel_def sendConfirmation_def ws_eval)
qed

theorem BroadcastToChannel_refines_spec_witness:
  "ws_reachable one_subscriber \<and>
   run_events [SubLock, SubPick 0, SubPut, SubUnlock] one_subscriber = Some (broadcast_spec ''inventory'' stock_message [0] [] one_subscriber) \<and>
   hb_heap (broadcast_spec ''inventory'' stock_message [0] [] one_subscriber) 0 = Some (push_message stock_message subscriber_client)"
proof -
  have h: "\<not> hb_panic one_subscriber" "hb_sub one_subscriber = SubTodo [(''inventory'', stock_message)]"
    "set [0] = set (hb_clients one_subscriber)" "hb_heap one_subscriber 0 = Some subscriber_client"
    by (simp_all add: one_subscriber_def NewHub_def)
  have sub: "subscribed one_subscriber ''inventory'' 0" "has_room one_subscriber 0"
    using h(4) by (simp_all add: subscribed_def has_room_def HasChannel_def subscriber_client_def send_capacity_def)
  then have "broadcast_events one_subscriber ''inventory'' [0] = [SubLock, SubPick 0, SubPut, SubUnlock]"
    by (simp add: broadcast_events_def visit_def)
  then show ?thesis
    using BroadcastToChannel_refines_spec [OF one_subscriber_reachable h(1,2) _ h(3)] one_subscriber_reachable sub h(4)
    by (simp add: broadcast_spec_def delivered_heap_def delivers_def)
qed

end
