(* ===== verification/WS_Progress.thy ===== *)
theory WS_Progress
  imports WS_Safety
begin

text \<open>
  Progress of the hub: the steps that \<open>Run\<close> and the subscriber take on their own always come to
  an end, and they end with both back at their \<open>select\<close> and with nothing left to broadcast. So
  the channels and locks they share cannot deadlock them, however slow the browsers are.
\<close>

subsection \<open>The steps of Run and of the subscriber\<close>

fun hub_event :: "ws_event \<Rightarrow> bool" where
  "hub_event RunInsert = True"
| "hub_event RunRemove = True"
| "hub_event RunReceive = True"
| "hub_event (RunSend c) = True"
| "hub_event RunSendDone = True"
| "hub_event RunDrop = True"
| "hub_event RecvUnregisterSub = True"
| "hub_event SubLock = True"
| "hub_event (SubPick c) = True"
| "hub_event SubPut = True"
| "hub_event SubUnlock = True"
| "hub_event _ = False"

definition hub_idle :: "Hub \<Rightarrow> bool" where
  "hub_idle h \<longleftrightarrow> hb_run h = RunWaiting \<and> hb_sub h = SubTodo [] \<and> hb_broadcast h = []"

text \<open>The work left: messages not begun, then what the subscriber and what \<open>Run\<close> has in hand.\<close>

fun sub_left :: "sub_pc \<Rightarrow> nat" where
  "sub_left (SubTodo bs) = length bs"
| "sub_left (SubSending ch m todo cur full rest) = length rest"
| "sub_left (SubUnregistering cs rest) = length rest"

definition messages_left :: "Hub \<Rightarrow> nat" where
  "messages_left h = length (hb_broadcast h) + sub_left (hb_sub h)"

fun sub_weight :: "sub_pc \<Rightarrow> nat" where
  "sub_weight (SubTodo bs) = 0"
| "sub_weight (SubSending ch m todo cur full rest) =
     3 * length todo + (if cur = None then 0 else 2) + length full + 1"
| "sub_weight (SubUnregistering cs rest) = length cs"

fun run_weight :: "run_pc \<Rightarrow> nat" where
  "run_weight RunWaiting = 0"
| "run_weight (RunRegistering c) = 1"
| "run_weight (RunRemoving c) = 1"
| "run_weight (RunSending m todo full) = 2 * length todo + length full + 1"
| "run_weight (RunDropping cs) = length cs"

definition work :: "(Hub \<times> Hub) set" where
  "work = measures [messages_left, \<lambda>h. sub_weight (hb_sub h), \<lambda>h. run_weight (hb_run h)]"

lemmas work_simps = work_def messages_left_def

lemma drop_client_sel [simp]:
  "hb_run (drop_client c h) = hb_run h" "hb_sub (drop_client c h) = hb_sub h"
  "hb_broadcast (drop_client c h) = hb_broadcast h"
  by (simp_all add: drop_client_def split: option.splits)

lemma after_weight [simp]:
  "run_weight (run_after full) = length full" "sub_weight (sub_after full rest) = length full"
  "sub_left (sub_after full rest) = length rest"
  by (simp_all add: run_after_def sub_after_def)

lemma removeAll_shorter: "c \<in> set xs \<Longrightarrow> length (removeAll c xs) < length xs"
  by (rule length_removeAll_less)

text \<open>Every step of \<open>Run\<close> or of the subscriber that is not a panic leaves less work.\<close>

lemma run_steps_work:
  "run_insert h = Some h' \<Longrightarrow> (h', h) \<in> work" "run_remove h = Some h' \<Longrightarrow> (h', h) \<in> work"
  "run_receive h = Some h' \<Longrightarrow> (h', h) \<in> work" "run_send_done h = Some h' \<Longrightarrow> (h', h) \<in> work"
  "run_drop h = Some h' \<Longrightarrow> (h', h) \<in> work" "recv_unregister_sub h = Some h' \<Longrightarrow> (h', h) \<in> work"
  by (auto simp: run_insert_def run_remove_def run_receive_def run_send_done_def run_drop_def recv_unregister_sub_def
      work_simps split: run_pc.splits sub_pc.splits list.splits if_splits)

lemma run_send_work: "run_send c h = Some h' \<Longrightarrow> (h', h) \<in> work"
  by (auto simp: run_send_def Let_def work_simps split: run_pc.splits option.splits send_result.splits if_splits
      dest!: removeAll_shorter [of c])

lemma sub_steps_work:
  "sub_lock h = Some h' \<Longrightarrow> (h', h) \<in> work" "sub_put h = Some h' \<Longrightarrow> (h', h) \<in> work"
  "sub_unlock h = Some h' \<Longrightarrow> (h', h) \<in> work"
  by (auto simp: sub_lock_def sub_put_def sub_unlock_def Let_def work_simps
      split: sub_pc.splits list.splits option.splits send_result.splits)

lemma sub_pick_work:
  assumes "ws_inv h" and "sub_pick c h = Some h'"
  shows "(h', h) \<in> work"
proof -
  from assms(2) obtain ch m todo full rest where pc: "hb_sub h = SubSending ch m todo None full rest" "c \<in> set todo"
    by (auto simp: sub_pick_def split: sub_pc.splits option.splits if_splits)
  with ws_inv_sub [OF assms(1)] ws_inv_open [OF assms(1), of c] obtain x where "hb_heap h c = Some x" by auto
  with assms(2) pc removeAll_shorter [OF pc(2)] show ?thesis
    by (cases "HasChannel x ch") (auto simp: sub_pick_def work_simps)
qed

lemma hub_event_work:
  assumes "ws_inv h" and "hub_event e" and "ws_step e h = Some h'"
  shows "(h', h) \<in> work"
  using ws_step_not_panicked [OF assms(3)] assms(1,2)
  by (cases e) (auto intro: run_steps_work run_send_work sub_steps_work sub_pick_work)

text \<open>And while there is work, one of these steps is enabled.\<close>

lemma sub_sending_enabled:
  assumes "ws_inv h" and "hb_sub h = SubSending ch m todo cur full rest"
  shows "\<exists>e h'. hub_event e \<and> ws_event_step e h = Some h'"
proof -
  have "\<exists>h'. sub_put h = Some h'" if "cur = Some c" for c
    using that assms(2) by (auto simp: sub_put_def Let_def split: option.splits send_result.splits)
  moreover have "\<exists>h'. sub_unlock h = Some h'" if "cur = None" "todo = []" using that assms(2) by (simp add: sub_unlock_def)
  moreover have "\<exists>h'. sub_pick c h = Some h'" if "cur = None" "todo = c # cs" for c cs
    using that assms(2) by (auto simp: sub_pick_def split: option.splits)
  ultimately show ?thesis
    by (metis hub_event.simps(9-11) list.exhaust option.exhaust ws_event_step.simps(21-23))
qed

lemma run_enabled:
  assumes "ws_inv h" and "unlocked h" and "hb_run h \<noteq> RunWaiting"
  shows "\<exists>e h'. hub_event e \<and> ws_event_step e h = Some h'"
proof (cases "hb_run h")
  case (RunRegistering c)
  then have "ws_event_step RunInsert h \<noteq> None" using assms(2) by (simp add: run_insert_def)
  then show ?thesis by (intro exI [of _ RunInsert]) auto
next
  case (RunRemoving c)
  then have "ws_event_step RunRemove h \<noteq> None" using assms(2) by (simp add: run_remove_def)
  then show ?thesis by (intro exI [of _ RunRemove]) auto
next
  case (RunDropping cs)
  then have "ws_event_step RunDrop h \<noteq> None"
    using assms(2) ws_inv_run [OF assms(1)] by (cases cs) (simp_all add: run_drop_def)
  then show ?thesis by (intro exI [of _ RunDrop]) auto
next
  case (RunSending m todo full)
  show ?thesis
  proof (cases todo)
    case Nil
    then have "ws_event_step RunSendDone h \<noteq> None" using RunSending by (simp add: run_send_done_def)
    then show ?thesis by (intro exI [of _ RunSendDone]) auto
  next
    case (Cons c cs)
    then have "ws_event_step (RunSend c) h \<noteq> None"
      using RunSending by (simp add: run_send_def Let_def split: option.split send_result.split)
    then show ?thesis by (intro exI [of _ "RunSend c"]) auto
  qed
qed (use assms(3) in simp)

lemma waiting_enabled:
  assumes "ws_inv h" and "unlocked h" and "hb_run h = RunWaiting" and "\<not> hub_idle h"
  shows "\<exists>e h'. hub_event e \<and> ws_event_step e h = Some h'"
proof (cases "hb_sub h")
  case (SubUnregistering cs rest)
  then have "ws_event_step RecvUnregisterSub h \<noteq> None"
    using assms(3) ws_inv_sub [OF assms(1)] by (cases cs) (simp_all add: recv_unregister_sub_def)
  then show ?thesis by (intro exI [of _ RecvUnregisterSub]) auto
next
  case (SubTodo bs)
  show ?thesis
  proof (cases bs)
    case Nil
    then have "ws_event_step RunReceive h \<noteq> None"
      using assms(3,4) SubTodo by (cases "hb_broadcast h") (simp_all add: run_receive_def hub_idle_def)
    then show ?thesis by (intro exI [of _ RunReceive]) auto
  next
    case (Cons b rest)
    then have "ws_event_step SubLock h \<noteq> None" using SubTodo by (cases b) (simp add: sub_lock_def)
    then show ?thesis by (intro exI [of _ SubLock]) auto
  qed
qed (use assms(2) in \<open>simp add: unlocked_def\<close>)

lemma hub_enabled:
  assumes "ws_inv h" and "\<not> hb_panic h" and "\<not> hub_idle h"
  shows "\<exists>e h'. hub_event e \<and> ws_step e h = Some h'"
proof -
  have "\<exists>e h'. hub_event e \<and> ws_event_step e h = Some h'"
    using sub_sending_enabled [OF assms(1)] run_enabled [OF assms(1)] waiting_enabled [OF assms(1) _ _ assms(3)]
    by (cases "hb_sub h") (auto simp: unlocked_def)
  then show ?thesis using assms(2) by (simp add: ws_step_def)
qed

lemma hub_event_safe: "ws_inv h \<Longrightarrow> hub_event e \<Longrightarrow> ws_step e h = Some h' \<Longrightarrow> ws_inv h' \<and> \<not> hb_panic h'"
  using ws_event_step_inv [of h e h'] ws_step_not_panicked [of e h h'] by (cases e) auto

lemma hub_drains:
  assumes "ws_inv h" and "\<not> hb_panic h"
  shows "\<exists>es h'. list_all hub_event es \<and> run_events es h = Some h' \<and> \<not> hb_panic h' \<and> hub_idle h'"
proof -
  have "wf work" by (simp add: work_def)
  then show ?thesis using assms
  proof (induction h rule: wf_induct_rule)
    case (less h)
    show ?case
    proof (cases "hub_idle h")
      case True
      then show ?thesis using less.prems by (intro exI [of _ "[]"]) simp
    next
      case False
      then obtain e h1 where e: "hub_event e" "ws_step e h = Some h1" using hub_enabled less.prems by blast
      from less.IH [OF hub_event_work [OF less.prems(1) e]] hub_event_safe [OF less.prems(1) e]
      obtain es h' where "list_all hub_event es" "run_events es h1 = Some h'" "\<not> hb_panic h'" "hub_idle h'" by blast
      then show ?thesis using e by (intro exI [of _ "e # es"]) simp
    qed
  qed
qed

text \<open>
  C15: from every reachable state of a running process, \<open>Run\<close> and the subscriber cannot go on
  forever by themselves (the steps they take without a browser, a new connection or a new event
  are well-founded), they never panic, and they can always continue until both are back at
  their \<open>select\<close> with no broadcast pending: the hub cannot deadlock, although the subscriber
  offers slow clients to \<open>Run\<close> on an unbuffered channel and \<open>Run\<close> waits for its locks.
\<close>

theorem hub_never_deadlocks:
  "wf {(h', h). ws_reachable h \<and> (\<exists>e. hub_event e \<and> ws_step e h = Some h')} \<and>
   (\<forall>h. ws_reachable h \<and> \<not> hb_panic h \<longrightarrow>
      (\<exists>es h'. list_all hub_event es \<and> run_events es h = Some h' \<and> \<not> hb_panic h' \<and> hub_idle h'))"
proof
  have "{(h', h). ws_reachable h \<and> (\<exists>e. hub_event e \<and> ws_step e h = Some h')} \<subseteq> work"
    using hub_event_work ws_reachable_inv by blast
  then show "wf {(h', h). ws_reachable h \<and> (\<exists>e. hub_event e \<and> ws_step e h = Some h')}"
    by (rule wf_subset [rotated]) (simp add: work_def)
  show "\<forall>h. ws_reachable h \<and> \<not> hb_panic h \<longrightarrow>
      (\<exists>es h'. list_all hub_event es \<and> run_events es h = Some h' \<and> \<not> hb_panic h' \<and> hub_idle h')"
    using hub_drains ws_reachable_inv by blast
qed

theorem hub_never_deadlocks_witness:
  "\<exists>es h'. list_all hub_event es \<and> run_events es one_client_full = Some h' \<and> \<not> hb_panic h' \<and> hub_idle h'"
proof -
  have "\<not> hb_panic one_client_full" by (simp add: one_client_full_def one_client_def NewHub_def)
  then show ?thesis using hub_never_deadlocks one_client_full_reachable by blast
qed

end
