(* ===== verification/Http_Middleware.thy ===== *)
theory Http_Middleware
  imports Http_Response
begin

text \<open>
  The HTTP middlewares of the services (\<^verbatim>\<open>pkg/metrics/middleware.go\<close>,
  \<^verbatim>\<open>pkg/tracing/middleware.go\<close>, \<open>metricsHTTP\<close> of \<^verbatim>\<open>cmd/auth-service/main.go\<close>). A handler is
  described by the calls it makes on its \<open>http.ResponseWriter\<close>, so that what a wrapper of the
  writer sees and what the server sends are both functions of these calls. The time a request
  takes is not modelled: of the histogram of durations only the number of observations is kept.
\<close>

subsection \<open>Response writers\<close>

record WireRequest =
  wr_method :: string
  wr_path :: string
  wr_pattern :: string
  wr_header :: "string \<Rightarrow> string"

text \<open>\<open>w.Header().Set\<close>, \<open>w.WriteHeader\<close> and \<open>w.Write\<close>.\<close>

datatype wcall = SetHeader string string | WriteHeader int | WriteBody string

text \<open>
  The server's own writer (\<open>net/http\<close>): the first final status counts, a body without one sends
  200, informational statuses are sent ahead, and headers set after the status have no effect.
\<close>

type_synonym header_map = "string \<Rightarrow> string option"

record wire =
  wi_header :: header_map
  wi_sent :: "(int \<times> header_map) option"
  wi_body :: string

definition informational :: "int \<Rightarrow> bool" where
  "informational code \<longleftrightarrow> 100 \<le> code \<and> code \<le> 199 \<and> code \<noteq> 101"

definition send_status :: "int \<Rightarrow> wire \<Rightarrow> wire" where
  "send_status code w = (if wi_sent w = None then w\<lparr>wi_sent := Some (code, wi_header w)\<rparr> else w)"

fun server_call :: "wire \<Rightarrow> wcall \<Rightarrow> wire" where
  "server_call w (SetHeader k v) = w\<lparr>wi_header := (wi_header w)(k \<mapsto> v)\<rparr>"
| "server_call w (WriteHeader code) = (if informational code then w else send_status code w)"
| "server_call w (WriteBody b) = (let w' = send_status 200 w in w'\<lparr>wi_body := wi_body w' @ b\<rparr>)"

definition served :: "wcall list \<Rightarrow> wire" where
  "served calls = send_status 200 (foldl server_call \<lparr>wi_header = Map.empty, wi_sent = None, wi_body = ''''\<rparr> calls)"

definition status_sent :: "wcall list \<Rightarrow> int" where
  "status_sent calls = fst (the (wi_sent (served calls)))"

definition header_sent :: "wcall list \<Rightarrow> string \<Rightarrow> string option" where
  "header_sent calls = snd (the (wi_sent (served calls)))"

text \<open>\<open>statusWriter\<close>, \<open>statusRecorder\<close> and \<open>metricsStatusWriter\<close> keep the last status and count the bytes.\<close>

fun recorded :: "int \<Rightarrow> wcall \<Rightarrow> int" where
  "recorded status (WriteHeader code) = code"
| "recorded status _ = status"

definition statusWriter :: "wcall list \<Rightarrow> int" where
  "statusWriter calls = foldl recorded 200 calls"

fun bytes_written :: "wcall \<Rightarrow> int" where
  "bytes_written (WriteBody b) = int (length b)"
| "bytes_written _ = 0"

subsection \<open>Middlewares\<close>

record span =
  sp_name :: string
  sp_status :: "int option"
  sp_length :: "int option"
  sp_error :: bool

record http_metrics =
  hm_requests :: "string list \<Rightarrow> int"
  hm_durations :: "string list \<Rightarrow> int"
  hm_spans :: "span list"

text \<open>
  A handler gets the request, whether its writer can be hijacked, and the state of the service.
  The wrappers embed the interface \<open>http.ResponseWriter\<close>, which has no \<open>Hijack\<close> and no \<open>Unwrap\<close>,
  so behind them a writer cannot be hijacked.
\<close>

type_synonym 'a handler = "WireRequest \<Rightarrow> bool \<Rightarrow> 'a http_metrics_scheme \<Rightarrow> wcall list \<times> 'a http_metrics_scheme"

fun digits_of :: "nat \<Rightarrow> string" where
  "digits_of n = (if n < 10 then [char_of (48 + n)] else digits_of (n div 10) @ [char_of (48 + n mod 10)])"

declare digits_of.simps [simp del]

definition itoa :: "int \<Rightarrow> string" where
  "itoa i = (if i < 0 then CHR ''-'' # digits_of (nat (- i)) else digits_of (nat i))"

definition observe :: "string \<Rightarrow> WireRequest \<Rightarrow> string \<Rightarrow> int \<Rightarrow> 'a http_metrics_scheme \<Rightarrow> 'a http_metrics_scheme" where
  "observe service r path status s =
     (let lr = [service, wr_method r, path, itoa status]; ld = [service, wr_method r, path]
      in s\<lparr>hm_requests := (hm_requests s)(lr := hm_requests s lr + 1),
           hm_durations := (hm_durations s)(ld := hm_durations s ld + 1)\<rparr>)"

definition metric_path :: "WireRequest \<Rightarrow> string" where
  "metric_path r = (if wr_pattern r = '''' then wr_path r else wr_pattern r)"

definition metrics_Middleware :: "string \<Rightarrow> 'a handler \<Rightarrow> 'a handler" where
  "metrics_Middleware service h r hijacker s =
     (case h r False s of (calls, s') \<Rightarrow> (calls, observe service r (metric_path r) (statusWriter calls) s'))"

definition http_span :: "WireRequest \<Rightarrow> int \<Rightarrow> wcall list \<Rightarrow> span" where
  "http_span r status calls =
     \<lparr>sp_name = ''HTTP '' @ wr_method r @ '' '' @ wr_path r, sp_status = Some status,
      sp_length = Some (sum_list (map bytes_written calls)), sp_error = (500 \<le> status)\<rparr>"

definition tracing_Middleware :: "'a handler \<Rightarrow> 'a handler" where
  "tracing_Middleware h r hijacker s =
     (case h r False s of (calls, s') \<Rightarrow>
        (calls, s'\<lparr>hm_spans := hm_spans s' @ [http_span r (statusWriter calls) calls]\<rparr>))"

text \<open>\<open>router.Use(metrics.Middleware(service)); router.Use(tracing.Middleware(service))\<close>: metrics is outside.\<close>

definition service_stack :: "string \<Rightarrow> 'a handler \<Rightarrow> 'a handler" where
  "service_stack service h = metrics_Middleware service (tracing_Middleware h)"

text \<open>\<open>metricsHTTP\<close> of the authentication service labels with the path.\<close>

definition metricsHTTP :: "string \<Rightarrow> 'a handler \<Rightarrow> 'a handler" where
  "metricsHTTP service h r hijacker s =
     (case h r False s of (calls, s') \<Rightarrow> (calls, observe service r (wr_path r) (statusWriter calls) s'))"

subsection \<open>The handlers of the services\<close>

text \<open>\<open>/health\<close> of every service.\<close>

definition health_handler :: "'a handler" where
  "health_handler r hijacker s =
     ([SetHeader ''Content-Type'' ''application/json'', WriteHeader 200,
       WriteBody (''{'' @ [CHR 0x22] @ ''status'' @ [CHR 0x22] @ '':'' @ [CHR 0x22] @ ''ok'' @ [CHR 0x22] @ ''}'')], s)"

text \<open>
  The calls behind a response of \<^verbatim>\<open>pkg/response\<close>; \<open>enc\<close> gives the text of a JSON value and its
  final newline, as \<open>json.NewEncoder(w).Encode\<close> writes them.
\<close>

definition response_calls :: "(json \<Rightarrow> string) \<Rightarrow> HttpResponse \<Rightarrow> wcall list" where
  "response_calls enc p =
     [SetHeader ''Content-Type'' ''application/json'', WriteHeader (hp_status p)] @
     (case hp_body p of None \<Rightarrow> [] | Some j \<Rightarrow> [WriteBody (enc j)])"

subsection \<open>The status that is recorded is the status that is sent\<close>

text \<open>At most one status, a final one, before the body.\<close>

fun no_status :: "wcall \<Rightarrow> bool" where
  "no_status (WriteHeader code) = False"
| "no_status _ = True"

fun sets_header :: "wcall \<Rightarrow> bool" where
  "sets_header (SetHeader k v) = True"
| "sets_header _ = False"

definition one_status :: "wcall list \<Rightarrow> bool" where
  "one_status calls \<longleftrightarrow>
     (case dropWhile sets_header calls of
        WriteHeader code # rest \<Rightarrow> \<not> informational code \<and> list_all no_status rest
      | rest \<Rightarrow> list_all no_status rest)"

lemma recorded_no_status: "list_all no_status calls \<Longrightarrow> foldl recorded s calls = s"
  by (induction calls) (auto elim: no_status.elims)

lemma recorded_headers: "list_all sets_header calls \<Longrightarrow> foldl recorded s calls = s"
  by (induction calls) (auto elim: sets_header.elims)

lemma server_headers: "list_all sets_header calls \<Longrightarrow> wi_sent (foldl server_call w calls) = wi_sent w"
  by (induction calls arbitrary: w) (auto elim!: sets_header.elims)

lemma send_status_sent [simp]:
  "wi_sent w = None \<Longrightarrow> wi_sent (send_status c w) = Some (c, wi_header w)"
  "wi_sent w \<noteq> None \<Longrightarrow> send_status c w = w"
  by (simp_all add: send_status_def)

lemma send_status_some [simp]: "wi_sent (send_status c w) \<noteq> None"
  by (simp add: send_status_def)

lemma server_keeps_sent: "wi_sent w = Some p \<Longrightarrow> wi_sent (foldl server_call w calls) = Some p"
proof (induction calls arbitrary: w)
  case (Cons c calls)
  then have "wi_sent (server_call w c) = Some p" by (cases c) (simp_all add: Let_def)
  then show ?case using Cons.IH by simp
qed simp

lemma server_no_status:
  "list_all no_status calls \<Longrightarrow> wi_sent w = None \<Longrightarrow>
     fst (the (wi_sent (send_status 200 (foldl server_call w calls)))) = 200"
proof (induction calls arbitrary: w)
  case (Cons c calls)
  show ?case
  proof (cases c)
    case (WriteBody b)
    let ?w = "server_call w c"
    have "wi_sent ?w = Some (200, wi_header w)" using Cons.prems(2) WriteBody by (simp add: Let_def)
    from server_keeps_sent [OF this, of calls] show ?thesis by simp
  qed (use Cons in auto)
qed simp

lemma split_headers:
  obtains hs rest where "calls = hs @ rest" and "list_all sets_header hs" and "rest = dropWhile sets_header calls"
  by (metis takeWhile_dropWhile_id list_all_iff set_takeWhileD)

lemma recorded_is_sent:
  assumes "one_status calls"
  shows "statusWriter calls = status_sent calls"
proof -
  obtain hs rest where calls: "calls = hs @ rest" "list_all sets_header hs" "rest = dropWhile sets_header calls"
    by (rule split_headers)
  let ?w = "foldl server_call \<lparr>wi_header = Map.empty, wi_sent = None, wi_body = ''''\<rparr> hs"
  have w: "wi_sent ?w = None" using server_headers [OF calls(2)] by simp
  have rec: "statusWriter calls = foldl recorded 200 rest"
    using recorded_headers [OF calls(2)] by (simp add: statusWriter_def calls(1))
  have sent: "status_sent calls = fst (the (wi_sent (send_status 200 (foldl server_call ?w rest))))"
    by (simp add: status_sent_def served_def calls(1))
  show ?thesis
  proof (cases "\<exists>code rest'. rest = WriteHeader code # rest'")
    case True
    then obtain code rest' where r: "rest = WriteHeader code # rest'" by blast
    then have "dropWhile sets_header calls = WriteHeader code # rest'" using calls(3) by simp
    with assms have "\<not> informational code" "list_all no_status rest'" by (simp_all add: one_status_def)
    moreover have "wi_sent (foldl server_call (send_status code ?w) rest') = Some (code, wi_header ?w)"
      by (rule server_keeps_sent) (simp add: w)
    ultimately show ?thesis using rec sent r by (simp add: recorded_no_status)
  next
    case False
    then have "list_all no_status rest"
      using assms unfolding one_status_def calls(3) [symmetric] by (auto split: list.splits wcall.splits)
    then show ?thesis using rec sent server_no_status w by (simp add: recorded_no_status)
  qed
qed

lemma one_status_response: "\<not> informational (hp_status p) \<Longrightarrow> one_status (response_calls enc p)"
  by (auto simp: one_status_def response_calls_def split: option.splits)

lemma status_sent_response: "\<not> informational (hp_status p) \<Longrightarrow> status_sent (response_calls enc p) = hp_status p"
  using recorded_is_sent [OF one_status_response, of p enc]
  by (auto simp: statusWriter_def response_calls_def split: option.splits)

text \<open>
  Behind the middlewares of a service every request is answered with exactly the calls its
  handler makes (on a writer that cannot be hijacked), and it is counted once, under the method,
  the route and the status that the client gets, and traced by one span with that status: the
  status the wrappers record is the status the server sends, as long as the handler writes at
  most one final status and writes it before the body.
\<close>

theorem service_stack_observes:
  assumes "h r False s = (calls, s1)" and "one_status calls"
  shows "service_stack service h r hijacker s =
    (calls, observe service r (metric_path r) (status_sent calls)
       (s1\<lparr>hm_spans := hm_spans s1 @ [http_span r (status_sent calls) calls]\<rparr>))"
  using assms recorded_is_sent [OF assms(2)]
  by (simp add: service_stack_def metrics_Middleware_def tracing_Middleware_def)

definition health_request :: WireRequest where
  "health_request = \<lparr>wr_method = ''GET'', wr_path = ''/health'', wr_pattern = '''', wr_header = (\<lambda>_. '''')\<rparr>"

definition no_metrics :: http_metrics where
  "no_metrics = \<lparr>hm_requests = (\<lambda>_. 0), hm_durations = (\<lambda>_. 0), hm_spans = []\<rparr>"

lemma health_status: "status_sent (fst (health_handler r hj s)) = 200" "one_status (fst (health_handler r hj s))"
  by (simp_all add: health_handler_def status_sent_def served_def informational_def send_status_def one_status_def)

lemma itoa_200: "itoa 200 = ''200''"
  by code_simp

theorem service_stack_observes_witness:
  "hm_requests (snd (service_stack ''order-service'' health_handler health_request True no_metrics))
     [''order-service'', ''GET'', ''/health'', ''200''] = 1"
proof -
  have "health_handler health_request False no_metrics = (fst (health_handler health_request False no_metrics), no_metrics)"
    by (simp add: health_handler_def)
  from service_stack_observes [where h = health_handler and service = "''order-service''" and hijacker = True, OF this]
  show ?thesis
    using health_status [of health_request False no_metrics] by (simp add: observe_def Let_def no_metrics_def metric_path_def health_request_def itoa_200)
qed

end
