(* ===== verification/WS_Handler.thy ===== *)
theory WS_Handler
  imports WS_Safety Http_Middleware
begin

text \<open>
  The HTTP side of the WebSocket service (\<^verbatim>\<open>internal/websocket/handler.go\<close> and the router of
  \<^verbatim>\<open>cmd/websocket-service/main.go\<close>): upgrading a connection, the statistics, and the routes
  behind the middlewares of the service. The upgrade itself is gorilla/websocket and a parameter:
  given the request and whether the writer can be hijacked it answers with an error or takes the
  connection over.
\<close>

record ws_service = http_metrics +
  wst_hub :: Hub

type_synonym upgrader = "WireRequest \<Rightarrow> bool \<Rightarrow> wcall list + unit"

text \<open>\<open>HandleWebSocket\<close> up to the registration, which the goroutines of the hub continue.\<close>

definition HandleWebSocket ::
  "upgrader \<Rightarrow> nat \<Rightarrow> string \<Rightarrow> WireRequest \<Rightarrow> bool \<Rightarrow> ws_service \<Rightarrow> wcall list \<times> ws_service" where
  "HandleWebSocket upgrade c i r hijacker s =
     (case upgrade r hijacker of
        Inl calls \<Rightarrow> (calls, s)
      | Inr _ \<Rightarrow> (case connect c i (wst_hub s) of None \<Rightarrow> ([], s) | Some h \<Rightarrow> ([], s\<lparr>wst_hub := h\<rparr>)))"

text \<open>\<open>GetStats\<close>: one entry per channel that some registered client has.\<close>

definition stats_names :: "Hub \<Rightarrow> string list" where
  "stats_names h = remdups (concat (map (\<lambda>c. case hb_heap h c of None \<Rightarrow> [] | Some x \<Rightarrow> wc_channels x) (hb_clients h)))"

definition GetStats :: "int \<Rightarrow> Hub \<Rightarrow> json" where
  "GetStats now h = JObj
     [(''channels'', JObj (map (\<lambda>ch. (ch, JInt (int (stats_channels h ch)))) (sort (stats_names h)))),
      (''timestamp'', JTime now), (''total_clients'', JInt (int (ClientCount h)))]"

definition HandleStats ::
  "(json \<Rightarrow> string) \<Rightarrow> int \<Rightarrow> WireRequest \<Rightarrow> bool \<Rightarrow> ws_service \<Rightarrow> wcall list \<times> ws_service" where
  "HandleStats enc now r hijacker s =
     ([SetHeader ''Content-Type'' ''application/json'', WriteBody (enc (GetStats now (wst_hub s)))], s)"

text \<open>The routes of the service; anything else is the router's 404 and does not reach a handler.\<close>

datatype ws_endpoint = EpWebSocket | EpStats | EpHealth

definition ws_Routes :: "(string \<times> string \<times> ws_endpoint) list" where
  "ws_Routes = [(''GET'', ''/ws/'', EpWebSocket), (''GET'', ''/ws/stats'', EpStats), (''GET'', ''/health'', EpHealth)]"

fun ws_endpoint_handler ::
  "upgrader \<Rightarrow> (json \<Rightarrow> string) \<Rightarrow> int \<Rightarrow> nat \<Rightarrow> string \<Rightarrow> ws_endpoint \<Rightarrow> WireRequest \<Rightarrow> bool \<Rightarrow> ws_service
   \<Rightarrow> wcall list \<times> ws_service" where
  "ws_endpoint_handler upgrade enc now c i EpWebSocket = HandleWebSocket upgrade c i"
| "ws_endpoint_handler upgrade enc now c i EpStats = HandleStats enc now"
| "ws_endpoint_handler upgrade enc now c i EpHealth = health_handler"

definition serve_ws ::
  "upgrader \<Rightarrow> (json \<Rightarrow> string) \<Rightarrow> int \<Rightarrow> nat \<Rightarrow> string \<Rightarrow> ws_endpoint \<Rightarrow> WireRequest \<Rightarrow> bool \<Rightarrow> ws_service
   \<Rightarrow> wcall list \<times> ws_service" where
  "serve_ws upgrade enc now c i ep =
     service_stack ''websocket-service'' (ws_endpoint_handler upgrade enc now c i ep)"

subsection \<open>Statistics\<close>

lemma stats_names_iff: "ch \<in> set (stats_names h) \<longleftrightarrow> 0 < stats_channels h ch"
proof -
  have one: "(\<exists>x. Some x = o' \<and> ch \<in> set (wc_channels x)) \<longleftrightarrow> (case o' of None \<Rightarrow> False | Some x \<Rightarrow> HasChannel x ch)" for o'
    by (cases o') (auto simp: HasChannel_def)
  have "ch \<in> set (stats_names h) \<longleftrightarrow> (\<exists>c \<in> set (hb_clients h). subscribed h ch c)"
    by (simp add: stats_names_def subscribed_def one)
  then show ?thesis by (simp add: stats_channels_def filter_empty_conv)
qed

subsection \<open>Upgrades behind the middlewares\<close>

text \<open>The documented behaviour of the upgrade: it needs a writer that it can hijack.\<close>

definition needs_hijacker :: "upgrader \<Rightarrow> bool" where
  "needs_hijacker upgrade \<longleftrightarrow> (\<forall>r. \<exists>calls. upgrade r False = Inl calls)"

lemma observe_hub [simp]: "wst_hub (observe service r path status s) = wst_hub s"
  by (simp add: observe_def Let_def)

lemma service_stack_hub: "wst_hub (snd (service_stack service h r hijacker s)) = wst_hub (snd (h r False s))"
  by (simp add: service_stack_def metrics_Middleware_def tracing_Middleware_def split: prod.splits)

lemma service_stack_calls: "fst (service_stack service h r hijacker s) = fst (h r False s)"
  by (simp add: service_stack_def metrics_Middleware_def tracing_Middleware_def split: prod.splits)

text \<open>
  C37: no browser ever gets a WebSocket connection. The writers that the metrics and the tracing
  middleware hand on cannot be hijacked, so when the upgrade needs that, as gorilla/websocket
  documents, every request to \<open>/ws\<close> is answered with the error of the upgrade, and whatever
  requests the service serves, the hub never sees a client.
\<close>

theorem no_upgrade_behind_middlewares:
  assumes "needs_hijacker upgrade"
  shows "(\<forall>r. \<exists>calls. upgrade r False = Inl calls \<and>
            (\<forall>enc now c i s. fst (serve_ws upgrade enc now c i EpWebSocket r True s) = calls)) \<and>
    wst_hub (foldl (\<lambda>s (enc, now, c, i, ep, r). snd (serve_ws upgrade enc now c i ep r True s)) s reqs) = wst_hub s"
proof
  show "\<forall>r. \<exists>calls. upgrade r False = Inl calls \<and>
            (\<forall>enc now c i s. fst (serve_ws upgrade enc now c i EpWebSocket r True s) = calls)"
    using assms by (fastforce simp: needs_hijacker_def serve_ws_def service_stack_calls HandleWebSocket_def)
  have step: "wst_hub (snd (serve_ws upgrade enc now c i ep r True s)) = wst_hub s" for enc now c i ep r s
  proof -
    obtain calls where "upgrade r False = Inl calls" using assms by (auto simp: needs_hijacker_def)
    then show ?thesis
      by (cases ep) (simp_all add: serve_ws_def service_stack_hub HandleWebSocket_def HandleStats_def health_handler_def)
  qed
  show "wst_hub (foldl (\<lambda>s (enc, now, c, i, ep, r). snd (serve_ws upgrade enc now c i ep r True s)) s reqs) = wst_hub s"
    by (induction reqs arbitrary: s) (auto simp: step)
qed

text \<open>An upgrade that answers 500 unless it can hijack.\<close>

definition demo_upgrade :: upgrader where
  "demo_upgrade r hijacker = (if hijacker then Inr () else Inl [WriteHeader 500])"

definition demo_ws_service :: ws_service where
  "demo_ws_service = \<lparr>hm_requests = (\<lambda>_. 0), hm_durations = (\<lambda>_. 0), hm_spans = [], wst_hub = NewHub\<rparr>"

theorem no_upgrade_behind_middlewares_witness:
  "fst (serve_ws demo_upgrade (\<lambda>_. '''') 0 0 ''a'' EpWebSocket health_request True demo_ws_service) = [WriteHeader 500] \<and>
   wst_hub (snd (HandleWebSocket demo_upgrade 0 ''a'' health_request True demo_ws_service)) \<noteq> NewHub"
proof -
  have "needs_hijacker demo_upgrade" by (simp add: needs_hijacker_def demo_upgrade_def)
  from no_upgrade_behind_middlewares [OF this]
  have "fst (serve_ws demo_upgrade (\<lambda>_. '''') 0 0 ''a'' EpWebSocket health_request True demo_ws_service) = [WriteHeader 500]"
    by (auto simp: demo_upgrade_def)
  moreover have "hb_heap (wst_hub (snd (HandleWebSocket demo_upgrade 0 ''a'' health_request True demo_ws_service))) 0 \<noteq> hb_heap NewHub 0"
    by (simp add: HandleWebSocket_def demo_upgrade_def demo_ws_service_def connect_def NewHub_def)
  ultimately show ?thesis by metis
qed

end
