(* ===== verification/Service_Config.thy ===== *)
theory Service_Config
  imports Http_Response
begin

text \<open>
  The configuration of the services (\<^verbatim>\<open>pkg/config/config.go\<close>): environment variables with
  defaults. An environment is a function from names to values, the empty string when a variable
  is not set.
\<close>

record ServerConfig =
  sc_http_port :: string
  sc_grpc_port :: string

record DatabaseConfig =
  db_host :: string
  db_port :: int
  db_user :: string
  db_password :: string
  db_name :: string
  db_sslmode :: string

record RedisConfig =
  rc_host :: string
  rc_port :: int
  rc_password :: string

record KafkaConfig =
  kc_brokers :: "string list"

record Config =
  cf_server :: ServerConfig
  cf_database :: DatabaseConfig
  cf_redis :: RedisConfig
  cf_kafka :: KafkaConfig

type_synonym environ = "string \<Rightarrow> string"

definition getEnv :: "environ \<Rightarrow> string \<Rightarrow> string \<Rightarrow> string" where
  "getEnv env key defaultValue = (if env key \<noteq> '''' then env key else defaultValue)"

text \<open>\<open>strconv.Atoi\<close> with its error: no number, or a number that is no \<open>int\<close>.\<close>

definition atoi_value :: "string \<Rightarrow> int option" where
  "atoi_value s =
     (case s of [] \<Rightarrow> None
      | c # cs \<Rightarrow> if c = CHR ''-'' then map_option uminus (unsigned_value cs)
                  else if c = CHR ''+'' then unsigned_value cs else unsigned_value s)"

definition atoi_result :: "string \<Rightarrow> int option" where
  "atoi_result s = (case atoi_value s of None \<Rightarrow> None | Some i \<Rightarrow> if clamp64 i = i then Some i else None)"

definition getEnvAsInt :: "environ \<Rightarrow> string \<Rightarrow> int \<Rightarrow> int" where
  "getEnvAsInt env key defaultValue =
     (if env key \<noteq> '''' then (case atoi_result (env key) of Some i \<Rightarrow> i | None \<Rightarrow> defaultValue) else defaultValue)"

definition Config_Load :: "environ \<Rightarrow> Config" where
  "Config_Load env =
     \<lparr>cf_server = \<lparr>sc_http_port = getEnv env ''HTTP_PORT'' ''8080'', sc_grpc_port = getEnv env ''GRPC_PORT'' ''9090''\<rparr>,
      cf_database = \<lparr>db_host = getEnv env ''DB_HOST'' ''localhost'', db_port = getEnvAsInt env ''DB_PORT'' 5432,
        db_user = getEnv env ''DB_USER'' ''postgres'', db_password = getEnv env ''DB_PASSWORD'' ''postgres'',
        db_name = getEnv env ''DB_NAME'' ''order_db'', db_sslmode = getEnv env ''DB_SSLMODE'' ''disable''\<rparr>,
      cf_redis = \<lparr>rc_host = getEnv env ''REDIS_HOST'' ''localhost'', rc_port = getEnvAsInt env ''REDIS_PORT'' 6379,
        rc_password = getEnv env ''REDIS_PASSWORD'' ''''\<rparr>,
      cf_kafka = \<lparr>kc_brokers = [getEnv env ''KAFKA_BROKERS'' ''localhost:9092'']\<rparr>\<rparr>"

text \<open>The two readings of \<open>strconv.Atoi\<close>, with its error and without, agree on what is a number.\<close>

lemma atoi_result_atoi: "atoi_result s = Some i \<Longrightarrow> atoi s = i"
  by (auto simp: atoi_result_def atoi_value_def atoi_def split: list.splits option.splits if_splits)

lemma clamp64_range: "- (2 ^ 63) \<le> clamp64 i \<and> clamp64 i < 2 ^ 63"
  by (simp add: clamp64_def)

text \<open>A variable that is set but no number leaves the default, and the result is always an \<open>int\<close>.\<close>

lemma getEnvAsInt_range:
  assumes "- (2 ^ 63) \<le> d" and "d < 2 ^ 63"
  shows "- (2 ^ 63) \<le> getEnvAsInt env key d \<and> getEnvAsInt env key d < 2 ^ 63"
  using assms clamp64_range
  by (auto simp: getEnvAsInt_def atoi_result_def split: option.splits if_splits) metis+

lemma Config_Load_defaults:
  "Config_Load (\<lambda>_. '''') =
     \<lparr>cf_server = \<lparr>sc_http_port = ''8080'', sc_grpc_port = ''9090''\<rparr>,
      cf_database = \<lparr>db_host = ''localhost'', db_port = 5432, db_user = ''postgres'', db_password = ''postgres'',
        db_name = ''order_db'', db_sslmode = ''disable''\<rparr>,
      cf_redis = \<lparr>rc_host = ''localhost'', rc_port = 6379, rc_password = ''''\<rparr>,
      cf_kafka = \<lparr>kc_brokers = [''localhost:9092'']\<rparr>\<rparr>"
  by (simp add: Config_Load_def getEnv_def getEnvAsInt_def)

end
