(* ===== verification/Auth_Service.thy ===== *)
theory Auth_Service
  imports Http_Middleware Service_Config
begin

text \<open>
  The authentication service (\<^verbatim>\<open>cmd/auth-service/main.go\<close>), which the gateway asks before it
  forwards a request: \<open>handleVerify\<close> on the \<open>Authorization\<close> header, its middlewares and its
  configuration. Parsing and verifying a token is golang-jwt and a parameter; what its
  documentation promises is the hypothesis \<open>jwt_documented\<close>.
\<close>

subsection \<open>Tokens\<close>

datatype SigningMethod = SigningMethodHMAC string | OtherSigningMethod string

text \<open>\<open>Claims\<close> with the registered claims it embeds; times in seconds.\<close>

record Claims =
  cl_user_id :: string
  cl_email :: string
  cl_role :: string
  cl_issuer :: string
  cl_audience :: "string list"
  cl_expires_at :: "int option"
  cl_not_before :: "int option"

record jwt_token =
  tk_method :: SigningMethod
  tk_claims :: "Claims option"
  tk_valid :: bool

record parse_options =
  po_issuer :: string
  po_audience :: string
  po_leeway :: int

type_synonym jwt_parser =
  "(SigningMethod \<Rightarrow> go_error + string) \<Rightarrow> parse_options \<Rightarrow> int \<Rightarrow> string \<Rightarrow> go_error + jwt_token"

subsection \<open>The service\<close>

record auth_config =
  ac_secret :: string
  ac_issuer :: string
  ac_audience :: string

text \<open>\<open>main\<close>: without a secret the process ends.\<close>

definition auth_main :: "environ \<Rightarrow> auth_config option" where
  "auth_main env =
     (if env ''JWT_SECRET'' = '''' then None
      else Some \<lparr>ac_secret = env ''JWT_SECRET'', ac_issuer = getEnv env ''JWT_ISSUER'' ''order-inventory-system'',
                 ac_audience = getEnv env ''JWT_AUDIENCE'' ''order-inventory-api''\<rparr>)"

text \<open>\<open>http.Error\<close>.\<close>

definition http_Error :: "string \<Rightarrow> int \<Rightarrow> wcall list" where
  "http_Error error code =
     [SetHeader ''Content-Type'' ''text/plain; charset=utf-8'', SetHeader ''X-Content-Type-Options'' ''nosniff'',
      WriteHeader code, WriteBody (error @ [CHR 0x0A])]"

definition quoted :: "string \<Rightarrow> string" where
  "quoted s = [CHR 0x22] @ s @ [CHR 0x22]"

definition error_body :: "string \<Rightarrow> string" where
  "error_body message = ''{'' @ quoted ''error'' @ '':'' @ quoted message @ ''}''"

definition unauthorized :: "string \<Rightarrow> wcall list" where
  "unauthorized message = http_Error (error_body message) 401"

text \<open>\<open>strings.SplitN(s, " ", 2)\<close>.\<close>

definition splitN2 :: "string \<Rightarrow> string list" where
  "splitN2 s =
     (case dropWhile (\<lambda>c. c \<noteq> CHR '' '') s of [] \<Rightarrow> [s] | _ # rest \<Rightarrow> [takeWhile (\<lambda>c. c \<noteq> CHR '' '') s, rest])"

text \<open>The key function: the secret for HMAC, an error for everything else.\<close>

definition keyfunc :: "auth_config \<Rightarrow> SigningMethod \<Rightarrow> go_error + string" where
  "keyfunc cfg m = (case m of SigningMethodHMAC alg \<Rightarrow> Inr (ac_secret cfg)
     | OtherSigningMethod alg \<Rightarrow> Inl (External (''unexpected signing method: '' @ alg)))"

definition verify_options :: "auth_config \<Rightarrow> parse_options" where
  "verify_options cfg = \<lparr>po_issuer = ac_issuer cfg, po_audience = ac_audience cfg, po_leeway = 30\<rparr>"

definition verify_calls :: "auth_config \<Rightarrow> jwt_parser \<Rightarrow> int \<Rightarrow> string \<Rightarrow> wcall list" where
  "verify_calls cfg parse now authHeader =
     (if authHeader = '''' then unauthorized ''missing authorization header''
      else (case splitN2 authHeader of
        [scheme, tokenString] \<Rightarrow>
          if scheme \<noteq> ''Bearer'' then unauthorized ''invalid authorization header format''
          else (case parse (keyfunc cfg) (verify_options cfg) now tokenString of
             Inl e \<Rightarrow> unauthorized ''invalid token''
           | Inr token \<Rightarrow>
               if \<not> tk_valid token then unauthorized ''invalid token''
               else (case tk_claims token of
                  None \<Rightarrow> unauthorized ''invalid claims''
                | Some claims \<Rightarrow>
                    [SetHeader ''X-User-Id'' (cl_user_id claims), SetHeader ''X-User-Role'' (cl_role claims),
                     SetHeader ''Content-Type'' ''application/json'', WriteHeader 200,
                     WriteBody (''{'' @ quoted ''user_id'' @ '':'' @ quoted (cl_user_id claims) @ '','' @
                       quoted ''role'' @ '':'' @ quoted (cl_role claims) @ ''}'')]))
      | _ \<Rightarrow> unauthorized ''invalid authorization header format''))"

definition handleVerify :: "auth_config \<Rightarrow> jwt_parser \<Rightarrow> int \<Rightarrow> 'a handler" where
  "handleVerify cfg parse now r hijacker s = (verify_calls cfg parse now (wr_header r ''Authorization''), s)"

text \<open>\<open>traceHandler\<close> adds a span and hands the writer on as it is.\<close>

definition traceHandler :: "'a handler \<Rightarrow> 'a handler" where
  "traceHandler h r hijacker s =
     (case h r hijacker s of (calls, s') \<Rightarrow>
        (calls, s'\<lparr>hm_spans := hm_spans s' @
           [\<lparr>sp_name = ''HTTP POST /verify'', sp_status = None, sp_length = None, sp_error = False\<rparr>]\<rparr>))"

definition auth_routes :: "auth_config \<Rightarrow> jwt_parser \<Rightarrow> int \<Rightarrow> (string \<times> 'a handler) list" where
  "auth_routes cfg parse now =
     [(''/verify'', metricsHTTP ''auth-service'' (traceHandler (handleVerify cfg parse now))),
      (''/health'', metricsHTTP ''auth-service'' health_handler)]"

subsection \<open>What golang-jwt documents\<close>

text \<open>
  A token is accepted exactly when its text decodes to a method and claims, the key function
  gives a key for the method, the signature is right for method and key, issuer and audience are
  as required, and the times, where present, are right up to the leeway. Nothing is said of empty
  options, with which the parser leaves the test of issuer or audience out; \<open>main\<close> never uses them. \<open>content\<close> is what the
  text of a token holds and \<open>signed\<close> the check of its signature.
\<close>

definition claims_accepted :: "parse_options \<Rightarrow> int \<Rightarrow> Claims \<Rightarrow> bool" where
  "claims_accepted opts now c \<longleftrightarrow> cl_issuer c = po_issuer opts \<and> po_audience opts \<in> set (cl_audience c) \<and>
     (case cl_expires_at c of None \<Rightarrow> True | Some t \<Rightarrow> now < t + po_leeway opts) \<and>
     (case cl_not_before c of None \<Rightarrow> True | Some t \<Rightarrow> t - po_leeway opts \<le> now)"

definition jwt_documented ::
  "(string \<Rightarrow> (SigningMethod \<times> Claims) option) \<Rightarrow> (SigningMethod \<Rightarrow> string \<Rightarrow> string \<Rightarrow> bool) \<Rightarrow> jwt_parser \<Rightarrow> bool" where
  "jwt_documented content signed parse \<longleftrightarrow> (\<forall>kf opts now t token.
     po_issuer opts \<noteq> '''' \<longrightarrow> po_audience opts \<noteq> '''' \<longrightarrow>
     (parse kf opts now t = Inr token \<longleftrightarrow>
       (\<exists>m c key. content t = Some (m, c) \<and> kf m = Inr key \<and> signed m key t \<and> claims_accepted opts now c \<and>
          token = \<lparr>tk_method = m, tk_claims = Some c, tk_valid = True\<rparr>)))"

subsection \<open>Who is authenticated\<close>

lemma takeWhile_space: "takeWhile (\<lambda>c. c \<noteq> CHR '' '') (''Bearer'' @ CHR '' '' # t) = ''Bearer''"
  "dropWhile (\<lambda>c. c \<noteq> CHR '' '') (''Bearer'' @ CHR '' '' # t) = CHR '' '' # t"
  by simp_all

lemma splitN2_Bearer: "splitN2 s = [''Bearer'', t] \<longleftrightarrow> s = ''Bearer '' @ t"
proof
  assume *: "splitN2 s = [''Bearer'', t]"
  then obtain c where d: "dropWhile (\<lambda>c. c \<noteq> CHR '' '') s = c # t" "takeWhile (\<lambda>c. c \<noteq> CHR '' '') s = ''Bearer''"
    by (auto simp: splitN2_def split: list.splits)
  then have "c = CHR '' ''" using hd_dropWhile [of "\<lambda>c. c \<noteq> CHR '' ''" s] by auto
  then show "s = ''Bearer '' @ t" using takeWhile_dropWhile_id [of "\<lambda>c. c \<noteq> CHR '' ''" s] d by simp
qed (simp add: splitN2_def)

text \<open>The token is accepted.\<close>

definition authentic ::
  "(string \<Rightarrow> (SigningMethod \<times> Claims) option) \<Rightarrow> (SigningMethod \<Rightarrow> string \<Rightarrow> string \<Rightarrow> bool) \<Rightarrow> auth_config \<Rightarrow> int
   \<Rightarrow> string \<Rightarrow> Claims \<Rightarrow> bool" where
  "authentic content signed cfg now t c \<longleftrightarrow>
     (\<exists>alg. content t = Some (SigningMethodHMAC alg, c) \<and> signed (SigningMethodHMAC alg) (ac_secret cfg) t) \<and>
     claims_accepted (verify_options cfg) now c"

text \<open>The options of a configuration that \<open>main\<close> makes are not empty.\<close>

lemma auth_main_options:
  "auth_main env = Some cfg \<Longrightarrow> po_issuer (verify_options cfg) \<noteq> '''' \<and> po_audience (verify_options cfg) \<noteq> ''''"
  by (auto simp: auth_main_def verify_options_def getEnv_def split: if_splits)

lemma parse_authentic:
  assumes "jwt_documented content signed parse" and "auth_main env = Some cfg"
  shows "parse (keyfunc cfg) (verify_options cfg) now t = Inr token \<longleftrightarrow>
    (\<exists>c alg. authentic content signed cfg now t c \<and> content t = Some (SigningMethodHMAC alg, c) \<and>
       token = \<lparr>tk_method = SigningMethodHMAC alg, tk_claims = Some c, tk_valid = True\<rparr>)"
proof -
  have key: "keyfunc cfg m = Inr key \<longleftrightarrow> (\<exists>alg. m = SigningMethodHMAC alg) \<and> key = ac_secret cfg" for m key
    by (auto simp: keyfunc_def split: SigningMethod.splits)
  have "parse (keyfunc cfg) (verify_options cfg) now t = Inr token \<longleftrightarrow>
      (\<exists>m c key. content t = Some (m, c) \<and> keyfunc cfg m = Inr key \<and> signed m key t \<and>
         claims_accepted (verify_options cfg) now c \<and> token = \<lparr>tk_method = m, tk_claims = Some c, tk_valid = True\<rparr>)"
    using assms(1) auth_main_options [OF assms(2)] unfolding jwt_documented_def by blast
  then show ?thesis by (auto simp: authentic_def key)
qed

lemma served_unauthorized [simp]:
  "status_sent (unauthorized m) = 401" "header_sent (unauthorized m) ''X-User-Id'' = None"
  "header_sent (unauthorized m) ''X-User-Role'' = None"
  by (simp_all add: unauthorized_def http_Error_def status_sent_def header_sent_def served_def informational_def send_status_def)

definition accepted_calls :: "Claims \<Rightarrow> wcall list \<Rightarrow> bool" where
  "accepted_calls c calls \<longleftrightarrow> status_sent calls = 200 \<and> header_sent calls ''X-User-Id'' = Some (cl_user_id c) \<and>
     header_sent calls ''X-User-Role'' = Some (cl_role c)"

definition refused_calls :: "wcall list \<Rightarrow> bool" where
  "refused_calls calls \<longleftrightarrow> status_sent calls = 401 \<and> header_sent calls ''X-User-Id'' = None \<and>
     header_sent calls ''X-User-Role'' = None"

lemma verify_accepts:
  assumes "jwt_documented content signed parse" and "auth_main env = Some cfg" and "authentic content signed cfg now t c"
  shows "accepted_calls c (verify_calls cfg parse now (''Bearer '' @ t))"
proof -
  obtain alg where "content t = Some (SigningMethodHMAC alg, c)" using assms(3) by (auto simp: authentic_def)
  then have "parse (keyfunc cfg) (verify_options cfg) now t =
      Inr \<lparr>tk_method = SigningMethodHMAC alg, tk_claims = Some c, tk_valid = True\<rparr>"
    using parse_authentic [OF assms(1,2)] assms(3) by blast
  moreover have "splitN2 (''Bearer '' @ t) = [''Bearer'', t]" by (simp only: splitN2_Bearer)
  ultimately show ?thesis
    by (simp add: verify_calls_def accepted_calls_def status_sent_def header_sent_def served_def informational_def send_status_def)
qed

lemma verify_refuses:
  assumes "jwt_documented content signed parse" and "auth_main env = Some cfg"
    and "\<nexists>t c. a = ''Bearer '' @ t \<and> authentic content signed cfg now t c"
  shows "refused_calls (verify_calls cfg parse now a)"
proof -
  have un: "refused_calls (unauthorized m)" for m by (simp add: refused_calls_def)
  show ?thesis
  proof (cases "\<exists>t. splitN2 a = [''Bearer'', t]")
    case True
    then obtain t where t: "splitN2 a = [''Bearer'', t]" by blast
    then have a: "a = ''Bearer '' @ t" by (simp only: splitN2_Bearer)
    then have "\<nexists>token. parse (keyfunc cfg) (verify_options cfg) now t = Inr token"
      using parse_authentic [OF assms(1,2)] assms(3) by blast
    then obtain e where "parse (keyfunc cfg) (verify_options cfg) now t = Inl e" by (meson old.sum.exhaust)
    then show ?thesis using t a un by (simp add: verify_calls_def)
  next
    case False
    then show ?thesis using un by (auto simp: verify_calls_def split: list.splits)
  qed
qed

text \<open>
  C36: whom \<open>/verify\<close> authenticates. For the documented parser and a configuration that \<open>main\<close> makes, a request is answered with 200 and
  with the user and the role of its token exactly when its header is \<open>Bearer\<close> and a token that is
  signed with the secret of the service by any HMAC method, for the issuer and the audience the
  service is configured with, and whose times, as far as the token has them, are right up to 30
  seconds: a token without an expiry is accepted at any time. Every other request gets 401 and no
  user headers. The response is counted under the status sent. (The documentation requires an
  expiry and HMAC-SHA256; the code requires neither.)
\<close>

theorem verify_authenticates:
  assumes "jwt_documented content signed parse" and "auth_main env = Some cfg"
  shows "case metricsHTTP ''auth-service'' (traceHandler (handleVerify cfg parse now)) r hijacker s of
    (calls, s') \<Rightarrow>
      (\<forall>t c. wr_header r ''Authorization'' = ''Bearer '' @ t \<and> authentic content signed cfg now t c \<longrightarrow> accepted_calls c calls) \<and>
      ((\<nexists>t c. wr_header r ''Authorization'' = ''Bearer '' @ t \<and> authentic content signed cfg now t c) \<longrightarrow> refused_calls calls) \<and>
      (\<exists>s1. s' = observe ''auth-service'' r (wr_path r) (status_sent calls) s1 \<and> hm_requests s1 = hm_requests s)"
proof -
  let ?calls = "verify_calls cfg parse now (wr_header r ''Authorization'')"
  have "one_status ?calls"
    by (auto simp: verify_calls_def unauthorized_def http_Error_def one_status_def informational_def
        split: list.splits sum.splits option.splits)
  note status = recorded_is_sent [OF this]
  have "\<exists>s1. metricsHTTP ''auth-service'' (traceHandler (handleVerify cfg parse now)) r hijacker s =
      (?calls, observe ''auth-service'' r (wr_path r) (status_sent ?calls) s1) \<and> hm_requests s1 = hm_requests s"
    by (simp add: metricsHTTP_def traceHandler_def handleVerify_def status) (rule exI, rule conjI, rule refl, simp)
  moreover have "accepted_calls c ?calls"
    if "wr_header r ''Authorization'' = ''Bearer '' @ t" "authentic content signed cfg now t c" for t c
    using verify_accepts [OF assms that(2)] that(1) by simp
  ultimately show ?thesis using verify_refuses [OF assms] by auto
qed


text \<open>A parser as documented, for any reading of tokens and any check of signatures.\<close>

definition documented_parse ::
  "(string \<Rightarrow> (SigningMethod \<times> Claims) option) \<Rightarrow> (SigningMethod \<Rightarrow> string \<Rightarrow> string \<Rightarrow> bool) \<Rightarrow> jwt_parser" where
  "documented_parse content signed kf opts now t =
     (case content t of None \<Rightarrow> Inl (External ''token is malformed'')
      | Some (m, c) \<Rightarrow> (case kf m of Inl e \<Rightarrow> Inl e
          | Inr key \<Rightarrow> if signed m key t \<and> claims_accepted opts now c
              then Inr \<lparr>tk_method = m, tk_claims = Some c, tk_valid = True\<rparr>
              else Inl (External ''token has invalid claims'')))"

lemma documented_parse_ok: "jwt_documented content signed (documented_parse content signed)"
  by (auto simp: jwt_documented_def documented_parse_def split: option.splits sum.splits)

definition demo_claims :: Claims where
  "demo_claims = \<lparr>cl_user_id = ''u1'', cl_email = ''u1@example.org'', cl_role = ''user'', cl_issuer = ''order-inventory-system'',
     cl_audience = [''order-inventory-api''], cl_expires_at = Some 1000, cl_not_before = None\<rparr>"

definition demo_content :: "string \<Rightarrow> (SigningMethod \<times> Claims) option" where
  "demo_content t = (if t = ''abc'' then Some (SigningMethodHMAC ''HS256'', demo_claims)
     else if t = ''ever'' then Some (SigningMethodHMAC ''HS512'', demo_claims\<lparr>cl_expires_at := None\<rparr>) else None)"

definition demo_auth :: auth_config where
  "demo_auth = \<lparr>ac_secret = ''s'', ac_issuer = ''order-inventory-system'', ac_audience = ''order-inventory-api''\<rparr>"

definition demo_bearer :: "string \<Rightarrow> WireRequest" where
  "demo_bearer t = health_request\<lparr>wr_header := (\<lambda>k. if k = ''Authorization'' then ''Bearer '' @ t else '''')\<rparr>"

definition demo_verify :: "int \<Rightarrow> string \<Rightarrow> wcall list" where
  "demo_verify now t = fst (metricsHTTP ''auth-service''
     (traceHandler (handleVerify demo_auth (documented_parse demo_content (\<lambda>m k t. k = ''s'')) now)) (demo_bearer t) True no_metrics)"

theorem verify_authenticates_witness:
  "accepted_calls demo_claims (demo_verify 1029 ''abc'') \<and> refused_calls (demo_verify 1030 ''abc'') \<and>
   accepted_calls (demo_claims\<lparr>cl_expires_at := None\<rparr>) (demo_verify 1000000000 ''ever'')"
proof -
  let ?ok = "authentic demo_content (\<lambda>m k t. k = ''s'') demo_auth"
  have hdr: "wr_header (demo_bearer t) ''Authorization'' = ''Bearer '' @ t" for t by (simp add: demo_bearer_def)
  have ok: "?ok now ''abc'' c \<longleftrightarrow> c = demo_claims \<and> now < 1030" "?ok now ''ever'' c \<longleftrightarrow> c = demo_claims\<lparr>cl_expires_at := None\<rparr>"
    for now c
    by (auto simp: authentic_def demo_content_def demo_auth_def claims_accepted_def verify_options_def demo_claims_def)
  have main: "auth_main (\<lambda>k. if k = ''JWT_SECRET'' then ''s'' else '''') = Some demo_auth"
    by (simp add: auth_main_def getEnv_def demo_auth_def)
  have ver: "(\<forall>t' c. ''Bearer '' @ t = ''Bearer '' @ t' \<and> ?ok now t' c \<longrightarrow> accepted_calls c (demo_verify now t)) \<and>
      ((\<nexists>t' c. ''Bearer '' @ t = ''Bearer '' @ t' \<and> ?ok now t' c) \<longrightarrow> refused_calls (demo_verify now t))" for now t
    using verify_authenticates [where r = "demo_bearer t" and cfg = demo_auth and hijacker = True and s = no_metrics and now = now,
        OF documented_parse_ok [of demo_content "\<lambda>m k t. k = ''s''"] main]
    unfolding demo_verify_def hdr by (auto split: prod.splits)
  have "accepted_calls demo_claims (demo_verify 1029 ''abc'')" using ver [of "''abc''" 1029] ok(1) by simp
  moreover have "refused_calls (demo_verify 1030 ''abc'')" using ver [of "''abc''" 1030] ok(1) by simp
  moreover have "accepted_calls (demo_claims\<lparr>cl_expires_at := None\<rparr>) (demo_verify 1000000000 ''ever'')"
    using ver [of "''ever''" 1000000000] ok(2) by simp
  ultimately show ?thesis by blast
qed

end
