(* ===== verification/Service_Process.thy ===== *)
theory Service_Process
  imports Http_Middleware Service_Config
begin

text \<open>
  The life of a service process: what the four \<open>main\<close> functions open, in which order, which
  failures end the process, and how a signal stops it. A process is a computation that records
  its steps; \<open>os.Exit\<close> (and \<open>Fatal\<close> of the logger, which calls it) ends it at once, without the
  deferred calls, which otherwise run in reverse order. Whether a call of a library fails is
  decided by the parameter \<open>system\<close>. The connections (\<^verbatim>\<open>pkg/database/postgres.go\<close>,
  \<^verbatim>\<open>pkg/cache/redis.go\<close>), the logger and the tracer (\<^verbatim>\<open>pkg/logger\<close>, \<^verbatim>\<open>pkg/tracing\<close>) are set up here.
\<close>

subsection \<open>Processes\<close>

text \<open>What is open from some step on and should be closed again.\<close>

datatype resource =
    LoggerRes
  | TracerRes
  | DatabaseRes
  | RedisRes
  | PublisherRes
  | EventWriterRes
  | ConsumerRes
  | ServerRes

text \<open>The calls of libraries that can fail, with the arguments the program computes for them.\<close>

datatype ext_call =
    ZapBuild
  | OtlpLogExporter string
  | LogResource string
  | OtlpTraceExporter string
  | TraceResource string
  | SqlConnect string
  | SqlPing
  | RedisPing string string
  | ListenAndServe string
  | ServerShutdown
  | PublisherClose
  | DeadLetterWriterClose
  | ConsumerClose
  | RedisClose
  | SqlClose
  | TracerShutdown
  | LoggerShutdown
  | LogExporterShutdown
  | LogSync

datatype log_level = LvlInfo | LvlWarn | LvlError | LvlFatal

text \<open>\<open>Called\<close> records whether the context of the call was done.\<close>

datatype step =
    Called ext_call bool
  | Opened resource
  | Spawned string
  | Logged log_level string
  | Printed string
  | Cancelled
  | Signalled
  | Exited int

record system =
  sy_environ :: environ
  sy_fails :: "ext_call \<Rightarrow> go_error option"

record process =
  ps_steps :: "step list"
  ps_ctx_done :: bool

definition process_start :: process where
  "process_start = \<lparr>ps_steps = [], ps_ctx_done = False\<rparr>"

text \<open>The value is the exit code when the process has ended.\<close>

type_synonym 'a proc = "(process, int + 'a) state"

abbreviation okX :: "'a \<Rightarrow> 'a proc" where
  "okX x \<equiv> State_Monad.return (Inr x)"

definition bindX :: "'a proc \<Rightarrow> ('a \<Rightarrow> 'b proc) \<Rightarrow> 'b proc" where
  "bindX m k = State_Monad.bind m (\<lambda>r. case r of Inl n \<Rightarrow> State_Monad.return (Inl n) | Inr x \<Rightarrow> k x)"

definition seqX :: "unit proc \<Rightarrow> 'b proc \<Rightarrow> 'b proc" where
  "seqX m k = bindX m (\<lambda>_. k)"

text \<open>\<open>defer\<close>: the deferred call runs when the rest returns, not when the process exits.\<close>

definition deferX :: "unit proc \<Rightarrow> 'a proc \<Rightarrow> 'a proc" where
  "deferX fin m = bindX m (\<lambda>x. seqX fin (okX x))"

definition stepX :: "step \<Rightarrow> unit proc" where
  "stepX s = State (\<lambda>p. (Inr (), p\<lparr>ps_steps := ps_steps p @ [s]\<rparr>))"

definition logX :: "log_level \<Rightarrow> string \<Rightarrow> unit proc" where
  "logX lvl msg = stepX (Logged lvl msg)"

definition exitX :: "int \<Rightarrow> 'a proc" where
  "exitX n = State (\<lambda>p. (Inl n, p\<lparr>ps_steps := ps_steps p @ [Exited n]\<rparr>))"

definition fatalX :: "string \<Rightarrow> 'a proc" where
  "fatalX msg = seqX (logX LvlFatal msg) (exitX 1)"

definition cancelX :: "unit proc" where
  "cancelX = State (\<lambda>p. (Inr (), p\<lparr>ps_steps := ps_steps p @ [Cancelled], ps_ctx_done := True\<rparr>))"

text \<open>A call with the context of \<open>main\<close>, and one with a context of its own or none.\<close>

definition callX :: "system \<Rightarrow> ext_call \<Rightarrow> unit result proc" where
  "callX sys c = State (\<lambda>p.
     (Inr (case sy_fails sys c of None \<Rightarrow> Inr () | Some e \<Rightarrow> Inl e),
      p\<lparr>ps_steps := ps_steps p @ [Called c (ps_ctx_done p)]\<rparr>))"

definition call_background :: "system \<Rightarrow> ext_call \<Rightarrow> unit result proc" where
  "call_background sys c = State (\<lambda>p.
     (Inr (case sy_fails sys c of None \<Rightarrow> Inr () | Some e \<Rightarrow> Inl e), p\<lparr>ps_steps := ps_steps p @ [Called c False]\<rparr>))"

definition ignoreX :: "unit result proc \<Rightarrow> unit proc" where
  "ignoreX m = bindX m (\<lambda>_. okX ())"

text \<open>\<open>if err := m(); err != nil { log.Error(msg) }\<close>\<close>

definition log_failure :: "string \<Rightarrow> unit result proc \<Rightarrow> unit proc" where
  "log_failure msg m = bindX m (\<lambda>r. case r of Inl e \<Rightarrow> logX LvlError msg | Inr _ \<Rightarrow> okX ())"

text \<open>\<open>x, err := m(); if err != nil { return err }\<close> in a function that \<open>main\<close> calls.\<close>

definition tryX :: "'a result proc \<Rightarrow> ('a \<Rightarrow> 'b result proc) \<Rightarrow> 'b result proc" where
  "tryX m k = bindX m (\<lambda>r. case r of Inl e \<Rightarrow> okX (Inl e) | Inr x \<Rightarrow> k x)"

definition wrapX :: "string \<Rightarrow> 'a result proc \<Rightarrow> 'a result proc" where
  "wrapX msg m = bindX m (\<lambda>r. okX (case r of Inl e \<Rightarrow> Inl (Wrapped msg e) | Inr x \<Rightarrow> Inr x))"

lemma run_bindX [simp]:
  "run_state (bindX m k) p = (case run_state m p of (Inl n, p') \<Rightarrow> (Inl n, p') | (Inr x, p') \<Rightarrow> run_state (k x) p')"
  by (simp add: bindX_def split: prod.splits sum.splits)

lemma run_seqX [simp]:
  "run_state (seqX m k) p = (case run_state m p of (Inl n, p') \<Rightarrow> (Inl n, p') | (Inr x, p') \<Rightarrow> run_state k p')"
  by (simp add: seqX_def)

lemma run_stepX [simp]: "run_state (stepX s) p = (Inr (), p\<lparr>ps_steps := ps_steps p @ [s]\<rparr>)"
  by (simp add: stepX_def)

lemma run_exitX [simp]: "run_state (exitX n) p = (Inl n, p\<lparr>ps_steps := ps_steps p @ [Exited n]\<rparr>)"
  by (simp add: exitX_def)

lemma run_cancelX [simp]: "run_state cancelX p = (Inr (), p\<lparr>ps_steps := ps_steps p @ [Cancelled], ps_ctx_done := True\<rparr>)"
  by (simp add: cancelX_def)

lemma run_callX [simp]:
  "run_state (callX sys c) p = (Inr (case sy_fails sys c of None \<Rightarrow> Inr () | Some e \<Rightarrow> Inl e),
      p\<lparr>ps_steps := ps_steps p @ [Called c (ps_ctx_done p)]\<rparr>)"
  by (simp add: callX_def)

lemma run_call_background [simp]:
  "run_state (call_background sys c) p = (Inr (case sy_fails sys c of None \<Rightarrow> Inr () | Some e \<Rightarrow> Inl e),
      p\<lparr>ps_steps := ps_steps p @ [Called c False]\<rparr>)"
  by (simp add: call_background_def)

subsection \<open>The logger and the tracer\<close>

text \<open>
  \<open>InitLogger\<close>: the calls behind a logger and its clean-up, which runs with the context that
  \<open>InitLogger\<close> was given. Without an endpoint there is only the logger for the standard output.
\<close>

definition InitLogger :: "system \<Rightarrow> string \<Rightarrow> string \<Rightarrow> unit proc result proc" where
  "InitLogger sys service otelEndpoint =
     tryX (callX sys ZapBuild) (\<lambda>_.
     if otelEndpoint = '''' then okX (Inr (okX ()))
     else
       tryX (callX sys (OtlpLogExporter otelEndpoint)) (\<lambda>_. seqX (stepX (Opened LoggerRes)) (
       tryX (callX sys (LogResource service)) (\<lambda>_.
       okX (Inr (seqX (ignoreX (callX sys LoggerShutdown))
                (seqX (ignoreX (callX sys LogExporterShutdown))
                (ignoreX (call_background sys LogSync)))))))))"

text \<open>\<open>InitTracer\<close>; the shutdown it returns is given a context by its caller.\<close>

definition InitTracer :: "system \<Rightarrow> string \<Rightarrow> string \<Rightarrow> unit result proc" where
  "InitTracer sys serviceName collectorURL =
     tryX (callX sys (OtlpTraceExporter collectorURL)) (\<lambda>_. seqX (stepX (Opened TracerRes)) (
     callX sys (TraceResource serviceName)))"

definition otel_addr :: "system \<Rightarrow> string" where
  "otel_addr sys = getEnv (sy_environ sys) ''OTEL_EXPORTER_OTLP_ENDPOINT'' ''otel-collector:4317''"

definition with_logger :: "system \<Rightarrow> string \<Rightarrow> unit proc \<Rightarrow> unit proc" where
  "with_logger sys service rest =
     bindX (InitLogger sys service (otel_addr sys)) (\<lambda>r. case r of
       Inl e \<Rightarrow> seqX (stepX (Printed (''Failed to initialize logger: '' @ err_text e))) (exitX 1)
     | Inr cleanup \<Rightarrow> deferX cleanup rest)"

text \<open>A tracer that cannot be set up is only a warning.\<close>

definition with_tracer :: "system \<Rightarrow> string \<Rightarrow> unit proc \<Rightarrow> unit proc" where
  "with_tracer sys service rest =
     bindX (InitTracer sys service (otel_addr sys)) (\<lambda>r. case r of
       Inl e \<Rightarrow> seqX (logX LvlWarn ''Failed to initialize tracer'') rest
     | Inr _ \<Rightarrow> deferX (ignoreX (call_background sys TracerShutdown)) rest)"

subsection \<open>Connections\<close>

text \<open>The connection string of \<open>NewPostgresConnection\<close>.\<close>

definition dsn :: "DatabaseConfig \<Rightarrow> string" where
  "dsn cfg = ''host='' @ db_host cfg @ '' port='' @ itoa (db_port cfg) @ '' user='' @ db_user cfg @
     '' password='' @ db_password cfg @ '' dbname='' @ db_name cfg @ '' sslmode='' @ db_sslmode cfg"

definition NewPostgresConnection :: "system \<Rightarrow> DatabaseConfig \<Rightarrow> unit result proc" where
  "NewPostgresConnection sys cfg =
     tryX (wrapX ''failed to connect to database'' (call_background sys (SqlConnect (dsn cfg)))) (\<lambda>_.
     seqX (stepX (Opened DatabaseRes))
     (wrapX ''failed to ping database'' (call_background sys SqlPing)))"

definition NewRedisClient :: "system \<Rightarrow> RedisConfig \<Rightarrow> unit result proc" where
  "NewRedisClient sys cfg =
     seqX (stepX (Opened RedisRes))
     (wrapX ''failed to ping redis''
       (call_background sys (RedisPing (rc_host cfg @ '':'' @ itoa (rc_port cfg)) (rc_password cfg))))"

definition with_database :: "system \<Rightarrow> DatabaseConfig \<Rightarrow> unit proc \<Rightarrow> unit proc" where
  "with_database sys cfg rest =
     bindX (NewPostgresConnection sys cfg) (\<lambda>r. case r of
       Inl e \<Rightarrow> fatalX ''Failed to connect to database''
     | Inr _ \<Rightarrow> deferX (ignoreX (call_background sys SqlClose)) rest)"

definition with_redis :: "system \<Rightarrow> RedisConfig \<Rightarrow> unit proc \<Rightarrow> unit proc" where
  "with_redis sys cfg rest =
     bindX (NewRedisClient sys cfg) (\<lambda>r. case r of
       Inl e \<Rightarrow> fatalX ''Failed to connect to Redis''
     | Inr _ \<Rightarrow> deferX (ignoreX (call_background sys RedisClose)) rest)"

subsection \<open>Serving\<close>

definition ErrServerClosed :: go_error where
  "ErrServerClosed = Sentinel ''http: Server closed''"

text \<open>
  The goroutine of the server, and \<open>main\<close> waiting for a signal. \<open>ListenAndServe\<close> fails while
  \<open>main\<close> waits, which ends the process, or it serves until \<open>Shutdown\<close> makes it return
  \<open>ErrServerClosed\<close> (no failure in \<open>system\<close>).
\<close>

definition serve_until_signal :: "system \<Rightarrow> string \<Rightarrow> string \<Rightarrow> string \<Rightarrow> unit proc" where
  "serve_until_signal sys port starting failed =
     seqX (logX LvlInfo starting)
    (seqX (stepX (Opened ServerRes))
    (seqX (stepX (Spawned ''ListenAndServe''))
    (seqX (bindX (call_background sys (ListenAndServe ('':'' @ port))) (\<lambda>r. case r of
             Inl e \<Rightarrow> if e = ErrServerClosed then okX () else fatalX failed
           | Inr _ \<Rightarrow> okX ()))
    (stepX Signalled))))"

text \<open>\<open>server.Shutdown\<close> has a context of its own, with a time limit.\<close>

definition shutdown_server :: "system \<Rightarrow> unit proc" where
  "shutdown_server sys = log_failure ''Server forced to shutdown'' (call_background sys ServerShutdown)"

text \<open>
  \<open>Close\<close> of the consumer: the writer of dead letters, if it has one, whatever that returns, and
  the reader. \<open>Close\<close> of the publisher and of the producer: a writer that can be closed.
\<close>

definition Consumer_Close :: "system \<Rightarrow> bool \<Rightarrow> unit result proc" where
  "Consumer_Close sys has_writer =
     seqX (if has_writer then ignoreX (call_background sys DeadLetterWriterClose) else okX ())
       (call_background sys ConsumerClose)"

definition OutboxPublisher_Close :: "system \<Rightarrow> bool \<Rightarrow> unit result proc" where
  "OutboxPublisher_Close sys closable = (if closable then call_background sys PublisherClose else okX (Inr ()))"

text \<open>
  The publisher of the order service writes with a \<open>kafka.Writer\<close>, which can be closed; the
  consumers of both services name no topic for dead letters and so have no writer for them.
\<close>

lemma close_deployed [simp]:
  "Consumer_Close sys False = call_background sys ConsumerClose"
  "OutboxPublisher_Close sys True = call_background sys PublisherClose"
  by (simp_all add: Consumer_Close_def OutboxPublisher_Close_def seqX_def bindX_def)

subsection \<open>The four services\<close>

text \<open>
  \<open>EventWriterRes\<close> is the \<open>kafka.Writer\<close> that the mains of the order and the inventory service
  make for the handler of their events, \<open>inventoryEventWriter\<close> and \<open>failedEventWriter\<close>.
\<close>

definition order_service_main :: "system \<Rightarrow> unit proc" where
  "order_service_main sys =
     (let cfg = Config_Load (sy_environ sys)
      in deferX cancelX (with_logger sys ''order-service'' (with_tracer sys ''order-service'' (
         with_database sys (cf_database cfg) (with_redis sys (cf_redis cfg) (
         seqX (stepX (Opened PublisherRes))
        (seqX (stepX (Spawned ''outboxPublisher.Start''))
        (seqX (stepX (Opened EventWriterRes))
        (seqX (stepX (Opened ConsumerRes))
        (seqX (stepX (Spawned ''inventoryConsumer.Start''))
        (seqX (serve_until_signal sys (sc_http_port (cf_server cfg)) ''Starting order service'' ''Failed to start server'')
        (seqX (logX LvlInfo ''Shutting down order service...'')
        (seqX cancelX
        (seqX (shutdown_server sys)
        (seqX (log_failure ''Failed to close outbox publisher'' (OutboxPublisher_Close sys True))
        (seqX (log_failure ''Failed to close inventory consumer'' (Consumer_Close sys False))
        (logX LvlInfo ''Order service stopped cleanly'')))))))))))))))))"

text \<open>The inventory service does not cancel its context before it stops the server.\<close>

definition inventory_service_main :: "system \<Rightarrow> unit proc" where
  "inventory_service_main sys =
     (let cfg = Config_Load (sy_environ sys)
      in deferX cancelX (with_logger sys ''inventory-service'' (with_tracer sys ''inventory-service'' (
         with_database sys (cf_database cfg) (with_redis sys (cf_redis cfg) (
         seqX (stepX (Opened EventWriterRes))
        (seqX (stepX (Opened ConsumerRes))
        (seqX (stepX (Spawned ''orderConsumer.Start''))
        (seqX (serve_until_signal sys (sc_http_port (cf_server cfg)) ''Starting inventory service'' ''Failed to start server'')
        (seqX (logX LvlInfo ''Shutting down inventory service...'')
        (seqX (shutdown_server sys)
        (seqX (log_failure ''Failed to close order consumer'' (Consumer_Close sys False))
        (logX LvlInfo ''Inventory service stopped cleanly'')))))))))))))"

text \<open>The WebSocket service makes its Redis client itself, pings with its own context, and logs a failed close.\<close>

definition with_redis_client :: "system \<Rightarrow> RedisConfig \<Rightarrow> unit proc \<Rightarrow> unit proc" where
  "with_redis_client sys cfg rest =
     seqX (stepX (Opened RedisRes))
    (bindX (callX sys (RedisPing (rc_host cfg @ '':'' @ itoa (rc_port cfg)) (rc_password cfg))) (\<lambda>r. case r of
       Inl e \<Rightarrow> fatalX ''Failed to connect to Redis''
     | Inr _ \<Rightarrow> deferX (log_failure ''Failed to close redis client'' (call_background sys RedisClose)) rest))"

definition websocket_service_main :: "system \<Rightarrow> unit proc" where
  "websocket_service_main sys =
     (let cfg = Config_Load (sy_environ sys)
      in deferX cancelX (with_logger sys ''websocket-service'' (with_tracer sys ''websocket-service'' (
         with_redis_client sys (cf_redis cfg) (
         seqX (stepX (Spawned ''hub.Run''))
        (seqX (stepX (Spawned ''subscriber.Start''))
        (seqX (serve_until_signal sys (sc_http_port (cf_server cfg)) ''Starting websocket service'' ''Failed to start server'')
        (seqX (logX LvlInfo ''Shutting down websocket service...'')
        (seqX cancelX
        (seqX (shutdown_server sys)
        (logX LvlInfo ''Websocket service stopped cleanly'')))))))))))"

definition auth_service_main :: "system \<Rightarrow> unit proc" where
  "auth_service_main sys =
     deferX cancelX (with_logger sys ''auth-service'' (
       if sy_environ sys ''JWT_SECRET'' = '''' then fatalX ''JWT_SECRET is required''
       else with_tracer sys ''auth-service'' (
         seqX (serve_until_signal sys (getEnv (sy_environ sys) ''HTTP_PORT'' ''8083'') ''Auth service starting'' ''Server failed to start'')
        (seqX (logX LvlInfo ''Shutting down auth service...'')
        (seqX cancelX
        (seqX (shutdown_server sys)
        (logX LvlInfo ''Auth service stopped cleanly'')))))))"

datatype service = OrderService | InventoryService | WebsocketService | AuthService

fun service_main :: "service \<Rightarrow> system \<Rightarrow> unit proc" where
  "service_main OrderService = order_service_main"
| "service_main InventoryService = inventory_service_main"
| "service_main WebsocketService = websocket_service_main"
| "service_main AuthService = auth_service_main"

subsection \<open>What a run opened and closed\<close>

fun closes :: "ext_call \<Rightarrow> resource list" where
  "closes ServerShutdown = [ServerRes]"
| "closes PublisherClose = [PublisherRes]"
| "closes ConsumerClose = [ConsumerRes]"
| "closes RedisClose = [RedisRes]"
| "closes SqlClose = [DatabaseRes]"
| "closes TracerShutdown = [TracerRes]"
| "closes LoggerShutdown = [LoggerRes]"
| "closes _ = []"

fun closings :: "step list \<Rightarrow> resource list" where
  "closings [] = []"
| "closings (Called c d # tr) = closes c @ closings tr"
| "closings (_ # tr) = closings tr"

fun openings :: "step list \<Rightarrow> resource list" where
  "openings [] = []"
| "openings (Opened r # tr) = r # openings tr"
| "openings (_ # tr) = openings tr"

text \<open>For each flush of the logger whether its context was done.\<close>

fun flushes :: "step list \<Rightarrow> bool list" where
  "flushes [] = []"
| "flushes (Called LoggerShutdown d # tr) = d # flushes tr"
| "flushes (_ # tr) = flushes tr"

lemma steps_append [simp]:
  "closings (tr @ tr') = closings tr @ closings tr'" "openings (tr @ tr') = openings tr @ openings tr'"
  "flushes (tr @ tr') = flushes tr @ flushes tr'"
  by (induction tr rule: flushes.induct) simp_all

text \<open>A failure that is only logged.\<close>

definition failure_log :: "system \<Rightarrow> ext_call \<Rightarrow> string \<Rightarrow> step list" where
  "failure_log sys c msg = (if sy_fails sys c = None then [] else [Logged LvlError msg])"

lemma failure_log_steps [simp]:
  "closings (failure_log sys c msg) = []" "openings (failure_log sys c msg) = []" "flushes (failure_log sys c msg) = []"
  by (simp_all add: failure_log_def)

lemma run_log_failure [simp]:
  "run_state (log_failure msg (call_background sys c)) p =
     (Inr (), p\<lparr>ps_steps := ps_steps p @ Called c False # failure_log sys c msg\<rparr>)"
  by (simp add: log_failure_def failure_log_def logX_def split: option.splits)

lemma run_ignoreX [simp]:
  "run_state (ignoreX (call_background sys c)) p = (Inr (), p\<lparr>ps_steps := ps_steps p @ [Called c False]\<rparr>)"
  "run_state (ignoreX (callX sys c)) p = (Inr (), p\<lparr>ps_steps := ps_steps p @ [Called c (ps_ctx_done p)]\<rparr>)"
  by (simp_all add: ignoreX_def)

lemmas process_defs = with_logger_def with_tracer_def with_database_def with_redis_def with_redis_client_def InitLogger_def
  InitTracer_def NewPostgresConnection_def NewRedisClient_def serve_until_signal_def shutdown_server_def fatalX_def logX_def
  tryX_def wrapX_def deferX_def Let_def order_service_main_def inventory_service_main_def websocket_service_main_def
  auth_service_main_def process_start_def

lemma getEnv_nonempty [simp]: "d \<noteq> '''' \<Longrightarrow> getEnv env k d \<noteq> ''''"
  by (simp add: getEnv_def)

lemma otel_addr_nonempty [simp]: "otel_addr sys \<noteq> ''''"
  by (simp add: otel_addr_def)

subsection \<open>Starting\<close>

text \<open>The calls a service cannot do without, in their order; the tracer is not among them.\<close>

definition logger_calls :: "system \<Rightarrow> string \<Rightarrow> ext_call list" where
  "logger_calls sys name = [ZapBuild, OtlpLogExporter (otel_addr sys), LogResource name]"

definition redis_ping :: "system \<Rightarrow> ext_call" where
  "redis_ping sys = (let cfg = cf_redis (Config_Load (sy_environ sys))
     in RedisPing (rc_host cfg @ '':'' @ itoa (rc_port cfg)) (rc_password cfg))"

definition store_calls :: "system \<Rightarrow> ext_call list" where
  "store_calls sys = [SqlConnect (dsn (cf_database (Config_Load (sy_environ sys)))), SqlPing, redis_ping sys]"

definition listen_call :: "system \<Rightarrow> ext_call" where
  "listen_call sys = ListenAndServe ('':'' @ sc_http_port (cf_server (Config_Load (sy_environ sys))))"

fun mandatory :: "system \<Rightarrow> service \<Rightarrow> ext_call list" where
  "mandatory sys OrderService = logger_calls sys ''order-service'' @ store_calls sys @ [listen_call sys]"
| "mandatory sys InventoryService = logger_calls sys ''inventory-service'' @ store_calls sys @ [listen_call sys]"
| "mandatory sys WebsocketService = logger_calls sys ''websocket-service'' @ [redis_ping sys, listen_call sys]"
| "mandatory sys AuthService = logger_calls sys ''auth-service'' @
     [ListenAndServe ('':'' @ getEnv (sy_environ sys) ''HTTP_PORT'' ''8083'')]"

fun available :: "system \<Rightarrow> ext_call \<Rightarrow> bool" where
  "available sys (ListenAndServe a) = (sy_fails sys (ListenAndServe a) \<in> {None, Some ErrServerClosed})"
| "available sys c = (sy_fails sys c = None)"

definition can_start :: "system \<Rightarrow> service \<Rightarrow> bool" where
  "can_start sys svc \<longleftrightarrow> list_all (available sys) (mandatory sys svc) \<and>
     (svc = AuthService \<longrightarrow> sy_environ sys ''JWT_SECRET'' \<noteq> '''')"

lemmas start_defs = can_start_def logger_calls_def store_calls_def redis_ping_def listen_call_def

text \<open>
  C39: which failures end a service, and how. A service stays up until its signal and then
  returns from \<open>main\<close> exactly when every call it cannot do without succeeds (and, for the
  authentication service, a secret is configured); otherwise the process ends with exit code 1
  and, since \<open>os.Exit\<close> runs no deferred call, without closing anything it had opened and
  without flushing the log that says why.
\<close>

theorem service_start:
  "case run_state (service_main svc sys) process_start of (r, p) \<Rightarrow>
     if can_start sys svc then r = Inr () else r = Inl 1 \<and> closings (ps_steps p) = [] \<and> last (ps_steps p) = Exited 1"
  by (cases svc) (auto simp: process_defs start_defs split: option.splits if_splits sum.splits)

subsection \<open>Stopping\<close>

definition service_name :: "service \<Rightarrow> string" where
  "service_name svc = (case svc of OrderService \<Rightarrow> ''order-service'' | InventoryService \<Rightarrow> ''inventory-service''
     | WebsocketService \<Rightarrow> ''websocket-service'' | AuthService \<Rightarrow> ''auth-service'')"

text \<open>The order in which a service stops its parts, the logger and the tracer aside.\<close>

fun stop_order :: "service \<Rightarrow> resource list" where
  "stop_order OrderService = [ServerRes, PublisherRes, ConsumerRes, RedisRes, DatabaseRes]"
| "stop_order InventoryService = [ServerRes, ConsumerRes, RedisRes, DatabaseRes]"
| "stop_order WebsocketService = [ServerRes, RedisRes]"
| "stop_order AuthService = [ServerRes]"

text \<open>The exporter of the traces is open; the tracer was set up completely.\<close>

definition exports :: "system \<Rightarrow> bool" where
  "exports sys \<longleftrightarrow> sy_fails sys (OtlpTraceExporter (otel_addr sys)) = None"

definition traced :: "system \<Rightarrow> service \<Rightarrow> bool" where
  "traced sys svc \<longleftrightarrow> exports sys \<and> sy_fails sys (TraceResource (service_name svc)) = None"

text \<open>
  What a stop leaves open: the writer of the event handlers, and the exporter of a tracer that
  was set up only in part.
\<close>

definition left_open :: "system \<Rightarrow> service \<Rightarrow> resource list" where
  "left_open sys svc = (if svc \<in> {OrderService, InventoryService} then [EventWriterRes] else []) @
     (if exports sys \<and> \<not> traced sys svc then [TracerRes] else [])"

lemmas stop_defs = traced_def exports_def left_open_def service_name_def

text \<open>
  C38: how a signal stops a service. Whatever the calls that close something return, \<open>main\<close>
  returns after it has closed, in this order: the server, so that no new request comes in, the
  publisher and the consumer, Redis and the database, the tracer and last the logger. Each
  thing \<open>main\<close> opened is opened once and closed once, with two exceptions that are never
  closed: the \<open>kafka.Writer\<close> the order and the inventory service make for their event handler,
  and the exporter of the traces when the rest of the tracer could not be set up. The
  goroutines and the handlers that may still be running then are not part of this statement.
\<close>

theorem service_stops_in_order:
  assumes "can_start sys svc"
  shows "case run_state (service_main svc sys) process_start of (r, p) \<Rightarrow>
    r = Inr () \<and> closings (ps_steps p) = stop_order svc @ (if traced sys svc then [TracerRes] else []) @ [LoggerRes] \<and>
    set (openings (ps_steps p)) = set (closings (ps_steps p) @ left_open sys svc) \<and>
    distinct (openings (ps_steps p)) \<and> distinct (closings (ps_steps p) @ left_open sys svc)"
  using assms
  by (cases svc) (auto simp: process_defs start_defs stop_defs split: option.splits if_splits sum.splits)

text \<open>
  The flush of the log on a clean stop runs with a context that is done already, in every
  service but the inventory service: \<open>main\<close> cancels the context it gave to \<open>InitLogger\<close> first.
\<close>

theorem flush_context:
  assumes "can_start sys svc"
  shows "flushes (ps_steps (snd (run_state (service_main svc sys) process_start))) = [svc \<noteq> InventoryService]"
  using assms
  by (cases svc) (auto simp: process_defs start_defs split: option.splits if_splits sum.splits)

definition demo_system :: system where
  "demo_system = \<lparr>sy_environ = (\<lambda>k. if k = ''JWT_SECRET'' then ''s'' else ''''), sy_fails = (\<lambda>c. if c = PublisherClose then Some ErrServerClosed else None)\<rparr>"

theorem service_stops_in_order_witness:
  "closings (ps_steps (snd (run_state (service_main OrderService demo_system) process_start))) =
     [ServerRes, PublisherRes, ConsumerRes, RedisRes, DatabaseRes, TracerRes, LoggerRes] \<and>
   set (openings (ps_steps (snd (run_state (service_main OrderService demo_system) process_start)))) =
     {ServerRes, PublisherRes, ConsumerRes, RedisRes, DatabaseRes, TracerRes, LoggerRes, EventWriterRes}"
proof -
  have "can_start demo_system OrderService" by (simp add: start_defs demo_system_def Let_def)
  from service_stops_in_order [OF this] show ?thesis
    by (simp add: stop_defs demo_system_def insert_commute split: prod.splits)
qed

subsection \<open>The connection string\<close>

text \<open>
  A connection string as PostgreSQL documents it, for values without quotes and backslashes:
  settings separated by spaces, each a keyword, an equals sign and a value.
\<close>

fun split_on :: "char \<Rightarrow> string \<Rightarrow> string list" where
  "split_on c [] = [[]]"
| "split_on c (x # xs) = (if x = c then [] # split_on c xs
     else (case split_on c xs of [] \<Rightarrow> [[x]] | y # ys \<Rightarrow> (x # y) # ys))"

definition setting :: "string \<Rightarrow> string \<times> string" where
  "setting s = (takeWhile (\<lambda>c. c \<noteq> CHR ''='') s, drop 1 (dropWhile (\<lambda>c. c \<noteq> CHR ''='') s))"

definition settings :: "string \<Rightarrow> (string \<times> string) list" where
  "settings s = map setting (split_on CHR '' '' s)"

lemma split_on_append: "c \<notin> set xs \<Longrightarrow> split_on c (xs @ c # ys) = xs # split_on c ys"
  by (induction xs) auto

lemma split_on_single: "c \<notin> set xs \<Longrightarrow> split_on c xs = [xs]"
  by (induction xs) auto

lemma digits_no_space: "CHR '' '' \<notin> set (digits_of n)"
proof (induction n rule: digits_of.induct)
  case (1 n)
  have d: "char_of (48 + k) \<noteq> CHR '' ''" if "k < 10" for k :: nat
  proof
    assume "char_of (48 + k) = CHR '' ''"
    then have "of_char (char_of (48 + k) :: char) = (of_char (CHR '' '') :: nat)" by simp
    then show False using that by simp
  qed
  show ?case
    using 1 d [of n] d [of "n mod 10"] by (subst digits_of.simps) auto
qed

lemma itoa_no_space: "CHR '' '' \<notin> set (itoa i)"
  using digits_no_space by (simp add: itoa_def)

definition spaceless :: "string \<Rightarrow> bool" where
  "spaceless s \<longleftrightarrow> CHR '' '' \<notin> set s"

text \<open>
  The connection string of \<open>NewPostgresConnection\<close> carries exactly the configuration, as long
  as no value of the environment has a space in it; nothing quotes the values.
\<close>

theorem dsn_settings:
  assumes "spaceless (db_host cfg)" and "spaceless (db_user cfg)" and "spaceless (db_password cfg)"
    and "spaceless (db_name cfg)" and "spaceless (db_sslmode cfg)"
  shows "settings (dsn cfg) = [(''host'', db_host cfg), (''port'', itoa (db_port cfg)), (''user'', db_user cfg),
    (''password'', db_password cfg), (''dbname'', db_name cfg), (''sslmode'', db_sslmode cfg)]"
proof -
  have "dsn cfg = (''host='' @ db_host cfg) @ CHR '' '' # (''port='' @ itoa (db_port cfg)) @ CHR '' '' # (''user='' @ db_user cfg) @
      CHR '' '' # (''password='' @ db_password cfg) @ CHR '' '' # (''dbname='' @ db_name cfg) @
      CHR '' '' # (''sslmode='' @ db_sslmode cfg)"
    by (simp add: dsn_def)
  moreover have "split_on CHR '' '' (dsn cfg) = [''host='' @ db_host cfg, ''port='' @ itoa (db_port cfg), ''user='' @ db_user cfg,
      ''password='' @ db_password cfg, ''dbname='' @ db_name cfg, ''sslmode='' @ db_sslmode cfg]"
    unfolding calculation
    by (subst split_on_append, use assms itoa_no_space in \<open>simp add: spaceless_def\<close>)+
      (subst split_on_single, use assms in \<open>simp add: spaceless_def\<close>, rule refl)
  ultimately show ?thesis by (simp add: settings_def setting_def)
qed

text \<open>With a space in the password the rest of it becomes settings of its own.\<close>

theorem dsn_password_injects:
  assumes "spaceless (db_host cfg)" and "spaceless (db_user cfg)"
  shows "settings (dsn (cfg\<lparr>db_password := ''x host=y'', db_name := n, db_sslmode := m\<rparr>)) ! 4 = (''host'', ''y'')"
proof -
  have "dsn (cfg\<lparr>db_password := ''x host=y'', db_name := n, db_sslmode := m\<rparr>) =
      (''host='' @ db_host cfg) @ CHR '' '' # (''port='' @ itoa (db_port cfg)) @ CHR '' '' # (''user='' @ db_user cfg) @
      CHR '' '' # ''password=x'' @ CHR '' '' # ''host=y'' @ CHR '' '' # (''dbname='' @ n @ '' sslmode='' @ m)"
    by (simp add: dsn_def)
  moreover have "split_on CHR '' '' \<dots> = (''host='' @ db_host cfg) # (''port='' @ itoa (db_port cfg)) # (''user='' @ db_user cfg) #
      ''password=x'' # ''host=y'' # split_on CHR '' '' (''dbname='' @ n @ '' sslmode='' @ m)"
    by (subst split_on_append, use assms itoa_no_space in \<open>simp add: spaceless_def\<close>)+ (rule refl)
  ultimately show ?thesis by (simp add: settings_def setting_def)
qed

end
