(* ===== verification/Service_Routes.thy ===== *)
theory Service_Routes
  imports Order_Http Inventory_Http Service_Process
begin

text \<open>
  The routers of the order and the inventory service (\<^verbatim>\<open>cmd/order-service/main.go\<close>,
  \<^verbatim>\<open>cmd/inventory-service/main.go\<close>): the routes of the handlers under their mount points,
  \<open>/health\<close> and \<open>/metrics\<close>, behind the middlewares for metrics and traces. chi is a parameter,
  as is the page of \<open>promhttp\<close>: given the routes, a method and a path chi answers with a refusal
  or chooses an endpoint and the values of its parameters. The theory shows that the routes are
  unambiguous and which request reaches which handler. The middlewares of chi itself (its log,
  the recovery of panics, request ids) are left out.
\<close>

subsection \<open>Routes\<close>

text \<open>Method, pattern and endpoint; the empty method stands for every method (\<open>router.Handle\<close>).\<close>

type_synonym 'e routes = "(string \<times> string \<times> 'e) list"
type_synonym params = "(string \<times> string) list"

datatype 'e page = Api 'e | Health | Metrics

text \<open>\<open>router.Mount\<close>: the root of the mounted router answers with and without a final slash.\<close>

definition Mount :: "string \<Rightarrow> 'e routes \<Rightarrow> 'e page routes" where
  "Mount base rs = concat (map (\<lambda>(m, p, e).
     if p = ''/'' then [(m, base, Api e), (m, base @ ''/'', Api e)] else [(m, base @ p, Api e)]) rs)"

definition order_router :: "order_endpoint page routes" where
  "order_router = Mount ''/api/orders'' order_Routes @ [(''GET'', ''/health'', Health), ('''', ''/metrics'', Metrics)]"

definition inventory_router :: "inventory_endpoint page routes" where
  "inventory_router = Mount ''/api/inventory'' inventory_Routes @ [(''GET'', ''/health'', Health), ('''', ''/metrics'', Metrics)]"

subsection \<open>What chi documents\<close>

definition segments :: "string \<Rightarrow> string list" where
  "segments path = split_on CHR ''/'' path"

definition is_param :: "string \<Rightarrow> bool" where
  "is_param p \<longleftrightarrow> p \<noteq> '''' \<and> hd p = CHR ''{'' \<and> last p = CHR ''}''"

definition param_name :: "string \<Rightarrow> string" where
  "param_name p = butlast (tl p)"

text \<open>A parameter matches one segment, everything else only itself.\<close>

fun match_segs :: "string list \<Rightarrow> string list \<Rightarrow> params option" where
  "match_segs [] [] = Some []"
| "match_segs (p # ps) (s # ss) =
     (if is_param p then if s = '''' then None else map_option (Cons (param_name p, s)) (match_segs ps ss)
      else if p = s then match_segs ps ss else None)"
| "match_segs _ _ = None"

definition route_matches :: "'e routes \<Rightarrow> string \<Rightarrow> string list \<Rightarrow> ('e \<times> params) list" where
  "route_matches rs m segs = concat (map (\<lambda>(m', p, e).
     if m' = m \<or> m' = '''' then (case match_segs (segments p) segs of None \<Rightarrow> [] | Some ps \<Rightarrow> [(e, ps)]) else []) rs)"

definition http_methods :: "string list" where
  "http_methods = [''CONNECT'', ''DELETE'', ''GET'', ''HEAD'', ''OPTIONS'', ''PATCH'', ''POST'', ''PUT'', ''TRACE'']"

text \<open>
  A request whose routing is documented: a method chi knows and a path with no empty segment but
  perhaps the last.
\<close>

definition routable :: "string \<Rightarrow> string \<Rightarrow> bool" where
  "routable m path \<longleftrightarrow> m \<in> set http_methods \<and>
     (case segments path of [] \<Rightarrow> False | s # ss \<Rightarrow> s = '''' \<and> ss \<noteq> [] \<and> '''' \<notin> set (butlast ss))"

text \<open>
  Patterns of literal segments and of parameters \<open>{name}\<close>, the only ones the services use: no
  regular expression (\<open>{name:regexp}\<close>), no wildcard and no parameter inside a segment.
\<close>

definition plain_segment :: "string \<Rightarrow> bool" where
  "plain_segment p \<longleftrightarrow> list_all (\<lambda>c. c \<notin> set ''{}:*'') (if is_param p then param_name p else p)"

definition plain_routes :: "'e routes \<Rightarrow> bool" where
  "plain_routes rs \<longleftrightarrow> list_all (\<lambda>(m, p, e). list_all plain_segment (segments p)) rs"

text \<open>The label is the pattern that the metrics middleware reads afterwards.\<close>

type_synonym 'e chi = "'e routes \<Rightarrow> string \<Rightarrow> string \<Rightarrow> string \<times> (wcall list + 'e \<times> params)"

definition chi_documented :: "'e chi \<Rightarrow> bool" where
  "chi_documented chi \<longleftrightarrow> (\<forall>rs m path. plain_routes rs \<and> routable m path \<longrightarrow>
     (case snd (chi rs m path) of
        Inl calls \<Rightarrow> route_matches rs m (segments path) = [] \<and> status_sent calls \<in> {404, 405}
      | Inr x \<Rightarrow> x \<in> set (route_matches rs m (segments path))))"

subsection \<open>The services behind their routers\<close>

record 'd http_service = http_metrics +
  hs_world :: "'d world"

definition URLParam :: "params \<Rightarrow> string \<Rightarrow> string" where
  "URLParam ps k = (case map_of ps k of None \<Rightarrow> '''' | Some v \<Rightarrow> v)"

text \<open>The query and the body of the request, which the middlewares do not look at.\<close>

record request_rest =
  rr_query :: "string \<Rightarrow> string"
  rr_body :: json_text

definition handler_request :: "request_rest \<Rightarrow> params \<Rightarrow> (string \<Rightarrow> string) \<Rightarrow> HttpRequest" where
  "handler_request rest ps header =
     \<lparr>hq_param = URLParam ps, hq_query = rr_query rest, hq_header = header, hq_body = rr_body rest\<rparr>"

definition serve_page ::
  "(json \<Rightarrow> string) \<Rightarrow> ('d http_service \<Rightarrow> wcall list) \<Rightarrow> ('e \<Rightarrow> HttpRequest \<Rightarrow> ('d, HttpResponse) io) \<Rightarrow> request_rest
   \<Rightarrow> 'e page \<Rightarrow> params \<Rightarrow> WireRequest \<Rightarrow> bool \<Rightarrow> 'd http_service \<Rightarrow> wcall list \<times> 'd http_service" where
  "serve_page enc prom endpoint rest page ps r hijacker s =
     (case page of
        Api e \<Rightarrow> (case run_state (endpoint e (handler_request rest ps (wr_header r))) (hs_world s) of
                    (p, w) \<Rightarrow> (response_calls enc p, s\<lparr>hs_world := w\<rparr>))
      | Health \<Rightarrow> health_handler r hijacker s
      | Metrics \<Rightarrow> (prom s, s))"

definition serve_routed ::
  "'e page chi \<Rightarrow> string \<Rightarrow> 'e page routes \<Rightarrow> (json \<Rightarrow> string) \<Rightarrow> ('d http_service \<Rightarrow> wcall list)
   \<Rightarrow> ('e \<Rightarrow> HttpRequest \<Rightarrow> ('d, HttpResponse) io) \<Rightarrow> request_rest \<Rightarrow> WireRequest \<Rightarrow> bool \<Rightarrow> 'd http_service
   \<Rightarrow> wcall list \<times> 'd http_service" where
  "serve_routed chi service rs enc prom endpoint rest r hijacker s =
     (case chi rs (wr_method r) (wr_path r) of (label, choice) \<Rightarrow>
        service_stack service
          (case choice of Inl calls \<Rightarrow> (\<lambda>r hijacker s. (calls, s)) | Inr (page, ps) \<Rightarrow> serve_page enc prom endpoint rest page ps)
          (r\<lparr>wr_pattern := label\<rparr>) hijacker s)"

definition order_service_http ::
  "order_endpoint page chi \<Rightarrow> (json \<Rightarrow> string) \<Rightarrow> (order_db http_service \<Rightarrow> wcall list) \<Rightarrow> order_db env \<Rightarrow> request_rest
   \<Rightarrow> WireRequest \<Rightarrow> bool \<Rightarrow> order_db http_service \<Rightarrow> wcall list \<times> order_db http_service" where
  "order_service_http chi enc prom env =
     serve_routed chi ''order-service'' order_router enc prom (order_endpoint_handler env (orderUC env))"

definition inventory_service_http ::
  "inventory_endpoint page chi \<Rightarrow> (json \<Rightarrow> string) \<Rightarrow> (inv_db http_service \<Rightarrow> wcall list) \<Rightarrow> inv_db env \<Rightarrow> request_rest
   \<Rightarrow> WireRequest \<Rightarrow> bool \<Rightarrow> inv_db http_service \<Rightarrow> wcall list \<times> inv_db http_service" where
  "inventory_service_http chi enc prom env =
     serve_routed chi ''inventory-service'' inventory_router enc prom (inventory_endpoint_handler env (inventoryUC env))"

subsection \<open>Which request reaches which handler\<close>

text \<open>The pages by method and segments, as the documentation of the API lists them.\<close>

definition common_target :: "string \<Rightarrow> string list \<Rightarrow> ('e page \<times> params) option" where
  "common_target m segs =
     (if segs = ['''', ''health''] \<and> m = ''GET'' then Some (Health, [])
      else if segs = ['''', ''metrics''] then Some (Metrics, [])
      else None)"

definition order_collection :: "string \<Rightarrow> (order_endpoint page \<times> params) option" where
  "order_collection m =
     (if m = ''POST'' then Some (Api EpCreateOrder, []) else if m = ''GET'' then Some (Api EpListOrders, []) else None)"

definition order_target :: "string \<Rightarrow> string list \<Rightarrow> (order_endpoint page \<times> params) option" where
  "order_target m segs =
     (case segs of
        [_, a, b] \<Rightarrow> if a = ''api'' \<and> b = ''orders'' then order_collection m else None
      | [_, a, b, i] \<Rightarrow>
          if a = ''api'' \<and> b = ''orders''
          then if i = '''' then order_collection m else if m = ''GET'' then Some (Api EpGetOrder, [(''id'', i)]) else None
          else None
      | [_, a, b, i, c] \<Rightarrow>
          if a = ''api'' \<and> b = ''orders'' \<and> c = ''cancel'' \<and> m = ''POST'' then Some (Api EpCancelOrder, [(''id'', i)]) else None
      | _ \<Rightarrow> common_target m segs)"

definition inventory_target :: "string \<Rightarrow> string list \<Rightarrow> (inventory_endpoint page \<times> params) option" where
  "inventory_target m segs =
     (case segs of
        [_, a, b, c] \<Rightarrow>
          if a = ''api'' \<and> b = ''inventory'' \<and> c = ''reserve'' \<and> m = ''POST'' then Some (Api EpReserveStock, [])
          else if a = ''api'' \<and> b = ''inventory'' \<and> c = ''stock'' \<and> m = ''PUT'' then Some (Api EpUpdateStock, [])
          else None
      | [_, a, b, c, i] \<Rightarrow>
          if a = ''api'' \<and> b = ''inventory'' \<and> c = ''stock'' \<and> i \<noteq> '''' \<and> m = ''GET''
          then Some (Api EpGetStock, [(''product_id'', i)])
          else if a = ''api'' \<and> b = ''inventory'' \<and> c = ''release'' \<and> i \<noteq> '''' \<and> m = ''POST''
          then Some (Api EpReleaseReservation, [(''reservation_id'', i)])
          else None
      | _ \<Rightarrow> common_target m segs)"

text \<open>
  What a service owes to its routes: a reference that says which page a request is for. The
  routes are unambiguous when a request matches the one route of its page and no other.
\<close>

locale route_table =
  fixes rs :: "'e page routes" and target :: "string \<Rightarrow> string list \<Rightarrow> ('e page \<times> params) option"
  assumes plain: "plain_routes rs"
    and matches_target: "routable m path \<Longrightarrow>
    route_matches rs m (segments path) = (case target m (segments path) of None \<Rightarrow> [] | Some x \<Rightarrow> [x])"
begin

lemma chi_target:
  assumes "chi_documented chi" and "routable m path"
  shows "(case target m (segments path) of
      None \<Rightarrow> (\<exists>calls. snd (chi rs m path) = Inl calls \<and> status_sent calls \<in> {404, 405})
    | Some x \<Rightarrow> snd (chi rs m path) = Inr x)"
proof -
  have "case snd (chi rs m path) of
      Inl calls \<Rightarrow> route_matches rs m (segments path) = [] \<and> status_sent calls \<in> {404, 405}
    | Inr x \<Rightarrow> x \<in> set (route_matches rs m (segments path))"
    using assms plain by (simp add: chi_documented_def)
  then show ?thesis
    using matches_target [OF assms(2)] by (auto split: sum.splits option.splits)
qed

end

lemma plain_routers: "plain_routes order_router" "plain_routes inventory_router"
  by code_simp+

lemma order_patterns:
  "map (\<lambda>(m, p, e). (m, segments p, e)) order_router =
     [(''POST'', ['''', ''api'', ''orders''], Api EpCreateOrder), (''POST'', ['''', ''api'', ''orders'', ''''], Api EpCreateOrder),
      (''GET'', ['''', ''api'', ''orders'', ''{id}''], Api EpGetOrder), (''GET'', ['''', ''api'', ''orders''], Api EpListOrders),
      (''GET'', ['''', ''api'', ''orders'', ''''], Api EpListOrders),
      (''POST'', ['''', ''api'', ''orders'', ''{id}'', ''cancel''], Api EpCancelOrder),
      (''GET'', ['''', ''health''], Health), ('''', ['''', ''metrics''], Metrics)]"
  by code_simp

lemma inventory_patterns:
  "map (\<lambda>(m, p, e). (m, segments p, e)) inventory_router =
     [(''GET'', ['''', ''api'', ''inventory'', ''stock'', ''{product_id}''], Api EpGetStock),
      (''POST'', ['''', ''api'', ''inventory'', ''reserve''], Api EpReserveStock),
      (''POST'', ['''', ''api'', ''inventory'', ''release'', ''{reservation_id}''], Api EpReleaseReservation),
      (''PUT'', ['''', ''api'', ''inventory'', ''stock''], Api EpUpdateStock),
      (''GET'', ['''', ''health''], Health), ('''', ['''', ''metrics''], Metrics)]"
  by code_simp

lemma route_matches_segments:
  "route_matches rs m segs = concat (map (\<lambda>(m', ss, e).
     if m' = m \<or> m' = '''' then (case match_segs ss segs of None \<Rightarrow> [] | Some ps \<Rightarrow> [(e, ps)]) else [])
     (map (\<lambda>(m, p, e). (m, segments p, e)) rs))"
  by (auto simp: route_matches_def split_beta o_def intro!: arg_cong [where f = concat])

lemma match_literal: "\<not> is_param p \<Longrightarrow> match_segs (p # ps) segs =
    (case segs of [] \<Rightarrow> None | s # ss \<Rightarrow> if s = p then match_segs ps ss else None)"
  by (cases segs) auto

lemma match_param: "is_param p \<Longrightarrow> match_segs (p # ps) segs =
    (case segs of [] \<Rightarrow> None | s # ss \<Rightarrow>
       if s = '''' then None else map_option (Cons (param_name p, s)) (match_segs ps ss))"
  by (cases segs) auto

lemma match_end: "match_segs [] segs = (if segs = [] then Some [] else None)"
  by (cases segs) auto

lemma params_of_routes:
  "is_param ''{id}''" "is_param ''{product_id}''" "is_param ''{reservation_id}''"
  "param_name ''{id}'' = ''id''" "param_name ''{product_id}'' = ''product_id''"
  "param_name ''{reservation_id}'' = ''reservation_id''"
  "\<not> is_param ''''" "\<not> is_param ''api''" "\<not> is_param ''orders''" "\<not> is_param ''cancel''" "\<not> is_param ''health''"
  "\<not> is_param ''metrics''" "\<not> is_param ''inventory''" "\<not> is_param ''stock''" "\<not> is_param ''reserve''" "\<not> is_param ''release''"
  by (simp_all add: is_param_def param_name_def)

lemmas match_rules = match_literal match_param match_end params_of_routes

lemma routable_segments:
  assumes "routable m path"
  obtains ss where "segments path = '''' # ss" and "ss \<noteq> []" and "'''' \<notin> set (butlast ss)"
  using assms by (auto simp: routable_def split: list.splits)

interpretation order_routes: route_table order_router order_target
proof (unfold_locales, rule plain_routers(1))
  fix m path
  assume "routable m path"
  then obtain ss where segs: "segments path = '''' # ss" "ss \<noteq> []" "'''' \<notin> set (butlast ss)"
    by (rule routable_segments)
  show "route_matches order_router m (segments path) = (case order_target m (segments path) of None \<Rightarrow> [] | Some x \<Rightarrow> [x])"
    using segs(2,3) unfolding segs(1) route_matches_segments order_patterns order_target_def
    by (auto simp: match_rules common_target_def order_collection_def split: list.splits option.splits if_splits)
qed

interpretation inventory_routes: route_table inventory_router inventory_target
proof (unfold_locales, rule plain_routers(2))
  fix m path
  assume "routable m path"
  then obtain ss where segs: "segments path = '''' # ss" "ss \<noteq> []" "'''' \<notin> set (butlast ss)"
    by (rule routable_segments)
  show "route_matches inventory_router m (segments path) =
      (case inventory_target m (segments path) of None \<Rightarrow> [] | Some x \<Rightarrow> [x])"
    using segs(2,3) unfolding segs(1) route_matches_segments inventory_patterns inventory_target_def
    by (auto simp: match_rules common_target_def split: list.splits option.splits if_splits)
qed

subsection \<open>The service seen through its router\<close>

text \<open>
  What the answer to a request has to be, given the page it is for: the response of the endpoint
  and its effect on the world, the fixed answer of \<open>/health\<close>, the page of \<open>/metrics\<close>, or a
  refusal that changes nothing; and in each case one more span.
\<close>

definition answers ::
  "(json \<Rightarrow> string) \<Rightarrow> ('d http_service \<Rightarrow> wcall list) \<Rightarrow> ('e \<Rightarrow> HttpRequest \<Rightarrow> ('d, HttpResponse) io) \<Rightarrow> request_rest
   \<Rightarrow> WireRequest \<Rightarrow> 'd http_service \<Rightarrow> ('e page \<times> params) option \<Rightarrow> wcall list \<times> 'd http_service \<Rightarrow> bool" where
  "answers enc prom endpoint rest r s target = (\<lambda>(calls, s').
     length (hm_spans s') = Suc (length (hm_spans s)) \<and>
     (case target of
        None \<Rightarrow> status_sent calls \<in> {404, 405} \<and> hs_world s' = hs_world s
      | Some (Api e, ps) \<Rightarrow>
          (case run_state (endpoint e (handler_request rest ps (wr_header r))) (hs_world s) of
             (p, w) \<Rightarrow> calls = response_calls enc p \<and> hs_world s' = w)
      | Some (Health, _) \<Rightarrow> status_sent calls = 200 \<and> hs_world s' = hs_world s
      | Some (Metrics, _) \<Rightarrow> calls = prom s \<and> hs_world s' = hs_world s))"

lemma service_stack_run:
  "service_stack service h r hijacker s =
     (case h r False s of (calls, s1) \<Rightarrow>
        (calls, observe service r (metric_path r) (statusWriter calls)
           (s1\<lparr>hm_spans := hm_spans s1 @ [http_span r (statusWriter calls) calls]\<rparr>)))"
  by (simp add: service_stack_def metrics_Middleware_def tracing_Middleware_def split: prod.splits)

lemma observe_service [simp]:
  "hs_world (observe service r path status s) = hs_world s" "hm_spans (observe service r path status s) = hm_spans s"
  by (simp_all add: observe_def Let_def)

context route_table
begin

lemma routed_answers:
  assumes "chi_documented chi" and "routable (wr_method r) (wr_path r)"
  shows "answers enc prom endpoint rest r s (target (wr_method r) (segments (wr_path r)))
    (serve_routed chi service rs enc prom endpoint rest r hijacker s)"
proof -
  obtain label choice where chi: "chi rs (wr_method r) (wr_path r) = (label, choice)" by fastforce
  show ?thesis
    using chi_target [OF assms] health_status(1) [of "r\<lparr>wr_pattern := label\<rparr>" False s]
    by (auto simp: chi serve_routed_def answers_def service_stack_run serve_page_def health_handler_def
        split: option.splits prod.splits page.splits)
qed

end

text \<open>
  C17: which request reaches which handler of the order service. For every chi that behaves as
  documented, a request with a path without empty inner segments runs exactly the handler that
  \<open>order_target\<close> names, with the parameters cut from its path, and is answered with that
  handler's response; \<open>/health\<close> and \<open>/metrics\<close> change nothing; everything else is refused with
  404 or 405 and no handler runs. The middlewares add exactly one span and change neither the
  answer nor the data.
\<close>

theorem order_service_routing:
  assumes "chi_documented chi" and "routable (wr_method r) (wr_path r)"
  shows "answers enc prom (order_endpoint_handler env (orderUC env)) rest r s
    (order_target (wr_method r) (segments (wr_path r))) (order_service_http chi enc prom env rest r hijacker s)"
  unfolding order_service_http_def by (rule order_routes.routed_answers [OF assms])

text \<open>A router that takes the first route that matches.\<close>

definition first_chi :: "'e chi" where
  "first_chi rs m path =
     (case route_matches rs m (segments path) of
        [] \<Rightarrow> ('''', Inl [SetHeader ''Content-Type'' ''text/plain'', WriteHeader 404, WriteBody ''404 page not found''])
      | x # _ \<Rightarrow> (path, Inr x))"

lemma first_chi_documented: "chi_documented first_chi"
  by (auto simp: chi_documented_def first_chi_def status_sent_def served_def informational_def send_status_def
      split: list.splits)

definition cancel_wire :: WireRequest where
  "cancel_wire = \<lparr>wr_method = ''POST'', wr_path = ''/api/orders/o1/cancel'', wr_pattern = '''', wr_header = (\<lambda>_. '''')\<rparr>"

definition no_rest :: request_rest where
  "no_rest = \<lparr>rr_query = (\<lambda>_. ''''), rr_body = None\<rparr>"

definition fresh_service :: "'d \<Rightarrow> 'd http_service" where
  "fresh_service d = \<lparr>hm_requests = (\<lambda>_. 0), hm_durations = (\<lambda>_. 0), hm_spans = [], hs_world = idle d\<rparr>"

lemma cancel_wire_routed:
  "routable (wr_method cancel_wire) (wr_path cancel_wire)"
  "order_target (wr_method cancel_wire) (segments (wr_path cancel_wire)) = Some (Api EpCancelOrder, [(''id'', ''o1'')])"
  by code_simp+

lemma cancel_wire_sel: "wr_header cancel_wire = (\<lambda>_. '''')"
  by (simp add: cancel_wire_def)

lemma fresh_service_sel: "hs_world (fresh_service d) = idle d"
  by (simp add: fresh_service_def)

theorem order_service_routing_witness:
  "fst (order_service_http first_chi (\<lambda>_. '''') (\<lambda>_. []) ideal_env no_rest cancel_wire True (fresh_service demo_orders)) =
     response_calls (\<lambda>_. '''') (fst (run_state (OrderHandler_CancelOrder ideal_env (orderUC ideal_env)
       (handler_request no_rest [(''id'', ''o1'')] (\<lambda>_. ''''))) (idle demo_orders)))"
  using order_service_routing [OF first_chi_documented cancel_wire_routed(1), where enc = "\<lambda>_. ''''" and prom = "\<lambda>_. []" and env = ideal_env
      and rest = no_rest and s = "fresh_service demo_orders" and hijacker = True]
  by (simp add: cancel_wire_routed(2) cancel_wire_sel answers_def fresh_service_sel split: prod.splits)

text \<open>The same of the inventory service.\<close>

theorem inventory_service_routing:
  assumes "chi_documented chi" and "routable (wr_method r) (wr_path r)"
  shows "answers enc prom (inventory_endpoint_handler env (inventoryUC env)) rest r s
    (inventory_target (wr_method r) (segments (wr_path r))) (inventory_service_http chi enc prom env rest r hijacker s)"
  unfolding inventory_service_http_def by (rule inventory_routes.routed_answers [OF assms])

end
