(* ===== verification/Service_Logger.thy ===== *)
theory Service_Logger
  imports Service_Process "HOL-Library.Word"
begin

text \<open>
  The logger (\<^verbatim>\<open>pkg/logger/logger.go\<close>): the fields that connect an entry to the trace of its
  request, and the two sinks an entry is written to. The cores and loggers of zap are a
  parameter; \<open>zap_documented\<close> says what its documentation promises of them.
\<close>

subsection \<open>Trace fields\<close>

type_synonym field = "string \<times> string"

record SpanContext =
  sx_trace_id :: "128 word"
  sx_span_id :: "64 word"

definition hex_digit :: "nat \<Rightarrow> char" where
  "hex_digit d = (if d < 10 then char_of (48 + d) else char_of (87 + d))"

text \<open>\<open>hex.EncodeToString\<close>, as \<open>TraceID.String\<close> and \<open>SpanID.String\<close> use it: all digits, leading zeros included.\<close>

fun hex :: "nat \<Rightarrow> nat \<Rightarrow> string" where
  "hex 0 n = []"
| "hex (Suc k) n = hex k (n div 16) @ [hex_digit (n mod 16)]"

text \<open>\<open>traceFields\<close>: a context without a span, or with an invalid trace id, adds nothing.\<close>

definition traceFields :: "SpanContext option \<Rightarrow> field list" where
  "traceFields ctx =
     (case ctx of
        None \<Rightarrow> []
      | Some sc \<Rightarrow>
          if sx_trace_id sc = 0 then []
          else (''trace_id'', hex 32 (unat (sx_trace_id sc))) #
            (if sx_span_id sc = 0 then [] else [(''span_id'', hex 16 (unat (sx_span_id sc)))]))"

lemma hex_digit_inject: "d < 16 \<Longrightarrow> e < 16 \<Longrightarrow> hex_digit d = hex_digit e \<Longrightarrow> d = e"
proof -
  assume "d < 16" "e < 16" and eq: "hex_digit d = hex_digit e"
  have "of_char (hex_digit d) = (of_char (hex_digit e) :: nat)" using eq by simp
  with \<open>d < 16\<close> \<open>e < 16\<close> show "d = e" by (simp add: hex_digit_def split: if_splits)
qed

lemma hex_length [simp]: "length (hex k n) = k"
  by (induction k arbitrary: n) auto

lemma hex_inject: "m < 16 ^ k \<Longrightarrow> n < 16 ^ k \<Longrightarrow> hex k m = hex k n \<Longrightarrow> m = n"
proof (induction k arbitrary: m n)
  case (Suc k)
  have "m div 16 < 16 ^ k" "n div 16 < 16 ^ k" using Suc.prems(1,2) by (simp_all add: less_mult_imp_div_less mult.commute)
  then have "m div 16 = n div 16" using Suc.IH [of "m div 16" "n div 16"] Suc.prems(3) by simp
  moreover have "m mod 16 = n mod 16" using hex_digit_inject [of "m mod 16" "n mod 16"] Suc.prems(3) by simp
  ultimately show ?case by (metis mult_div_mod_eq)
qed simp

lemma trace_id_bound: "unat (t :: 128 word) < 16 ^ 32" "unat (s :: 64 word) < 16 ^ 16"
  using unsigned_less [of t, where 'a = nat] unsigned_less [of s, where 'a = nat] by simp_all

text \<open>
  The fields of an entry identify its span: two contexts with valid ids give the same fields
  only when they are the same span of the same trace.
\<close>

theorem traceFields_identify:
  assumes "sx_trace_id a \<noteq> 0" and "sx_span_id a \<noteq> 0" and "traceFields (Some a) = traceFields (Some b)"
  shows "sx_trace_id a = sx_trace_id b \<and> sx_span_id a = sx_span_id b"
proof -
  have b: "sx_trace_id b \<noteq> 0" "sx_span_id b \<noteq> 0" using assms by (auto simp: traceFields_def split: if_splits)
  with assms have "hex 32 (unat (sx_trace_id a)) = hex 32 (unat (sx_trace_id b))"
    "hex 16 (unat (sx_span_id a)) = hex 16 (unat (sx_span_id b))" by (simp_all add: traceFields_def)
  then have "unat (sx_trace_id a) = unat (sx_trace_id b)" "unat (sx_span_id a) = unat (sx_span_id b)"
    using hex_inject trace_id_bound by blast+
  then show ?thesis by (simp add: word_unat_eq_iff)
qed

subsection \<open>The sinks of an entry\<close>

datatype sink = Stdout | Collector

record entry =
  en_level :: log_level
  en_message :: string
  en_fields :: "field list"

text \<open>
  zap: \<open>config.Build\<close> with its fields, the core of the collector, \<open>NewTee\<close>, \<open>zap.New\<close> with its
  fields, and what a core writes for an entry.
\<close>

record 'c zap =
  z_build :: "field list \<Rightarrow> 'c"
  z_otel_core :: "string \<Rightarrow> 'c"
  z_tee :: "'c \<Rightarrow> 'c \<Rightarrow> 'c"
  z_new :: "'c \<Rightarrow> field list \<Rightarrow> 'c"
  z_write :: "'c \<Rightarrow> entry \<Rightarrow> (sink \<times> entry) list"

definition add_fields :: "field list \<Rightarrow> entry \<Rightarrow> entry" where
  "add_fields fs e = e\<lparr>en_fields := fs @ en_fields e\<rparr>"

definition zap_documented :: "'c zap \<Rightarrow> bool" where
  "zap_documented z \<longleftrightarrow>
     (\<forall>fs e. z_write z (z_build z fs) e = [(Stdout, add_fields fs e)]) \<and>
     (\<forall>s e. z_write z (z_otel_core z s) e = [(Collector, e)]) \<and>
     (\<forall>a b e. z_write z (z_tee z a b) e = z_write z a e @ z_write z b e) \<and>
     (\<forall>c fs e. z_write z (z_new z c fs) e = z_write z c (add_fields fs e))"

text \<open>The logger that \<open>InitLogger\<close> returns: for the standard output alone, or for both sinks.\<close>

definition logger_core :: "'c zap \<Rightarrow> string \<Rightarrow> string \<Rightarrow> 'c" where
  "logger_core z service otelEndpoint =
     (let stdoutLogger = z_build z [(''service'', service)]
      in if otelEndpoint = '''' then stdoutLogger
         else z_new z (z_tee z stdoutLogger (z_otel_core z service)) [(''service'', service)])"

text \<open>\<open>InfoContext\<close>, \<open>WarnContext\<close> and \<open>ErrorContext\<close>: the fields of the caller, then those of the trace.\<close>

definition log_context :: "'c zap \<Rightarrow> 'c \<Rightarrow> log_level \<Rightarrow> SpanContext option \<Rightarrow> string \<Rightarrow> field list \<Rightarrow> (sink \<times> entry) list" where
  "log_context z core lvl ctx msg fs =
     z_write z core \<lparr>en_level = lvl, en_message = msg, en_fields = fs @ traceFields ctx\<rparr>"

abbreviation "InfoContext z core \<equiv> log_context z core LvlInfo"
abbreviation "WarnContext z core \<equiv> log_context z core LvlWarn"
abbreviation "ErrorContext z core \<equiv> log_context z core LvlError"

text \<open>
  With a collector every entry is written once to each sink, with the fields of the caller and
  of the trace. The name of the service is a field of the logger and of its core for the
  standard output, so that there every entry has it twice.
\<close>

theorem entries_reach_both_sinks:
  assumes "zap_documented z" and "otelEndpoint \<noteq> ''''"
  shows "log_context z (logger_core z service otelEndpoint) lvl ctx msg fs =
    [(Stdout, \<lparr>en_level = lvl, en_message = msg,
        en_fields = (''service'', service) # (''service'', service) # fs @ traceFields ctx\<rparr>),
     (Collector, \<lparr>en_level = lvl, en_message = msg, en_fields = (''service'', service) # fs @ traceFields ctx\<rparr>)]"
  using assms unfolding zap_documented_def log_context_def logger_core_def Let_def by (simp add: add_fields_def)

text \<open>A zap as documented: a core is the list of its sinks with their fields.\<close>

definition list_zap :: "(sink \<times> field list) list zap" where
  "list_zap = \<lparr>z_build = (\<lambda>fs. [(Stdout, fs)]), z_otel_core = (\<lambda>s. [(Collector, [])]), z_tee = (@),
     z_new = (\<lambda>c fs. map (\<lambda>(s, gs). (s, gs @ fs)) c), z_write = (\<lambda>c e. map (\<lambda>(s, gs). (s, add_fields gs e)) c)\<rparr>"

lemma list_zap_documented: "zap_documented list_zap"
  by (auto simp: zap_documented_def list_zap_def add_fields_def)

theorem entries_reach_both_sinks_witness:
  "map fst (log_context list_zap (logger_core list_zap ''order-service'' ''otel-collector:4317'') LvlInfo
     (Some \<lparr>sx_trace_id = 1, sx_span_id = 2\<rparr>) ''ok'' []) = [Stdout, Collector]"
  using entries_reach_both_sinks [OF list_zap_documented, of "''otel-collector:4317''"] by simp

end
