(* ===== verification/Traced_DB.thy ===== *)
theory Traced_DB
  imports Prelude
begin

text \<open>
  The traced database (\<^verbatim>\<open>pkg/tracing/db.go\<close>): a wrapper of \<open>sqlx.DB\<close> that records a span per
  call. The database underneath is a parameter: any functions with the types of its methods, on
  any world, with arguments of any type and results of any type. The theory shows that the wrapper is
  transparent and what its spans say.
\<close>

subsection \<open>Spans\<close>

record db_span =
  ds_name :: string
  ds_attributes :: "(string \<times> string) list"
  ds_error :: "go_error option"
  ds_ended :: bool

text \<open>The world of the database and the spans of the tracer, a span is known by its position.\<close>

record 'w traced =
  ts_world :: 'w
  ts_spans :: "db_span list"

definition on_world :: "('w, 'a) state \<Rightarrow> ('w traced, 'a) state" where
  "on_world m = State (\<lambda>s. case run_state m (ts_world s) of (x, w) \<Rightarrow> (x, s\<lparr>ts_world := w\<rparr>))"

definition on_span :: "nat \<Rightarrow> (db_span \<Rightarrow> db_span) \<Rightarrow> ('w traced, unit) state" where
  "on_span i f = update_world (\<lambda>s. s\<lparr>ts_spans := (ts_spans s)[i := f (ts_spans s ! i)]\<rparr>)"

definition span_End :: "nat \<Rightarrow> ('w traced, unit) state" where
  "span_End i = on_span i (\<lambda>sp. sp\<lparr>ds_ended := True\<rparr>)"

text \<open>\<open>span.RecordError(err)\<close> and \<open>span.SetStatus(codes.Error, err.Error())\<close>.\<close>

definition span_Fail :: "nat \<Rightarrow> go_error \<Rightarrow> ('w traced, unit) state" where
  "span_Fail i e = on_span i (\<lambda>sp. sp\<lparr>ds_error := Some e\<rparr>)"

subsection \<open>The wrapper\<close>

record ('w, 'v, 'r) DB =
  db_ExecContext :: "string \<Rightarrow> 'v list \<Rightarrow> ('w, 'r) eff"
  db_QueryContext :: "string \<Rightarrow> 'v list \<Rightarrow> ('w, 'r) eff"
  db_QueryRowContext :: "string \<Rightarrow> 'v list \<Rightarrow> ('w, 'r) state"
  db_NamedExecContext :: "string \<Rightarrow> 'v \<Rightarrow> ('w, 'r) eff"
  db_SelectContext :: "string \<Rightarrow> 'v list \<Rightarrow> ('w, 'r) eff"
  db_GetContext :: "string \<Rightarrow> 'v list \<Rightarrow> ('w, 'r) eff"

record ('w, 'v, 'r) TracedDB =
  td_db :: "('w, 'v, 'r) DB"
  td_tracer :: string

definition NewTracedDB :: "('w, 'v, 'r) DB \<Rightarrow> string \<Rightarrow> ('w, 'v, 'r) TracedDB" where
  "NewTracedDB db serviceName = \<lparr>td_db = db, td_tracer = serviceName\<rparr>"

definition startSpan :: "string \<Rightarrow> ('w traced, nat) state" where
  "startSpan query = State (\<lambda>s. (length (ts_spans s), s\<lparr>ts_spans := ts_spans s @
     [\<lparr>ds_name = ''db.query'', ds_attributes = [(''db.system'', ''postgresql''), (''db.statement'', query)],
       ds_error = None, ds_ended = False\<rparr>]\<rparr>))"

text \<open>The body the methods share: start a span, run the call, record its error, end the span.\<close>

definition in_span :: "string \<Rightarrow> ('w, 'r) eff \<Rightarrow> ('w traced, 'r) eff" where
  "in_span query m =
     State_Monad.bind (startSpan query) (\<lambda>i. deferred (span_End i) (
       State_Monad.bind (on_world m) (\<lambda>r. case r of
         Inl e \<Rightarrow> State_Monad.bind (span_Fail i e) (\<lambda>_. fail e)
       | Inr x \<Rightarrow> ok x)))"

definition TracedDB_ExecContext :: "('w, 'v, 'r) TracedDB \<Rightarrow> string \<Rightarrow> 'v list \<Rightarrow> ('w traced, 'r) eff" where
  "TracedDB_ExecContext t query args = in_span query (db_ExecContext (td_db t) query args)"

definition TracedDB_QueryContext :: "('w, 'v, 'r) TracedDB \<Rightarrow> string \<Rightarrow> 'v list \<Rightarrow> ('w traced, 'r) eff" where
  "TracedDB_QueryContext t query args = in_span query (db_QueryContext (td_db t) query args)"

text \<open>\<open>sql.Row\<close> keeps its error for \<open>Scan\<close>, so this span never has one.\<close>

definition TracedDB_QueryRowContext :: "('w, 'v, 'r) TracedDB \<Rightarrow> string \<Rightarrow> 'v list \<Rightarrow> ('w traced, 'r) state" where
  "TracedDB_QueryRowContext t query args =
     State_Monad.bind (startSpan query) (\<lambda>i. deferred (span_End i) (on_world (db_QueryRowContext (td_db t) query args)))"

definition TracedDB_NamedExecContext :: "('w, 'v, 'r) TracedDB \<Rightarrow> string \<Rightarrow> 'v \<Rightarrow> ('w traced, 'r) eff" where
  "TracedDB_NamedExecContext t query arg = in_span query (db_NamedExecContext (td_db t) query arg)"

definition TracedDB_SelectContext :: "('w, 'v, 'r) TracedDB \<Rightarrow> string \<Rightarrow> 'v list \<Rightarrow> ('w traced, 'r) eff" where
  "TracedDB_SelectContext t query args = in_span query (db_SelectContext (td_db t) query args)"

definition TracedDB_GetContext :: "('w, 'v, 'r) TracedDB \<Rightarrow> string \<Rightarrow> 'v list \<Rightarrow> ('w traced, 'r) eff" where
  "TracedDB_GetContext t query args = in_span query (db_GetContext (td_db t) query args)"

subsection \<open>The wrapper is transparent\<close>

datatype 'v db_call =
    CallExec string "'v list"
  | CallQuery string "'v list"
  | CallQueryRow string "'v list"
  | CallNamedExec string 'v
  | CallSelect string "'v list"
  | CallGet string "'v list"

fun direct_call :: "('w, 'v, 'r) DB \<Rightarrow> 'v db_call \<Rightarrow> ('w, 'r) eff" where
  "direct_call db (CallExec q a) = db_ExecContext db q a"
| "direct_call db (CallQuery q a) = db_QueryContext db q a"
| "direct_call db (CallQueryRow q a) = State_Monad.bind (db_QueryRowContext db q a) ok"
| "direct_call db (CallNamedExec q v) = db_NamedExecContext db q v"
| "direct_call db (CallSelect q a) = db_SelectContext db q a"
| "direct_call db (CallGet q a) = db_GetContext db q a"

fun traced_call :: "('w, 'v, 'r) TracedDB \<Rightarrow> 'v db_call \<Rightarrow> ('w traced, 'r) eff" where
  "traced_call t (CallExec q a) = TracedDB_ExecContext t q a"
| "traced_call t (CallQuery q a) = TracedDB_QueryContext t q a"
| "traced_call t (CallQueryRow q a) = State_Monad.bind (TracedDB_QueryRowContext t q a) ok"
| "traced_call t (CallNamedExec q v) = TracedDB_NamedExecContext t q v"
| "traced_call t (CallSelect q a) = TracedDB_SelectContext t q a"
| "traced_call t (CallGet q a) = TracedDB_GetContext t q a"

fun statement :: "'v db_call \<Rightarrow> string" where
  "statement (CallExec q a) = q"
| "statement (CallQuery q a) = q"
| "statement (CallQueryRow q a) = q"
| "statement (CallNamedExec q v) = q"
| "statement (CallSelect q a) = q"
| "statement (CallGet q a) = q"

text \<open>The span of a call with a result.\<close>

definition call_span :: "'v db_call \<Rightarrow> 'r result \<Rightarrow> db_span" where
  "call_span c r =
     \<lparr>ds_name = ''db.query'', ds_attributes = [(''db.system'', ''postgresql''), (''db.statement'', statement c)],
      ds_error = (case r of Inl e \<Rightarrow> Some e | Inr _ \<Rightarrow> None), ds_ended = True\<rparr>"

lemma run_in_span:
  "run_state (in_span query m) s =
     (case run_state m (ts_world s) of (r, w) \<Rightarrow>
        (r, s\<lparr>ts_world := w, ts_spans := ts_spans s @
           [\<lparr>ds_name = ''db.query'', ds_attributes = [(''db.system'', ''postgresql''), (''db.statement'', query)],
             ds_error = (case r of Inl e \<Rightarrow> Some e | Inr _ \<Rightarrow> None), ds_ended = True\<rparr>]\<rparr>))"
  by (simp add: in_span_def startSpan_def on_world_def span_Fail_def span_End_def on_span_def
      split: prod.splits sum.splits)

lemma run_traced_call:
  "run_state (traced_call t c) s =
     (case run_state (direct_call (td_db t) c) (ts_world s) of (r, w) \<Rightarrow>
        (r, s\<lparr>ts_world := w, ts_spans := ts_spans s @ [call_span c r]\<rparr>))"
proof (cases c)
  case (CallQueryRow q a)
  then show ?thesis
    by (simp add: TracedDB_QueryRowContext_def startSpan_def on_world_def span_End_def on_span_def call_span_def
        split: prod.splits)
qed (simp_all add: run_in_span call_span_def TracedDB_ExecContext_def TracedDB_QueryContext_def TracedDB_NamedExecContext_def
    TracedDB_SelectContext_def TracedDB_GetContext_def split: prod.splits)

text \<open>
  C40: the traced database is the database. Whatever sequence of calls is made through the
  wrapper, the results are those of the same calls on the database itself and leave it in the
  same state; and the tracer gets exactly one span per call, in their order, ended, with the
  statement, and with the error exactly when the call returned one.
\<close>

theorem TracedDB_transparent:
  "run_state (for_map (traced_call (NewTracedDB db service)) calls) s =
     (case run_state (for_map (direct_call db) calls) (ts_world s) of (rs, w) \<Rightarrow>
        (rs, s\<lparr>ts_world := w, ts_spans := ts_spans s @ map2 call_span calls rs\<rparr>))"
proof (induction calls arbitrary: s)
  case (Cons c calls)
  have db: "td_db (NewTracedDB db service) = db" by (simp add: NewTracedDB_def)
  show ?case by (simp add: run_traced_call db Cons.IH split: prod.splits)
qed simp

end
