(* ===== verification/Spec2Isabelle.thy ===== *)
theory Spec2Isabelle
  imports Order_Events Order_Pages Order_Complete Outbox_Claims Outbox_Shutdown Inventory_Update Metrics_Use WS_Delivery WS_Progress
    WS_Handler Auth_Service Service_Routes Service_Logger Traced_DB
begin

text \<open>
  A verification development of the realtime order and inventory system: four Go services behind
  a gateway. The order service stores orders in PostgreSQL together with an outbox of events that
  a publisher sends to Kafka; the inventory service keeps stock levels, reservations and movements
  and consumes the order events; the WebSocket service pushes events from Redis to browsers; the
  authentication service verifies the tokens of requests for the gateway.

  \<^bold>\<open>How the code is modelled.\<close> A struct is a record, a sentinel or wrapped error a value of
  \<open>go_error\<close>, a Go function that can fail and has effects a computation in a state monad over the
  world of its service (\<open>world\<close> in \<open>Platform\<close>: database, open transactions, Redis, sent messages,
  metrics). What the code cannot determine is a field of the environment \<open>env\<close>: fresh ids, the
  clock, the moment a context is done, the fault of each round trip (lost before or after it took
  effect), the order in which the server returns rows that tie in an \<open>ORDER BY\<close> (\<open>e_rank\<close>), and what
  the other clients of the database do between two round trips. So a theorem
  about every \<open>env\<close> speaks about every interleaving with other clients and every pattern of
  failures; \<open>calm\<close> environments have neither. SQL statements are functions on tables with the
  constraints of the schema, a transaction is a list of statements that a commit applies together,
  and JSON is decoded and encoded as \<open>encoding/json\<close> does (\<open>Go_Json\<close>), with binary64 amounts (\<open>Go_Float\<close>). Loops are
  structural recursions, except for \<open>retry_loop\<close>, whose recursion is bounded by the configured
  retries; endless loops (\<open>Start\<close>, \<open>Run\<close>) take the sequence of their wake-ups or are event systems.

  \<^bold>\<open>Theories.\<close>
  \<^item> \<open>Prelude\<close>, \<open>Go_Float\<close>, \<open>Go_Json\<close>, \<open>Platform\<close>: errors and effects, floats, JSON, the platform.
    \<open>Platform_Logic\<close> has the proof rules: \<open>triple\<close> for results, and the locale \<open>db_guarantee\<close> of
    relations that the service keeps at every step while the others do (\<open>safe\<close>, \<open>rely\<close>).
  \<^item> \<open>Redis_Cache\<close> (pkg/cache), \<open>Kafka_Kit\<close> (pkg/kafka): the helper packages; the consumer's retries
    and commits (\<open>handleWithRetry_outcome\<close>, \<open>Consumer_Start_commits_all\<close>) and its dead letters.
  \<^item> \<open>Order_Domain\<close>, \<open>Order_Repo\<close>, \<open>Order_Cache\<close>, \<open>Order_UseCase\<close> (internal/order): every method of the
    domain, the repositories, the cache decorators and the use cases. \<open>Order_Service\<close> has the
    contract of the use cases with their repositories (locale \<open>order_store\<close>, interpreted for the
    plain and for the deployed, cached repositories) and \<open>Order_Guarantees\<close> the guarantees of every
    sequence of calls; \<open>Order_Props\<close> and \<open>Order_Status\<close> have the properties: atomicity, success and
    idempotency of \<open>CreateOrder\<close>, durability, every branch of \<open>CancelOrder\<close> and \<open>ConfirmOrder\<close>, round
    trips, exact totals, and what the stale cache does. \<open>Order_Complete\<close>: no order without its items
    and its event (locale \<open>order_invariant\<close>, interpreted for \<open>orders_complete\<close>). \<open>Order_Pages\<close>: the
    pages of a listing together show every order once.
  \<^item> \<open>Outbox_Publisher\<close>: claim, publish, mark; a lone publisher sends every event once, oldest second
    first. \<open>Outbox_Claims\<close>: several publishers on one table, with the row locks of \<open>FOR UPDATE SKIP
    LOCKED\<close> and crashes, as an event system: at most once, and not at least once: what a killed
    publisher had in hand is lost. \<open>Outbox_Shutdown\<close>: no event of a batch that is claimed when the
    context is cancelled is given back, whether or not a write still takes effect.
  \<^item> \<open>Event_System\<close>: runs of events, reachable states, and the locale for their invariants.
  \<^item> \<open>Inventory_Domain\<close>, \<open>Inventory_Repo\<close>, \<open>Inventory_Cache\<close>, \<open>Inventory_UseCase\<close>
    (internal/inventory), with the contract \<open>stock_store\<close> in \<open>Inventory_Service\<close>, again interpreted
    for both wirings. \<open>Inventory_Props\<close>: integrity, no overselling, the optimistic lock.
    \<open>Inventory_Stock\<close> and \<open>Inventory_Ledger\<close>: \<open>ReserveStock\<close> and \<open>ReleaseReservation\<close> refine \<open>reserve_spec\<close>
    and \<open>release_spec\<close>, and keep the ledger of reserved units. \<open>Inventory_Update\<close>: \<open>UpdateStock\<close>
    refines \<open>update_spec\<close>, and \<open>GetStock\<close> shows a change at once.
  \<^item> \<open>Inventory_Events\<close>, \<open>Order_Events\<close>: the Kafka handlers of the two services and their deployed
    consumers; they keep the guarantees whatever messages arrive.
  \<^item> \<open>Http_Response\<close>, \<open>Order_Http\<close>, \<open>Inventory_Http\<close>: the HTTP handlers, from the decoded request to the
    status and body; \<open>Http_Middleware\<close>: the wrappers around them. \<open>Service_Routes\<close>: the routers of
    the two services (locale \<open>route_table\<close>, interpreted for both) and which request reaches which
    handler.
  \<^item> \<open>Metrics_Registry\<close> (pkg/metrics/metrics.go): the collectors and their registration. \<open>Metrics_Use\<close>:
    the counters count what the handlers answer (locale \<open>counting_handler\<close>, interpreted for both
    services), and labels are used as declared.
  \<^item> \<open>Service_Config\<close> (pkg/config), \<open>Service_Process\<close> (the four \<open>main\<close> functions, pkg/database,
    pkg/cache/redis.go, and the set-up in pkg/logger and pkg/tracing): a process as a computation that
    records its steps, with \<open>os.Exit\<close> and deferred calls; which failures end it and how it stops.
    \<open>Service_Logger\<close> (pkg/logger): sinks and fields of an entry. \<open>Traced_DB\<close> (pkg/tracing/db.go): the
    traced database is transparent.
  \<^item> \<open>WS_Client\<close>, \<open>WS_Subscriber\<close>, \<open>WS_Hub\<close> (pkg/websocket, internal/websocket): an event system with
    the program counters of \<open>Run\<close>, of every reader and writer, of the subscriber and of the handlers,
    one event per indivisible step, so that \<open>ws_reachable\<close> are the states of all interleavings.
    \<open>WS_Safety\<close>: the invariant and the only panic; \<open>WS_Delivery\<close>:
    \<open>BroadcastToChannel\<close> refines \<open>broadcast_spec\<close>; \<open>WS_Progress\<close>: a measure that every step of \<open>Run\<close> and
    the subscriber decreases, hence no deadlock. \<open>WS_Handler\<close>: upgrades and statistics over HTTP.
  \<^item> \<open>Auth_Service\<close> (cmd/auth-service): who is authenticated, for a token parser as documented.
  \<^item> This theory: what the services do together. An accepted order is announced on Kafka, the
    inventory service does not understand the announcement, and no endpoint checks its caller.

  \<^bold>\<open>Parameters.\<close> PostgreSQL's conversions (\<open>pg_types\<close>; any of them may reject a value, and only
  printable ASCII text that fits is assumed to be stored as it is), the topic rule of kafka-go (\<open>e_writer_ok\<close>),
  the trace propagator (\<open>e_trace\<close>), the upgrade of gorilla/websocket, the parser of golang-jwt, the
  router chi (\<open>chi_documented\<close>, for patterns without wildcards and regular expressions), the Prometheus client (\<open>client_documented\<close>), zap (\<open>zap_documented\<close>),
  the database under \<open>Traced_DB\<close> and the failures of the calls a process makes (\<open>system\<close>) are
  arguments; what a theorem needs of them is a named hypothesis that its witness instantiates.

  \<^bold>\<open>Not modelled.\<close> Elapsed times and the buckets of histograms; the text of log lines, what
  OpenTelemetry exports and the limits of the connection pool, on which no state of the services
  depends; the middlewares of chi itself; row locks and isolation inside PostgreSQL beyond
  \<open>Outbox_Claims\<close> (elsewhere a statement is one step, and what others commit in between is part of
  the environment); panics of HTTP handlers; in \<open>Service_Process\<close> the interleaving of the goroutines
  a process starts (their effects are in the theories of their components); the commit that
  kafka-go's \<open>ReadMessage\<close> makes by itself before \<open>Start\<close> of the consumer makes its own; the fairness of Go's
  scheduler; the SQL scripts, docker, Kubernetes and the gateway's configuration.
\<close>

section \<open>The services together\<close>

lemma getEventType_carrier: "getEventType hs = KafkaMessageCarrier_Get hs ''event_type''"
  by (induction hs rule: getEventType.induct) auto

text \<open>What reaches a consumer of an event of the outbox: its topic, its type and its payload.\<close>

lemma published_event:
  assumes "''event_type'' \<notin> fst ` set (e_trace env (w_tick w))"
    and "run_state (InjectTraceHeaders env (event_message ev cid)) w = (msg, w')"
  shows "m_topic msg = getTopicForEvent (ev_event_type ev) \<and> getEventType (m_headers msg) = ev_event_type ev \<and>
    m_value msg = ev_payload ev"
  using assms by (auto simp: InjectTraceHeaders_def run_next_tick event_message_def getEventType_carrier foldl_carrier_get)

text \<open>The payloads of the order service are flat, and the consumer's events are nested in a member \<open>data\<close>.\<close>

lemma other_keys:
  "\<forall>k \<in> {''customer_id'', ''items'', ''order_id'', ''total'', ''new_status'', ''old_status'', ''reason''}.
     fold_key k \<notin> fold_key ` {''event_id'', ''event_type'', ''data''}"
  by (simp add: fold_key_def fold_char_def)

lemma flat_members:
  assumes "fst ` set kvs \<subseteq> {''customer_id'', ''items'', ''order_id'', ''total'', ''new_status'', ''old_status'', ''reason''}"
    and "fst ` set fs = {''event_id'', ''event_type'', ''data''}"
  shows "dec_members fs cur kvs = Some cur"
proof (rule dec_members_ignored)
  fix k assume "k \<in> fst ` set kvs"
  then have "fold_key k \<notin> fold_key ` fst ` set fs" using other_keys assms(1) unfolding assms(2) by blast
  then show "field_for k fs = None" by (rule field_for_None)
qed

lemma unmarshal_created_payload:
  assumes "created_payload ord = Some p"
  shows "unmarshal dec_OrderCreatedEvent zero_OrderCreatedEvent (Some p) = Some zero_OrderCreatedEvent"
proof -
  from assms obtain kvs where "p = JObj kvs" "fst ` set kvs \<subseteq> {''customer_id'', ''items'', ''order_id'', ''total''}"
    by (cases "enc_float (o_total_amount ord)") (auto simp: created_payload_def enc_object_def)
  then show ?thesis
    using flat_members [of kvs OrderCreatedEvent_fields zero_OrderCreatedEvent]
    by (auto simp: unmarshal_def dec_OrderCreatedEvent_def OrderCreatedEvent_fields_def)
qed

lemma unmarshal_cancelled_payload:
  "unmarshal dec_OrderCancelledEvent zero_OrderCancelledEvent (cancelled_payload ord reason) = Some zero_OrderCancelledEvent"
  using flat_members [of "[(''new_status'', JStr StatusCancelled), (''old_status'', JStr (o_status ord)),
      (''order_id'', JStr (o_id ord)), (''reason'', JStr reason)]" OrderCancelledEvent_fields zero_OrderCancelledEvent]
  by (simp add: cancelled_payload_def enc_object_def unmarshal_def dec_OrderCancelledEvent_def OrderCancelledEvent_fields_def)

lemma orderConsumer_topic: "cc_topic (c_config (orderConsumer env)) = ''order.created''"
  by (simp add: orderConsumer_def NewConsumer_def)

text \<open>
  C35: the services do not understand each other's order events. The \<open>order.created\<close> message that
  the outbox publisher sends for an order, however many items it has, is read by the consumer
  of the inventory service as an event without items: its handler reserves nothing, announces
  nothing and reports success, so that the message is committed and the order stays unreserved.
  And a cancellation is sent to a topic that consumer does not read; if it did read it, the
  handler would release a reservation with the empty id.
\<close>

theorem order_events_are_not_understood:
  assumes "\<And>n. ''event_type'' \<notin> fst ` set (e_trace env n)"
    and "created_event ord ev" and "ev_payload ev \<noteq> None"
    and "run_state (InjectTraceHeaders env (event_message ev cid)) w = (msg, w1)"
    and "ev_event_type ev' = ''order.cancelled''" and "ev_payload ev' = cancelled_payload ord reason"
    and "run_state (InjectTraceHeaders env (event_message ev' cid')) w' = (msg', w1')"
  shows "m_topic msg = cc_topic (c_config (orderConsumer ienv)) \<and>
    OrderEventHandler_Handle ienv h msg = ok () \<and>
    m_topic msg' \<noteq> cc_topic (c_config (orderConsumer ienv)) \<and>
    OrderEventHandler_Handle ienv h msg' = oh_ReleaseReservation h ''''"
proof -
  have ev: "ev_event_type ev = ''order.created''" "ev_payload ev = created_payload ord"
    using assms(2) by (simp_all add: created_event_def)
  then obtain p where p: "created_payload ord = Some p" using assms(3) by auto
  note m = published_event [OF assms(1) assms(4)] and m' = published_event [OF assms(1) assms(7)]
  have "OrderEventHandler_Handle ienv h msg = ok ()"
    using m ev p unmarshal_created_payload [OF p]
    by (simp add: OrderEventHandler_Handle_def handleOrderCreated_def zero_OrderCreatedEvent_def zero_CreatedData_def)
  moreover have "OrderEventHandler_Handle ienv h msg' = oh_ReleaseReservation h ''''"
    using m' assms(5,6) unmarshal_cancelled_payload [of ord reason]
    by (simp add: OrderEventHandler_Handle_def handleOrderCancelled_def zero_OrderCancelledEvent_def)
  moreover have "m_topic msg = ''order.created''" "m_topic msg' = ''order.cancelled''"
    using m m' ev assms(5) by (simp_all add: getTopicForEvent_def)
  ultimately show ?thesis by (simp add: orderConsumer_topic)
qed


definition demo_announcement :: OutboxEvent where
  "demo_announcement = \<lparr>ev_id = ''e1'', ev_aggregate_type = ''order'', ev_aggregate_id = ''o3'', ev_event_type = ''order.created'',
     ev_payload = created_payload (demo_order\<lparr>o_items := [demo_item]\<rparr>), ev_status = ''PENDING'', ev_created_at = 1\<rparr>"

definition demo_cancellation :: OutboxEvent where
  "demo_cancellation = demo_announcement\<lparr>ev_event_type := ''order.cancelled'',
     ev_payload := cancelled_payload (demo_order\<lparr>o_items := [demo_item]\<rparr>) ''late''\<rparr>"

theorem order_events_are_not_understood_witness:
  "OrderEventHandler_Handle strict_env (order_event_handler strict_env) (event_message demo_announcement ''c'') = ok () \<and>
   OrderEventHandler_Handle strict_env (order_event_handler strict_env) (event_message demo_cancellation ''c'') =
     oh_ReleaseReservation (order_event_handler strict_env) ''''"
proof -
  let ?ord = "demo_order\<lparr>o_items := [demo_item]\<rparr>"
  have ev: "created_event ?ord demo_announcement" "ev_payload demo_announcement \<noteq> None"
    "ev_event_type demo_cancellation = ''order.cancelled''" "ev_payload demo_cancellation = cancelled_payload ?ord ''late''"
    by (simp_all add: created_event_def demo_announcement_def demo_cancellation_def demo_order_def rowToOrder_def demo_order_row_def
        created_payload_def enc_object_def)
  have inject: "run_state (InjectTraceHeaders (ideal_env :: order_db env) m) (idle demo_orders) =
      (m, snd (run_state (InjectTraceHeaders ideal_env m) (idle demo_orders)))" for m
    by (simp add: InjectTraceHeaders_def run_next_tick)
  have "''event_type'' \<notin> fst ` set (e_trace (ideal_env :: order_db env) n)" for n by simp
  from order_events_are_not_understood [OF this ev(1,2) inject ev(3,4) inject] show ?thesis by blast
qed

subsection \<open>The services do not check the caller\<close>

text \<open>
  The gateway forwards the user and the role of a verified token as headers. No endpoint of the
  order and the inventory service reads them: every caller may use every endpoint and see or
  cancel every order.
\<close>

theorem endpoints_ignore_the_caller:
  assumes "\<And>k. k \<notin> {''X-User-Id'', ''X-User-Role''} \<Longrightarrow> hd' k = hq_header r k"
  shows "order_endpoint_handler env uc ep (r\<lparr>hq_header := hd'\<rparr>) = order_endpoint_handler env uc ep r \<and>
    inventory_endpoint_handler env' uc' ep' (r\<lparr>hq_header := hd'\<rparr>) = inventory_endpoint_handler env' uc' ep' r"
proof -
  have "with_header_key (r\<lparr>hq_header := hd'\<rparr>) req = with_header_key r req" for req
    using assms [of "''Idempotency-Key''"] by (simp add: with_header_key_def)
  then show ?thesis
    by (cases ep; cases ep')
      (simp_all add: OrderHandler_CreateOrder_def OrderHandler_GetOrder_def OrderHandler_ListOrders_def OrderHandler_CancelOrder_def
        InventoryHandler_GetStock_def InventoryHandler_ReserveStock_def InventoryHandler_ReleaseReservation_def
        InventoryHandler_UpdateStock_def cong: option.case_cong)
qed

theorem endpoints_ignore_the_caller_witness:
  "order_endpoint_handler ideal_env (orderUC ideal_env) EpCancelOrder
     (demo_cancel\<lparr>hq_header := (\<lambda>k. if k = ''X-User-Id'' then ''mallory'' else hq_header demo_cancel k)\<rparr>) =
   order_endpoint_handler ideal_env (orderUC ideal_env) EpCancelOrder demo_cancel"
proof -
  have "(\<lambda>k. if k = ''X-User-Id'' then ''mallory'' else hq_header demo_cancel k) k = hq_header demo_cancel k"
    if "k \<notin> {''X-User-Id'', ''X-User-Role''}" for k using that by simp
  from endpoints_ignore_the_caller [OF this] show ?thesis by blast
qed

subsection \<open>From a request to its announcement\<close>

text \<open>PostgreSQL stores a UUID in its standard form.\<close>

definition uuid_canonical :: "pg_types \<Rightarrow> bool" where
  "uuid_canonical pg \<longleftrightarrow> (\<forall>s i. pg_uuid pg s = Some i \<longrightarrow> pg_uuid pg i = Some i)"

lemma announced_row:
  assumes "outbox_row pg ev = Some e" and "created_event ord ev" and "varchar_keeps pg"
    and "order_row pg ord = Some row" and "created_payload ord = Some p"
  shows "er_status e = ''PENDING''" "er_event_type e = ''order.created''" "er_aggregate_id e = or_id row"
    "pg_jsonb pg p = Some (er_payload e)" "pg_uuid pg (ev_id ev) = Some (er_id e)"
  using assms varchar_literals [OF assms(3)] by (auto simp: outbox_row_def order_row_def created_event_def bind_eq_Some_conv)

lemma pending_with_new:
  assumes "t_outbox_events d' = t_outbox_events d @ [e]" and "er_status e = ''PENDING''"
  shows "length (pending d') = Suc (length (pending d))" "e \<in> set (pending d')"
  using assms by (simp_all add: pending_def)

lemma one_of_the_messages:
  assumes "list_all2 P xs ms" and "x \<in> set xs"
  obtains ms1 m ms2 where "ms = ms1 @ m # ms2" and "P x m" and "Suc (length ms1 + length ms2) = length xs"
proof -
  from assms(2) obtain ys zs where "xs = ys @ x # zs" by (blast dest: split_list)
  with assms(1) that show ?thesis
    by (fastforce simp: list_all2_append1 list_all2_Cons1 dest: list_all2_lengthD)
qed

lemma CreateOrder_keeps_wf:
  assumes "calm env" and "w_txs w = (\<lambda>_. None)" and "orders_wf (w_db w)"
    and "run_state (CreateOrder env (orderUC env) req) w = (r, w')"
  shows "orders_wf (w_db w')"
  using integrity.serve_all [OF cached_reader.order_reader_axioms rely_calm [OF db_guarantee_preserves assms(1)] order_stmts_wf,
      of w "[DoCreate req]"] assms
  by (simp add: preserves_def)

text \<open>
  C6: an order is announced. In a calm environment, for a request the schema accepts with a fresh
  key, \<open>CreateOrder\<close> stores the order, and once the publisher has had ticks enough for the events
  that were pending before and one more, exactly one message for each of them has gone to Kafka,
  among them, on the topic \<open>order.created\<close> and with the id of the stored order as key, the payload
  of this order as the database returns it; no event is left pending.
\<close>

theorem created_order_is_announced:
  assumes env: "publisher_env env" "varchar_keeps (e_pg env)" "uuid_canonical (e_pg env)"
    and req: "acceptable (e_pg env) req" "good_uuids env (w_db w) (w_tick w)"
      "\<forall>r \<in> set (t_orders (w_db w)). or_idempotency_key r \<noteq> Some (r_idempotency_key req)"
    and db: "w_txs w = (\<lambda>_. None)" "orders_wf (w_db w)" "ids_stored (e_pg env) (w_db w)"
    and ticks: "0 \<le> limit" "Suc (length (pending (w_db w))) \<le> k * nat limit"
  shows "\<exists>ord row p w1 r w' ms1 msg ms2.
    run_state (CreateOrder env (orderUC env) req) w = ((Some ord, None), w1) \<and> requested_order req ord \<and>
    order_row (e_pg env) ord = Some row \<and> row \<in> set (t_orders (w_db w1)) \<and> created_payload ord = Some p \<and>
    run_state (OutboxPublisher_Start env (publisher env) limit (replicate k Tick)) w1 = (r, w') \<and>
    w_sent w' = w_sent w1 @ ms1 @ msg # ms2 \<and> length ms1 + length ms2 = length (pending (w_db w)) \<and>
    m_topic msg = ''order.created'' \<and> m_key msg = or_id row \<and> m_value msg = pg_jsonb (e_pg env) p \<and>
    m_value msg \<noteq> None \<and> pending (w_db w') = []"
proof -
  have calm: "calm env" using env(1) by (simp add: publisher_env_def)
  obtain ord ev w1 where run: "run_state (CreateOrder env (orderUC env) req) w = ((Some ord, None), w1)"
      "requested_order req ord" and ev: "created_event ord ev" and st: "order_stored (e_pg env) ord ev (w_db w) (w_db w1)"
    using CreateOrder_succeeds_lemma [OF calm env(2) req] by blast
  obtain row e where row: "order_row (e_pg env) ord = Some row" "row \<in> set (t_orders (w_db w1))"
      and e: "outbox_row (e_pg env) ev = Some e" "t_outbox_events (w_db w1) = t_outbox_events (w_db w) @ [e]"
    using st by (auto simp: order_stored_def)
  obtain p where p: "created_payload ord = Some p"
    using e(1) ev by (auto simp: outbox_row_def created_event_def bind_eq_Some_conv)
  note er = announced_row [OF e(1) ev env(2) row(1) p]
  note new = pending_with_new [OF e(2) er(1)]
  have ids: "ids_stored (e_pg env) (w_db w1)"
    using db(3) e(2) er(5) env(3) by (auto simp: ids_stored_def uuid_canonical_def)
  have wf: "event_ids_distinct (w_db w1)" using CreateOrder_keeps_wf [OF calm db(1,2) run(1)] by (simp add: orders_wf_def)
  obtain r w' where start: "run_state (OutboxPublisher_Start env (publisher env) limit (replicate k Tick)) w1 = (r, w')" by (metis surj_pair)
  have "length (pending (w_db w1)) \<le> k * nat limit" using ticks(2) new(1) by simp
  then obtain evs ms where evs: "mset evs = mset (pending (w_db w1))" and
      ms: "list_all2 message_of (map row_to_event evs) ms" "w_sent w' = w_sent w1 @ ms" and none: "pending (w_db w') = []"
    using Start_drains_lemma [OF env(1) ticks(1) ids wf _ start] by blast
  have same: "set evs = set (pending (w_db w1))" "length evs = length (pending (w_db w1))"
    using mset_eq_setD [OF evs] mset_eq_length [OF evs] by simp_all
  obtain ms1 msg ms2 where msg: "ms = ms1 @ msg # ms2" "message_of (row_to_event e) msg"
      "Suc (length ms1 + length ms2) = length (map row_to_event evs)"
    by (rule one_of_the_messages [OF ms(1), of "row_to_event e"]) (use new(2) same(1) in auto)
  have "m_topic msg = ''order.created''" "m_key msg = or_id row" "m_value msg = pg_jsonb (e_pg env) p" "m_value msg \<noteq> None"
    using msg(2) er by (simp_all add: message_of_def row_to_event_def getTopicForEvent_def)
  moreover have "length ms1 + length ms2 = length (pending (w_db w))" using msg(3) new(1) same(2) by simp
  ultimately show ?thesis using run row p start ms(2) msg(1) none by blast
qed

theorem created_order_is_announced_witness:
  "\<exists>ord w1 r w'. run_state (CreateOrder ideal_env (orderUC ideal_env) demo_request) (idle demo_orders) = ((Some ord, None), w1) \<and>
     run_state (OutboxPublisher_Start ideal_env (publisher ideal_env) 1 (replicate 1 Tick)) w1 = (r, w') \<and>
     map m_topic (drop (length (w_sent w1)) (w_sent w')) = [''order.created''] \<and> pending (w_db w') = []"
proof -
  have d: "\<forall>r \<in> set (t_orders demo_orders). or_idempotency_key r \<noteq> Some (r_idempotency_key demo_request)"
    "ids_stored ideal_pg demo_orders" "pending demo_orders = []"
    by (simp_all add: demo_orders_def demo_order_row_def demo_request_def ids_stored_def pending_def)
  have "uuid_canonical ideal_pg" by (simp add: uuid_canonical_def)
  with created_order_is_announced [of ideal_env demo_request "idle demo_orders" 1 1] acceptable_demo demo_uuids demo_orders_wf d
    demo_outbox_ok(1)
  show ?thesis by (fastforce simp: d(3))
qed

end
